(* ===== verification/Prelude.thy ===== *)
theory Prelude
  imports Main "HOL-Library.Word" "HOL-Library.AList" "HOL-Library.List_Lexorder"
    "HOL-Library.Char_ord"
begin

text \<open>
  Shared vocabulary of the development: the widths of the machine integers, Rust's
  \<open>Result\<close> as a sum type with its early return, and the few standard library list
  searches the contract uses.

  The contract is built with the profile \<open>release-contract\<close> of \<open>Cargo.toml\<close>, which
  inherits \<open>release\<close> and does not switch overflow checks on: \<open>u32\<close> and \<open>u64\<close> arithmetic
  wraps, as \<open>+\<close> on words does.
\<close>

section \<open>Machine integers\<close>

type_synonym u8 = "8 word"
type_synonym u32 = "32 word"
type_synonym u64 = "64 word"
type_synonym u128 = "128 word"
type_synonym bytes = "8 word list"

text \<open>Facts used to turn results of operations into the facts that made them succeed.\<close>

named_theorems result_simps

text \<open>Unfolding equations of the small accessors and constructors of the model.\<close>

named_theorems model_defs

lemma word_less_Suc_unat: "a < b \<Longrightarrow> unat (a + 1) = Suc (unat a)" for a b :: "'a::len word"
proof -
  assume "a < b"
  then have "unat a < unat b" by (simp add: word_less_nat_alt)
  moreover have "unat b < 2 ^ LENGTH('a)" by (rule unsigned_less)
  ultimately have "Suc (unat a) < 2 ^ LENGTH('a)" by linarith
  then show ?thesis by (simp add: unat_word_ariths)
qed

lemma word_plus_one_le: "a < b \<Longrightarrow> a + 1 \<le> b" for a b :: "'a::len word"
  by (simp add: word_le_nat_alt word_less_nat_alt word_less_Suc_unat Suc_leI)

lemma word_less_plus_one: "a < b \<Longrightarrow> a < a + 1" for a b :: "'a::len word"
  by (simp add: word_less_nat_alt word_less_Suc_unat)

lemma unat_image_interval:
  "unat ` {a ..< b} = {unat a ..< unat b}" for a b :: "'a::len word"
proof (intro set_eqI iffI)
  fix n assume n: "n \<in> {unat a ..< unat b}"
  have "n < 2 ^ LENGTH('a)"
    by (rule less_trans [OF _ unsigned_less [of b]]) (use n in simp)
  then have "unat (of_nat n :: 'a word) = n"
    by (simp add: unat_of_nat)
  with n show "n \<in> unat ` {a ..< b}"
    by (intro image_eqI [of _ _ "of_nat n"]) (auto simp: word_le_nat_alt word_less_nat_alt)
qed (auto simp: word_le_nat_alt word_less_nat_alt)

lemma card_word_interval: "card {a ..< b} = unat b - unat a" for a b :: "'a::len word"
proof -
  have "card (unat ` {a ..< b}) = card {a ..< b}"
    by (intro card_image inj_onI) (simp add: word_unat_eq_iff)
  then show ?thesis by (simp add: unat_image_interval)
qed

lemma unat_ucast_u32: "unat (ucast (x :: u32) :: u64) = unat x"
proof -
  have "unat x < 2 ^ 64" using unsigned_less [of x] by (rule less_le_trans) simp
  then show ?thesis by (simp add: unsigned_ucast_eq take_bit_nat_eq_self)
qed

lemma unat_of_nat_minus_one:
  "0 < n \<Longrightarrow> n \<le> 2 ^ 32 \<Longrightarrow> unat (of_nat n - 1 :: u64) = n - 1"
  by (simp add: unat_of_nat unat_sub_if')

lemma of_nat_u64_eq:
  "a < 2 ^ 64 \<Longrightarrow> b < 2 ^ 64 \<Longrightarrow> (of_nat a :: u64) = of_nat b \<longleftrightarrow> a = b"
  by (auto simp: word_unat_eq_iff unat_of_nat)

lemma of_nat_u64_le: "a < 2 ^ 64 \<Longrightarrow> k \<le> (of_nat a :: u64) \<longleftrightarrow> unat k \<le> a"
  by (simp add: word_le_nat_alt unat_of_nat)

lemma of_nat_u64_less: "a < 2 ^ 64 \<Longrightarrow> (of_nat a :: u64) < k \<longleftrightarrow> a < unat k"
  by (simp add: word_less_nat_alt unat_of_nat)

lemma word_pred_less: "0 < b \<Longrightarrow> b - 1 < b" for b :: "'a::len word"
  by (metis measure_unat word_gt_0 word_less_nat_alt)

lemma contiguous_interval_iff:
  fixes S :: "u32 set"
  assumes "S \<noteq> {}" "\<forall>x \<in> S. x < b"
  shows "of_nat (card S) - 1 = (ucast (Max S - Min S) :: u64) \<and> Min S = a \<and> Max S + 1 = b
    \<longleftrightarrow> S = {a ..< b}"
proof
  have fin: "finite S" by simp
  assume L: "of_nat (card S) - 1 = (ucast (Max S - Min S) :: u64) \<and> Min S = a \<and> Max S + 1 = b"
  have "Max S < b" using assms Max_in [OF fin] by blast
  then have b: "unat b = Suc (unat (Max S))"
    using L word_less_Suc_unat by metis
  have le: "a \<le> Max S" using L assms Min_in [OF fin] Max_ge [OF fin] by blast
  have "card S \<le> card (UNIV :: u32 set)" by (rule card_mono) auto
  then have "card S \<le> 2 ^ 32" by (simp add: card_word)
  moreover have pos: "0 < card S" using assms fin by (simp add: card_gt_0_iff)
  ultimately have "unat (of_nat (card S) - 1 :: u64) = card S - 1"
    by (intro unat_of_nat_minus_one)
  moreover have "unat (ucast (Max S - Min S) :: u64) = unat (Max S) - unat a"
    using L le by (simp add: unat_ucast_u32 unat_sub)
  ultimately have "card S = unat b - unat a"
    using L b le pos by (simp add: word_le_nat_alt)
  moreover have "S \<subseteq> {a ..< b}"
    using L assms Min_le [OF fin] by auto
  ultimately show "S = {a ..< b}"
    by (metis card_subset_eq card_word_interval finite)
next
  assume S: "S = {a ..< b}"
  then have ab: "a < b" using assms by auto
  then have "0 < b" by (meson le_less_trans word_zero_le)
  then have b: "b - 1 < b" "b \<noteq> 0" by (simp_all add: word_pred_less)
  have nat_b: "unat (b - 1) = unat b - 1" using b by (simp add: unat_minus_one)
  have mn: "Min S = a" using S ab by (intro Min_eqI) auto
  have ab1: "a \<le> b - 1" using ab by (simp add: word_le_nat_alt word_less_nat_alt nat_b)
  then have mx: "Max S = b - 1"
    using S b by (intro Max_eqI) (auto simp: word_less_nat_alt word_le_nat_alt nat_b)
  have card: "card S = unat b - unat a" by (simp add: S card_word_interval)
  moreover have "unat b < 2 ^ 32" using unsigned_less [of b] by simp
  ultimately have "unat (of_nat (card S) - 1 :: u64) = unat b - 1 - unat a"
    using ab by (subst unat_of_nat_minus_one) (auto simp: word_less_nat_alt)
  moreover have "unat (ucast (b - 1 - a) :: u64) = unat b - 1 - unat a"
    using ab1 by (simp add: unat_ucast_u32 unat_sub nat_b)
  ultimately have "of_nat (card S) - 1 = (ucast (b - 1 - a) :: u64)"
    by (simp add: word_unat_eq_iff)
  then show "of_nat (card S) - 1 = (ucast (Max S - Min S) :: u64) \<and> Min S = a \<and> Max S + 1 = b"
    using mn mx by simp
qed

section \<open>Results and early return\<close>

text \<open>
  \<open>Inl\<close> is \<open>Err\<close>, \<open>Inr\<close> is \<open>Ok\<close>. The operator \<open>and_then\<close> is Rust's question mark:
  an error returns at once.
\<close>

definition and_then :: "'e + 'a \<Rightarrow> ('a \<Rightarrow> 'e + 'b) \<Rightarrow> 'e + 'b" where
  "and_then r f = (case r of Inl e \<Rightarrow> Inl e | Inr x \<Rightarrow> f x)"

definition ensure :: "bool \<Rightarrow> 'e \<Rightarrow> 'e + unit" where
  "ensure b e = (if b then Inr () else Inl e)"

definition ok_or :: "'a option \<Rightarrow> 'e \<Rightarrow> 'e + 'a" where
  "ok_or x e = (case x of None \<Rightarrow> Inl e | Some y \<Rightarrow> Inr y)"

definition is_ok :: "'e + 'a \<Rightarrow> bool" where
  "is_ok r = (case r of Inl _ \<Rightarrow> False | Inr _ \<Rightarrow> True)"

lemma and_then_Inl [simp]: "and_then (Inl e) f = Inl e"
  by (simp add: and_then_def)

lemma and_then_Inr [simp]: "and_then (Inr x) f = f x"
  by (simp add: and_then_def)

lemma and_then_eq_Inr [result_simps]:
  "and_then r f = Inr y \<longleftrightarrow> (\<exists>x. r = Inr x \<and> f x = Inr y)"
  by (cases r) auto

lemma and_then_eq_Inl [result_simps]:
  "and_then r f = Inl e \<longleftrightarrow> r = Inl e \<or> (\<exists>x. r = Inr x \<and> f x = Inl e)"
  by (cases r) auto

lemma and_then_InrE:
  assumes "and_then r f = Inr y"
  obtains x where "r = Inr x" "f x = Inr y"
  using assms by (cases r) auto

lemma ensure_eq_Inr [result_simps]: "ensure b e = Inr u \<longleftrightarrow> b"
  by (simp add: ensure_def)

lemma ensure_eq_Inl [result_simps]: "ensure b e = Inl e' \<longleftrightarrow> \<not> b \<and> e' = e"
  by (auto simp add: ensure_def)

lemma ensure_simps [simp]: "ensure True e = Inr ()" "ensure False e = Inl e"
  by (simp_all add: ensure_def)

lemma ok_or_eq_Inr [result_simps]: "ok_or x e = Inr y \<longleftrightarrow> x = Some y"
  by (cases x) (auto simp: ok_or_def)

lemma ok_or_eq_Inl [result_simps]: "ok_or x e = Inl e' \<longleftrightarrow> x = None \<and> e' = e"
  by (cases x) (auto simp: ok_or_def)

lemma ok_or_simps [simp]: "ok_or None e = Inl e" "ok_or (Some y) e = Inr y"
  by (simp_all add: ok_or_def)

lemma is_ok_simps [simp]: "is_ok (Inl e) = False" "is_ok (Inr x) = True"
  by (simp_all add: is_ok_def)

lemma is_ok_iff: "is_ok r \<longleftrightarrow> (\<exists>x. r = Inr x)"
  by (cases r) auto

section \<open>List searches of the standard library\<close>

text \<open>\<open>Iterator::position\<close> and \<open>Iterator::rposition\<close>.\<close>

fun position :: "('a \<Rightarrow> bool) \<Rightarrow> 'a list \<Rightarrow> nat option" where
  "position p [] = None"
| "position p (x # xs) = (if p x then Some 0 else map_option Suc (position p xs))"

fun rposition :: "('a \<Rightarrow> bool) \<Rightarrow> 'a list \<Rightarrow> nat option" where
  "rposition p [] = None"
| "rposition p (x # xs) =
     (case rposition p xs of Some i \<Rightarrow> Some (Suc i) | None \<Rightarrow> if p x then Some 0 else None)"

text \<open>\<open>Iterator::min_by_key\<close>: the first element with the least key.\<close>

fun min_by_key :: "('a \<Rightarrow> 'b::linorder) \<Rightarrow> 'a list \<Rightarrow> 'a option" where
  "min_by_key f [] = None"
| "min_by_key f (x # xs) =
     (case min_by_key f xs of None \<Rightarrow> Some x | Some y \<Rightarrow> if f x \<le> f y then Some x else Some y)"

text \<open>\<open>Vec::get\<close> and \<open>Vec::remove\<close>.\<close>

definition vec_get :: "'a list \<Rightarrow> nat \<Rightarrow> 'a option" where
  "vec_get xs i = (if i < length xs then Some (xs ! i) else None)"

definition vec_remove :: "nat \<Rightarrow> 'a list \<Rightarrow> 'a list" where
  "vec_remove i xs = take i xs @ drop (Suc i) xs"

definition vec_insert :: "nat \<Rightarrow> 'a \<Rightarrow> 'a list \<Rightarrow> 'a list" where
  "vec_insert i x xs = take i xs @ x # drop i xs"

lemma position_Some:
  "position p xs = Some i \<Longrightarrow> i < length xs \<and> p (xs ! i) \<and> (\<forall>j < i. \<not> p (xs ! j))"
proof (induction xs arbitrary: i)
  case (Cons x xs)
  then show ?case by (auto simp: less_Suc_eq_0_disj split: if_splits)
qed simp

lemma position_None: "position p xs = None \<longleftrightarrow> (\<forall>x \<in> set xs. \<not> p x)"
  by (induction xs) auto

lemma rposition_None: "rposition p xs = None \<longleftrightarrow> (\<forall>x \<in> set xs. \<not> p x)"
  by (induction xs) (auto split: option.splits)

lemma rposition_Some:
  "rposition p xs = Some i \<Longrightarrow>
    i < length xs \<and> p (xs ! i) \<and> (\<forall>j < length xs. i < j \<longrightarrow> \<not> p (xs ! j))"
proof (induction xs arbitrary: i)
  case (Cons x xs)
  show ?case
  proof (cases "rposition p xs")
    case None
    with Cons.prems have "i = 0" "p x" by (auto split: if_splits)
    moreover from None have "\<forall>y \<in> set xs. \<not> p y" by (simp add: rposition_None)
    ultimately show ?thesis by (auto simp: less_Suc_eq_0_disj)
  next
    case (Some k)
    with Cons.prems have "i = Suc k" by simp
    with Cons.IH [OF Some] show ?thesis by (auto simp: nth_Cons')
  qed
qed simp

lemma min_by_key_None [simp]: "min_by_key f xs = None \<longleftrightarrow> xs = []"
  by (cases xs) (auto split: option.splits)

lemma min_by_key_Some:
  "min_by_key f xs = Some m \<Longrightarrow> m \<in> set xs \<and> (\<forall>x \<in> set xs. f m \<le> f x)"
proof (induction xs arbitrary: m)
  case (Cons x xs)
  then show ?case by (fastforce split: option.splits if_splits)
qed simp

lemma vec_get_Some [result_simps]: "vec_get xs i = Some x \<longleftrightarrow> i < length xs \<and> x = xs ! i"
  by (auto simp: vec_get_def)

lemma vec_get_None: "vec_get xs i = None \<longleftrightarrow> length xs \<le> i"
  by (auto simp: vec_get_def)

lemma set_vec_insert [simp]: "set (vec_insert i x xs) = insert x (set xs)"
  by (metis append_take_drop_id list.simps(15) set_append Un_insert_right vec_insert_def)

lemma length_vec_insert [simp]: "length (vec_insert i x xs) = Suc (length xs)"
  by (simp add: vec_insert_def)

lemma set_vec_remove_subset: "set (vec_remove i xs) \<subseteq> set xs"
  by (auto simp: vec_remove_def dest: in_set_takeD in_set_dropD)

lemma find_Some_in: "List.find p xs = Some x \<Longrightarrow> x \<in> set xs \<and> p x"
  by (auto simp: find_Some_iff)

lemma card_set_eq_length: "card (set xs) = length xs \<longleftrightarrow> distinct xs"
  using card_distinct distinct_card by blast

lemma filter_same_length: "length (filter p xs) = length xs \<longleftrightarrow> (\<forall>x \<in> set xs. p x)"
  by (metis filter_id_conv length_filter_less less_irrefl)

end
