(* ===== verification/Collections.thy ===== *)
theory Collections
  imports Prelude
begin

text \<open>
  The keyed containers of the contract. \<open>std::collections::BTreeMap\<close> is an association
  list sorted by its keys; \<open>near_sdk::store::IterableMap\<close>, whose documented behaviour is
  that of a map with an iterator over its entries, is an association list with distinct
  keys, updated by \<open>AList.update\<close> and \<open>AList.delete\<close>; nothing in the development
  depends on its iteration order. \<open>near_sdk::store::LookupMap\<close>, which cannot be iterated,
  is a HOL map.

  The locale \<open>keyed_store\<close> is what the voting structures rely on: what an insertion does
  to the lookup, and that every key has one entry. The counting lemmas of a ballot are
  proved once, inside it.
\<close>

section \<open>BTreeMap\<close>

type_synonym ('k, 'v) btree_map = "('k \<times> 'v) list"

fun bt_insert :: "'k::linorder \<Rightarrow> 'v \<Rightarrow> ('k, 'v) btree_map \<Rightarrow> ('k, 'v) btree_map" where
  "bt_insert k v [] = [(k, v)]"
| "bt_insert k v (e # m) =
     (if k = fst e then (k, v) # m
      else if fst e < k then e # bt_insert k v m
      else (k, v) # e # m)"

definition bt_remove :: "'k \<Rightarrow> ('k, 'v) btree_map \<Rightarrow> ('k, 'v) btree_map" where
  "bt_remove k m = filter (\<lambda>e. fst e \<noteq> k) m"

definition bt_get :: "('k, 'v) btree_map \<Rightarrow> 'k \<Rightarrow> 'v option" where
  "bt_get m = map_of m"

definition bt_invar :: "('k::linorder, 'v) btree_map \<Rightarrow> bool" where
  "bt_invar m = sorted_wrt (<) (map fst m)"

lemma bt_get_insert [simp]: "bt_get (bt_insert k v m) = (bt_get m)(k \<mapsto> v)"
  by (induction m) (auto simp: bt_get_def fun_eq_iff)

lemma bt_get_remove [simp]: "bt_get (bt_remove k m) = (bt_get m)(k := None)"
  by (induction m) (auto simp: bt_get_def bt_remove_def fun_eq_iff)

lemma bt_get_Nil [simp]: "bt_get [] = Map.empty"
  by (simp add: bt_get_def)

lemma bt_get_filter_keys: "bt_get (filter (\<lambda>e. p (fst e)) m) k = (if p k then bt_get m k else None)"
  by (induction m) (auto simp: bt_get_def)

lemma fst_set_bt_insert: "fst ` set (bt_insert k v m) = insert k (fst ` set m)"
  by (induction m) (auto simp: image_iff)

lemma bt_invar_Nil [simp]: "bt_invar []"
  by (simp add: bt_invar_def)

lemma bt_invar_Cons: "bt_invar (e # m) \<longleftrightarrow> (\<forall>k \<in> fst ` set m. fst e < k) \<and> bt_invar m"
  by (auto simp: bt_invar_def)

lemma bt_invar_insert [simp]: "bt_invar m \<Longrightarrow> bt_invar (bt_insert k v m)"
proof (induction m)
  case Nil
  then show ?case by (simp add: bt_invar_def)
next
  case (Cons e m)
  then show ?case
    by (auto simp: bt_invar_Cons fst_set_bt_insert not_less_iff_gr_or_eq
        dest: less_trans split: if_splits)
qed

lemma bt_invar_filter [simp]: "bt_invar m \<Longrightarrow> bt_invar (filter p m)"
  by (induction m) (auto simp: bt_invar_Cons)

lemma bt_invar_remove [simp]: "bt_invar m \<Longrightarrow> bt_invar (bt_remove k m)"
  by (simp add: bt_remove_def)

lemma bt_invar_distinct: "bt_invar m \<Longrightarrow> distinct (map fst m)"
  by (simp add: bt_invar_def strict_sorted_iff)

lemma bt_get_Some_iff: "bt_invar m \<Longrightarrow> bt_get m k = Some v \<longleftrightarrow> (k, v) \<in> set m"
  by (simp add: bt_get_def bt_invar_distinct)

lemma dom_bt_get: "dom (bt_get m) = fst ` set m"
  by (simp add: bt_get_def dom_map_of_conv_image_fst)

section \<open>IterableMap\<close>

type_synonym ('k, 'v) iterable_map = "('k \<times> 'v) list"

definition im_insert :: "'k \<Rightarrow> 'v \<Rightarrow> ('k, 'v) iterable_map \<Rightarrow> ('k, 'v) iterable_map" where
  "im_insert k v m = AList.update k v m"

definition im_remove :: "'k \<Rightarrow> ('k, 'v) iterable_map \<Rightarrow> ('k, 'v) iterable_map" where
  "im_remove k m = AList.delete k m"

definition im_get :: "('k, 'v) iterable_map \<Rightarrow> 'k \<Rightarrow> 'v option" where
  "im_get m = map_of m"

definition im_keys :: "('k, 'v) iterable_map \<Rightarrow> 'k list" where
  "im_keys m = map fst m"

definition im_invar :: "('k, 'v) iterable_map \<Rightarrow> bool" where
  "im_invar m = distinct (map fst m)"

lemma im_get_insert [simp]: "im_get (im_insert k v m) = (im_get m)(k \<mapsto> v)"
  by (simp add: im_get_def im_insert_def update_conv')

lemma im_get_remove [simp]: "im_get (im_remove k m) = (im_get m)(k := None)"
  by (simp add: im_get_def im_remove_def delete_conv')

lemma im_get_Nil [simp]: "im_get [] = Map.empty"
  by (simp add: im_get_def)

lemma im_invar_Nil [simp]: "im_invar []"
  by (simp add: im_invar_def)

lemma im_invar_insert [simp]: "im_invar m \<Longrightarrow> im_invar (im_insert k v m)"
  by (simp add: im_invar_def im_insert_def distinct_update)

lemma im_invar_remove [simp]: "im_invar m \<Longrightarrow> im_invar (im_remove k m)"
  by (simp add: im_invar_def im_remove_def distinct_delete)

lemma dom_im_get: "dom (im_get m) = set (im_keys m)"
  by (simp add: im_get_def im_keys_def dom_map_of_conv_image_fst)

section \<open>What a ballot relies on\<close>

text \<open>
  Votes are kept in a map from voters to the proposal each of them supports. The
  operations are generic in the map's representation: \<open>store k v m\<close> records a vote
  and \<open>entries m\<close> lists the recorded ones.
\<close>

locale keyed_store =
  fixes store :: "'k \<Rightarrow> 'v \<Rightarrow> 'm \<Rightarrow> 'm"
    and entries :: "'m \<Rightarrow> ('k \<times> 'v) list"
    and invar :: "'m \<Rightarrow> bool"
  assumes store_lookup: "invar m \<Longrightarrow> map_of (entries (store k v m)) = (map_of (entries m))(k \<mapsto> v)"
    and store_invar: "invar m \<Longrightarrow> invar (store k v m)"
    and one_entry: "invar m \<Longrightarrow> distinct (map fst (entries m))"
begin

definition supporters :: "'v \<Rightarrow> 'm \<Rightarrow> 'k set" where
  "supporters p m = {k. map_of (entries m) k = Some p}"

definition tally :: "'v \<Rightarrow> 'm \<Rightarrow> nat" where
  "tally p m = length (filter (\<lambda>e. snd e = p) (entries m))"

lemma finite_supporters: "finite (supporters p m)"
  by (rule finite_subset [of _ "dom (map_of (entries m))"])
    (auto simp: supporters_def finite_dom_map_of)

lemma tally_card:
  assumes "invar m"
  shows "tally p m = card (supporters p m)"
proof -
  let ?es = "filter (\<lambda>e. snd e = p) (entries m)"
  have dist: "distinct (map fst (entries m))"
    using assms by (rule one_entry)
  then have "distinct (map fst ?es)"
    by (rule distinct_map_filter)
  then have "card (set (map fst ?es)) = length ?es"
    by (metis distinct_card length_map)
  moreover have "set (map fst ?es) = supporters p m"
    using dist by (force simp: supporters_def)
  ultimately show ?thesis
    by (simp add: tally_def)
qed

lemma supporters_store:
  assumes "invar m"
  shows "supporters p (store k v m) =
    (if p = v then insert k (supporters p m) else supporters p m - {k})"
  using assms by (auto simp: supporters_def store_lookup)

lemma tally_own_vote: "invar m \<Longrightarrow> 0 < tally v (store k v m)"
  by (simp add: tally_card store_invar supporters_store finite_supporters card_gt_0_iff)

lemma tally_repeated_vote:
  assumes "invar m"
  shows "tally p (store k v (store k v m)) = tally p (store k v m)"
  using assms by (simp add: tally_card store_invar supporters_store)

lemma tally_new_voter:
  assumes "invar m" "k \<notin> supporters v m"
  shows "tally v (store k v m) = Suc (tally v m)"
  using assms by (simp add: tally_card store_invar supporters_store finite_supporters)

lemma tally_bounded:
  assumes "invar m" "supporters p m \<subseteq> A" "finite A"
  shows "tally p m \<le> card A"
  using assms by (simp add: tally_card card_mono)

lemma tally_all:
  assumes "invar m" "supporters p m \<subseteq> A" "finite A" "tally p m = card A"
  shows "supporters p m = A"
  using assms by (simp add: tally_card card_subset_eq)

end

interpretation bt: keyed_store bt_insert "\<lambda>m. m" bt_invar
proof
  fix m :: "('a::linorder, 'b) btree_map" and k v
  assume m: "bt_invar m"
  show "map_of (bt_insert k v m) = (map_of m)(k \<mapsto> v)"
    using bt_get_insert [of k v m] by (simp add: bt_get_def)
  show "bt_invar (bt_insert k v m)"
    using m by simp
  show "distinct (map fst m)"
    using m by (rule bt_invar_distinct)
qed

interpretation im: keyed_store im_insert "\<lambda>m. m" im_invar
proof
  fix m :: "('a, 'b) iterable_map" and k v
  assume m: "im_invar m"
  show "map_of (im_insert k v m) = (map_of m)(k \<mapsto> v)"
    using im_get_insert [of k v m] by (simp add: im_get_def)
  show "im_invar (im_insert k v m)"
    using m by simp
  show "distinct (map fst m)"
    using m by (simp add: im_invar_def)
qed

lemma bt_supporters: "bt.supporters p m = {k. bt_get m k = Some p}"
  by (simp add: bt.supporters_def bt_get_def)

lemma im_supporters: "im.supporters p m = {k. im_get m k = Some p}"
  by (simp add: im.supporters_def im_get_def)

end
