(* ===== verification/Errors.thy ===== *)
theory Errors
  imports Collections
begin

text \<open>
  The vocabulary shared by every part of the contract: identifiers, the public keys of
  \<open>near_sdk\<close>, the error kinds of \<open>crates/contract/src/errors.rs\<close>, and the execution
  environment a contract call sees through \<open>near_sdk::env\<close>.

  An \<open>Error\<close> of the source is a kind with an optional message; the model keeps the kind.
  A call that returns \<open>Err\<close> (all methods are \<open>handle_result\<close>) or panics aborts the
  transaction and no state is written. An operation of the model therefore returns either
  an error, with no new state, or its result together with the new state. \<open>Panicked\<close> is
  the outcome of \<open>expect\<close>, \<open>unwrap\<close>, a failed conversion or index and of an uninitialised
  protocol; \<open>PanicMsg\<close> is a refusal the code spells out with \<open>env::panic_str\<close> or \<open>assert_eq\<close> and a
  text of its own; a panic with the text of an error is that error.
\<close>

section \<open>Identifiers\<close>

type_synonym account_id = string
type_synonym participant_id = u32
type_synonym domain_id = u64
type_synonym epoch_id = u64
type_synonym attempt_id = u64

datatype signature_scheme = Secp256k1 | Ed25519 | Bls12381 | V2Secp256k1

datatype domain_purpose = Sign | ForeignTx | CKD

datatype foreign_chain =
    Solana | Bitcoin | Ethereum | Base | Bnb | Arbitrum | Abstract | Starknet

section \<open>Public keys of near\_sdk\<close>

text \<open>
  A \<open>near_sdk::PublicKey\<close> is its byte string: one byte for the curve (0 for ed25519,
  1 for secp256k1) followed by the key. The derived order is the order of the bytes.
\<close>

datatype near_public_key = NearPublicKey (key_data: bytes)

instantiation near_public_key :: linorder
begin

definition less_eq_near_public_key :: "near_public_key \<Rightarrow> near_public_key \<Rightarrow> bool" where
  "less_eq_near_public_key a b = (key_data a \<le> key_data b)"

definition less_near_public_key :: "near_public_key \<Rightarrow> near_public_key \<Rightarrow> bool" where
  "less_near_public_key a b = (key_data a < key_data b)"

instance
  by standard
    (auto simp: less_eq_near_public_key_def less_near_public_key_def near_public_key.expand)

end

datatype curve_type = ED25519 | SECP256K1

definition curve_of :: "near_public_key \<Rightarrow> curve_type" where
  "curve_of pk = (case key_data pk of [] \<Rightarrow> ED25519
    | b # _ \<Rightarrow> if b = 1 then SECP256K1 else ED25519)"

section \<open>Error kinds\<close>

datatype node_migration_error = MigrationNotFound | AccountPublicKeyMismatch | KeysetMismatch

datatype tee_error = TeeValidationFailed

datatype request_error = Timeout

datatype sign_error = PayloadCollision | UnsupportedKeyVersion

datatype respond_error =
    InvalidSignature | SignatureSchemeMismatch | DomainNotFound | TweakNotOnCurve

datatype public_key_error = DerivedKeyConversionFailed | DomainNotFound | TweakNotOnCurve

datatype key_event_error = KeyEventIdMismatch | ActiveKeyEvent | NoActiveKeyEvent

datatype vote_error =
    VoterNotParticipant
  | VoterNotParticipantNorProposedParticipant
  | ParticipantVoteAlreadyRegistered
  | VoterNotLeader
  | InconsistentVotingState
  | VoterAlreadyAborted
  | VoteAlreadySubmitted
  | VoterPending

datatype invalid_parameters =
    MalformedPayload
  | InsufficientDeposit
  | InsufficientGas
  | RequestNotFound
  | UpdateNotFound
  | ParticipantAlreadyInSet
  | ParticipantAlreadyUsed
  | DomainNotFound (not_found_domain: domain_id)
  | EpochMismatch (provided_epoch: epoch_id) (expected_epoch: epoch_id)
  | NextDomainIdMismatch
  | InvalidDomainId
  | WrongDomainPurpose domain_id (expected_purpose: domain_purpose) (actual_purpose: domain_purpose)
  | InvalidTeeRemoteAttestation
  | InvalidAppPublicKey
  | InvalidTlsPublicKey
  | CallerNotSigner
  | ChainNotInPolicy foreign_chain

datatype invalid_state =
    ProtocolStateNotRunning
  | ProtocolStateNotResharing
  | ProtocolStateNotInitializing
  | ProtocolStateNotRunningNorResharing
  | UnexpectedProtocolState
  | ContractStateIsMissing
  | ParticipantIndexOutOfRange
  | NotParticipant

datatype invalid_threshold =
    MinAbsRequirementFailed | MinRelRequirementFailed | MaxRequirementFailed | DKGThresholdFailed

datatype invalid_candidate_set =
    InsufficientOldParticipants
  | IncoherentParticipantIds
  | NewParticipantIdsNotContiguous
  | NewParticipantIdsTooHigh
  | InvalidParticipantsTeeQuote

datatype conversion_error = DataConversion

datatype domain_error =
    NoSuchDomain
  | NewDomainIdsNotContiguous (expected_domain_id: domain_id)
  | AddDomainsMustAddAtLeastOneDomain
  | InvalidDomains
  | DomainsMismatch
  | InvalidSchemePurposeCombination signature_scheme domain_purpose

datatype error =
    SignErr sign_error
  | RespondErr respond_error
  | PublicKeyErr public_key_error
  | VoteErr vote_error
  | ParamsErr invalid_parameters
  | StateErr invalid_state
  | ConversionErr conversion_error
  | ThresholdErr invalid_threshold
  | CandidateErr invalid_candidate_set
  | KeyEventErr key_event_error
  | DomainErr domain_error
  | TeeErr tee_error
  | MigrationErr node_migration_error
  | PanicMsg string
  | Panicked

type_synonym 'a result = "error + 'a"

section \<open>The environment of a call\<close>

text \<open>
  What \<open>near_sdk::env\<close> reports during one call. Token amounts are in yoctoNEAR
  (\<open>u128\<close>), gas in gas units (\<open>u64\<close>), \<open>block_timestamp\<close> in nanoseconds.
  \<open>yield_data_id\<close> is the identifier the host writes to the register when
  \<open>promise_yield_create\<close> is called; the two storage fields are \<open>env::storage_usage()\<close>
  before and after the contract's own writes.
\<close>

record env =
  signer_account_id :: account_id
  predecessor_account_id :: account_id
  signer_account_pk :: near_public_key
  current_account_id :: account_id
  block_height :: u64
  block_timestamp :: u64
  prepaid_gas :: u64
  attached_deposit :: u128
  storage_byte_cost :: u128
  storage_usage_before :: u64
  storage_usage_after :: u64
  yield_data_id :: bytes

text \<open>\<open>Gas::from_tgas\<close>: a teragas is \<open>10^12\<close> gas.\<close>

definition gas_from_tgas :: "u64 \<Rightarrow> u64" where
  "gas_from_tgas t = t * 1000000000000"

text \<open>\<open>NearToken::saturating_mul\<close> and \<open>NearToken::checked_sub\<close>.\<close>

definition token_saturating_mul :: "u128 \<Rightarrow> u128 \<Rightarrow> u128" where
  "token_saturating_mul a b = (if unat a * unat b < 2 ^ 128 then a * b else - 1)"

definition token_checked_sub :: "u128 \<Rightarrow> u128 \<Rightarrow> u128 option" where
  "token_checked_sub a b = (if b \<le> a then Some (a - b) else None)"

lemma unat_token_saturating_mul:
  "unat (token_saturating_mul a b) = min (unat a * unat b) (2 ^ 128 - 1)"
proof (cases "unat a * unat b < 2 ^ 128")
  case True
  then show ?thesis by (simp add: token_saturating_mul_def unat_word_ariths)
next
  case False
  then show ?thesis by (simp add: token_saturating_mul_def unsigned_minus_1_eq_mask mask_eq_exp_minus_1)
qed

lemma token_checked_sub_Some:
  "token_checked_sub a b = Some d \<longleftrightarrow> unat b \<le> unat a \<and> d = a - b"
  by (auto simp: token_checked_sub_def word_le_nat_alt)

end
