(* ===== verification/Crypto_Keys.thy ===== *)
theory Crypto_Keys
  imports Errors
begin

text \<open>
  Public keys and their conversions: \<open>crates/crypto-types/src/crypto.rs\<close> (the interface's
  \<open>PublicKey\<close> with its string form), \<open>crates/crypto-types/src/conversions/near.rs\<close>
  (conversion from and to \<open>near_sdk::PublicKey\<close>) and
  \<open>crates/contract/src/crypto_shared/types.rs\<close> (\<open>PublicKeyExtended\<close>, which the contract
  stores).

  The base58 codec (\<open>bs58\<close>) and the decompression of an Edwards point
  (\<open>curve25519_dalek\<close>) are parameters. Fixed size arrays are byte lists, with the
  size in \<open>public_key_wf\<close>; a \<open>copy_from_slice\<close> of the wrong length and a failed
  \<open>expect\<close> are the outcome \<open>Panic\<close>.
\<close>

datatype 'e failure = Failed 'e | Panic

datatype parse_public_key_error =
    MissingSeparator | WrongPrefix | InvalidKeyLength | InvalidBs58Encoding

datatype crypto_conversion_error =
    InvalidPublicKey | InvalidPoint | InvalidScalar | InvalidSignatureBytes | UnsupportedCurve

datatype public_key_extended_conversion_error =
    PublicKeyLengthMalformed | FailedDecompressingToEdwardsPoint

definition ED25519_PUBLIC_KEY_SIZE :: nat where "ED25519_PUBLIC_KEY_SIZE = 32"
definition SECP256K1_PUBLIC_KEY_SIZE :: nat where "SECP256K1_PUBLIC_KEY_SIZE = 64"
definition BLS12381G1_PUBLIC_KEY_SIZE :: nat where "BLS12381G1_PUBLIC_KEY_SIZE = 48"
definition BLS12381G2_PUBLIC_KEY_SIZE :: nat where "BLS12381G2_PUBLIC_KEY_SIZE = 96"

lemmas key_size_defs = ED25519_PUBLIC_KEY_SIZE_def SECP256K1_PUBLIC_KEY_SIZE_def
  BLS12381G1_PUBLIC_KEY_SIZE_def BLS12381G2_PUBLIC_KEY_SIZE_def

datatype public_key = DtoSecp256k1 bytes | DtoEd25519 bytes | DtoBls12381 bytes

section \<open>String form\<close>

definition secp256k1_to_string :: "(bytes \<Rightarrow> string) \<Rightarrow> bytes \<Rightarrow> string" where
  "secp256k1_to_string bs58_encode k = ''secp256k1:'' @ bs58_encode k"

definition ed25519_to_string :: "(bytes \<Rightarrow> string) \<Rightarrow> bytes \<Rightarrow> string" where
  "ed25519_to_string bs58_encode k = ''ed25519:'' @ bs58_encode k"

definition bls12381g1_to_string :: "(bytes \<Rightarrow> string) \<Rightarrow> bytes \<Rightarrow> string" where
  "bls12381g1_to_string bs58_encode k = ''bls12381g1:'' @ bs58_encode k"

definition bls12381g2_to_string :: "(bytes \<Rightarrow> string) \<Rightarrow> bytes \<Rightarrow> string" where
  "bls12381g2_to_string bs58_encode k = ''bls12381g2:'' @ bs58_encode k"

definition public_key_to_string :: "(bytes \<Rightarrow> string) \<Rightarrow> public_key \<Rightarrow> string" where
  "public_key_to_string bs58_encode k =
     (case k of
        DtoSecp256k1 inner \<Rightarrow> secp256k1_to_string bs58_encode inner
      | DtoEd25519 inner \<Rightarrow> ed25519_to_string bs58_encode inner
      | DtoBls12381 inner \<Rightarrow> bls12381g2_to_string bs58_encode inner)"

text \<open>\<open>str::split_once\<close>.\<close>

definition split_once :: "char \<Rightarrow> string \<Rightarrow> (string \<times> string) option" where
  "split_once c s =
     map_option (\<lambda>i. (take i s, drop (Suc i) s)) (position (\<lambda>d. d = c) s)"

text \<open>The body the four \<open>FromStr\<close> implementations of the single curves share.\<close>

definition key_from_str ::
  "(string \<Rightarrow> bytes option) \<Rightarrow> string \<Rightarrow> nat \<Rightarrow> string \<Rightarrow> parse_public_key_error + bytes" where
  "key_from_str bs58_decode expected_prefix n value =
     (case split_once (CHR '':'') value of
        None \<Rightarrow> Inl MissingSeparator
      | Some (prefix, encoded) \<Rightarrow>
          if prefix \<noteq> expected_prefix then Inl WrongPrefix
          else case bs58_decode encoded of
            None \<Rightarrow> Inl InvalidBs58Encoding
          | Some data \<Rightarrow> if length data = n then Inr data else Inl InvalidKeyLength)"

definition secp256k1_from_str where
  "secp256k1_from_str bs58_decode = key_from_str bs58_decode ''secp256k1'' SECP256K1_PUBLIC_KEY_SIZE"

definition ed25519_from_str where
  "ed25519_from_str bs58_decode = key_from_str bs58_decode ''ed25519'' ED25519_PUBLIC_KEY_SIZE"

definition bls12381g1_from_str where
  "bls12381g1_from_str bs58_decode =
     key_from_str bs58_decode ''bls12381g1'' BLS12381G1_PUBLIC_KEY_SIZE"

definition bls12381g2_from_str where
  "bls12381g2_from_str bs58_decode =
     key_from_str bs58_decode ''bls12381g2'' BLS12381G2_PUBLIC_KEY_SIZE"

definition public_key_from_str ::
  "(string \<Rightarrow> bytes option) \<Rightarrow> string \<Rightarrow> parse_public_key_error + public_key" where
  "public_key_from_str bs58_decode value =
     (case position (\<lambda>d. d = CHR '':'') value of
        Some idx \<Rightarrow>
          let prefix = take idx value in
          if prefix = ''ed25519''
          then and_then (ed25519_from_str bs58_decode value) (\<lambda>k. Inr (DtoEd25519 k))
          else if prefix = ''secp256k1''
          then and_then (secp256k1_from_str bs58_decode value) (\<lambda>k. Inr (DtoSecp256k1 k))
          else if prefix = ''bls12381g2''
          then and_then (bls12381g2_from_str bs58_decode value) (\<lambda>k. Inr (DtoBls12381 k))
          else Inl WrongPrefix
      | None \<Rightarrow> Inl MissingSeparator)"

section \<open>Conversions from and to near\_sdk keys\<close>

text \<open>
  \<open>near_sdk::PublicKey::from_parts\<close> fails when the data does not have the length of the
  curve; \<open>curve_type\<close> reads the curve back and \<open>as_bytes\<close> is the whole byte string.
\<close>

definition curve_data_len :: "curve_type \<Rightarrow> nat" where
  "curve_data_len c = (case c of ED25519 \<Rightarrow> 32 | SECP256K1 \<Rightarrow> 64)"

definition curve_tag :: "curve_type \<Rightarrow> u8" where
  "curve_tag c = (case c of ED25519 \<Rightarrow> 0 | SECP256K1 \<Rightarrow> 1)"

definition near_from_parts :: "curve_type \<Rightarrow> bytes \<Rightarrow> near_public_key option" where
  "near_from_parts c data =
     (if length data = curve_data_len c then Some (NearPublicKey (curve_tag c # data)) else None)"

text \<open>\<open>[u8; n]::copy_from_slice\<close> panics when the lengths differ.\<close>

definition copy_from_slice :: "nat \<Rightarrow> bytes \<Rightarrow> 'e failure + bytes" where
  "copy_from_slice n bs = (if length bs = n then Inr bs else Inl Panic)"

definition expect :: "'a option \<Rightarrow> 'e failure + 'a" where
  "expect x = ok_or x Panic"

definition public_key_from_near :: "near_public_key \<Rightarrow> unit failure + public_key" where
  "public_key_from_near pk =
     (case curve_of pk of
        SECP256K1 \<Rightarrow> and_then (copy_from_slice 64 (tl (key_data pk))) (\<lambda>b. Inr (DtoSecp256k1 b))
      | ED25519 \<Rightarrow> and_then (copy_from_slice 32 (tl (key_data pk))) (\<lambda>b. Inr (DtoEd25519 b)))"

definition near_from_ed25519 :: "bytes \<Rightarrow> 'e failure + near_public_key" where
  "near_from_ed25519 k = expect (near_from_parts ED25519 k)"

definition near_from_secp256k1 :: "bytes \<Rightarrow> 'e failure + near_public_key" where
  "near_from_secp256k1 k = expect (near_from_parts SECP256K1 k)"

definition near_try_from_public_key ::
  "public_key \<Rightarrow> crypto_conversion_error failure + near_public_key" where
  "near_try_from_public_key k =
     (case k of
        DtoSecp256k1 inner \<Rightarrow> near_from_secp256k1 inner
      | DtoEd25519 inner \<Rightarrow> near_from_ed25519 inner
      | DtoBls12381 _ \<Rightarrow> Inl (Failed UnsupportedCurve))"

definition ed25519_try_from_near ::
  "near_public_key \<Rightarrow> crypto_conversion_error failure + bytes" where
  "ed25519_try_from_near pk =
     (case curve_of pk of
        ED25519 \<Rightarrow> copy_from_slice 32 (tl (key_data pk))
      | SECP256K1 \<Rightarrow> Inl (Failed UnsupportedCurve))"

definition secp256k1_try_from_near ::
  "near_public_key \<Rightarrow> crypto_conversion_error failure + bytes" where
  "secp256k1_try_from_near pk =
     (case curve_of pk of
        SECP256K1 \<Rightarrow> copy_from_slice 64 (tl (key_data pk))
      | ED25519 \<Rightarrow> Inl (Failed UnsupportedCurve))"

section \<open>PublicKeyExtended\<close>

datatype 'pt public_key_extended =
    PkSecp256k1 near_public_key
  | PkEd25519 near_public_key 'pt
  | PkBls12381 public_key

definition near_try_from_extended :: "'pt public_key_extended \<Rightarrow> near_public_key result" where
  "near_try_from_extended pke =
     (case pke of
        PkSecp256k1 near_public_key \<Rightarrow> Inr near_public_key
      | PkEd25519 near_public_key_compressed _ \<Rightarrow> Inr near_public_key_compressed
      | PkBls12381 _ \<Rightarrow> Inl (ConversionErr DataConversion))"

definition public_key_from_extended :: "'pt public_key_extended \<Rightarrow> unit failure + public_key" where
  "public_key_from_extended pke =
     (case pke of
        PkSecp256k1 near_public_key \<Rightarrow> public_key_from_near near_public_key
      | PkEd25519 near_public_key_compressed _ \<Rightarrow> public_key_from_near near_public_key_compressed
      | PkBls12381 public_key \<Rightarrow> Inr public_key)"

text \<open>The Ed25519 branch of both conversions into \<open>PublicKeyExtended\<close>.\<close>

definition extended_from_ed25519 ::
  "(bytes \<Rightarrow> 'pt option) \<Rightarrow> near_public_key
    \<Rightarrow> public_key_extended_conversion_error failure + 'pt public_key_extended" where
  "extended_from_ed25519 decompress near_public_key =
     and_then (ensure (length (tl (key_data near_public_key)) = 32 \<and> key_data near_public_key \<noteq> [])
         (Failed PublicKeyLengthMalformed)) (\<lambda>_.
     and_then (ok_or (decompress (tl (key_data near_public_key)))
         (Failed FailedDecompressingToEdwardsPoint)) (\<lambda>edwards_point.
     Inr (PkEd25519 near_public_key edwards_point)))"

definition extended_try_from_near ::
  "(bytes \<Rightarrow> 'pt option) \<Rightarrow> near_public_key
    \<Rightarrow> public_key_extended_conversion_error failure + 'pt public_key_extended" where
  "extended_try_from_near decompress near_public_key =
     (case curve_of near_public_key of
        ED25519 \<Rightarrow> extended_from_ed25519 decompress near_public_key
      | SECP256K1 \<Rightarrow> Inr (PkSecp256k1 near_public_key))"

definition extended_try_from_public_key ::
  "(bytes \<Rightarrow> 'pt option) \<Rightarrow> public_key
    \<Rightarrow> public_key_extended_conversion_error failure + 'pt public_key_extended" where
  "extended_try_from_public_key decompress k =
     (case k of
        DtoEd25519 inner \<Rightarrow>
          and_then (near_from_ed25519 inner) (extended_from_ed25519 decompress)
      | DtoSecp256k1 inner \<Rightarrow> and_then (near_from_secp256k1 inner) (\<lambda>n. Inr (PkSecp256k1 n))
      | DtoBls12381 inner \<Rightarrow> Inr (PkBls12381 (DtoBls12381 inner)))"

section \<open>Well-formed keys\<close>

definition public_key_wf :: "public_key \<Rightarrow> bool" where
  "public_key_wf k =
     (case k of
        DtoSecp256k1 b \<Rightarrow> length b = SECP256K1_PUBLIC_KEY_SIZE
      | DtoEd25519 b \<Rightarrow> length b = ED25519_PUBLIC_KEY_SIZE
      | DtoBls12381 b \<Rightarrow> length b = BLS12381G2_PUBLIC_KEY_SIZE)"

definition near_key_wf :: "near_public_key \<Rightarrow> bool" where
  "near_key_wf pk \<longleftrightarrow> (\<exists>c data. near_from_parts c data = Some pk)"

text \<open>The invariant of \<open>PublicKeyExtended\<close>: the point is the decompressed key.\<close>

definition extended_wf :: "(bytes \<Rightarrow> 'pt option) \<Rightarrow> 'pt public_key_extended \<Rightarrow> bool" where
  "extended_wf decompress pke =
     (case pke of
        PkSecp256k1 pk \<Rightarrow> near_key_wf pk \<and> curve_of pk = SECP256K1
      | PkEd25519 pk pt \<Rightarrow> near_key_wf pk \<and> curve_of pk = ED25519 \<and>
          decompress (tl (key_data pk)) = Some pt
      | PkBls12381 k \<Rightarrow> (\<exists>b. k = DtoBls12381 b) \<and> public_key_wf k)"

lemma curve_of_from_parts: "near_from_parts c data = Some pk \<Longrightarrow>
    curve_of pk = c \<and> tl (key_data pk) = data \<and> key_data pk \<noteq> [] \<and> length data = curve_data_len c"
  by (cases c) (auto simp: near_from_parts_def curve_of_def curve_tag_def split: if_splits)

lemma near_key_wf_cases:
  assumes "near_key_wf pk"
  obtains (ed) data where "pk = NearPublicKey (0 # data)" "length data = 32" "curve_of pk = ED25519"
  | (secp) data where "pk = NearPublicKey (1 # data)" "length data = 64" "curve_of pk = SECP256K1"
proof -
  from assms obtain c data where "near_from_parts c data = Some pk"
    by (auto simp: near_key_wf_def)
  then show thesis
    using that by (cases c)
      (auto simp: near_from_parts_def curve_tag_def curve_data_len_def curve_of_def split: if_splits)
qed

lemma near_key_wf_parts: "near_from_parts c data = Some pk \<Longrightarrow> near_key_wf pk"
  by (auto simp: near_key_wf_def)

lemma split_once_prefix:
  "c \<notin> set p \<Longrightarrow> split_once c (p @ c # s) = Some (p, s)"
proof -
  assume "c \<notin> set p"
  then have "position (\<lambda>d. d = c) (p @ c # s) = Some (length p)"
    by (induction p) auto
  then show ?thesis by (simp add: split_once_def)
qed

lemma position_prefix: "c \<notin> set p \<Longrightarrow> position (\<lambda>d. d = c) (p @ c # s) = Some (length p)"
  by (induction p) auto

lemma key_from_str_print:
  "CHR '':'' \<notin> set p \<Longrightarrow> dec (enc k) = Some k \<Longrightarrow> length k = n \<Longrightarrow>
     key_from_str dec p n (p @ CHR '':'' # enc k) = Inr k"
  by (simp add: key_from_str_def split_once_prefix)

lemma public_key_string_roundtrip:
  assumes "public_key_wf k" "\<And>b. dec (enc b) = Some b"
  shows "public_key_from_str dec (public_key_to_string enc k) = Inr k"
proof (cases k)
  case (DtoSecp256k1 b)
  then show ?thesis
    using assms position_prefix [of "CHR '':''" "''secp256k1''" "enc b"]
      key_from_str_print [of "''secp256k1''" dec enc b SECP256K1_PUBLIC_KEY_SIZE]
    by (simp add: public_key_from_str_def public_key_to_string_def secp256k1_to_string_def
        secp256k1_from_str_def public_key_wf_def)
next
  case (DtoEd25519 b)
  then show ?thesis
    using assms position_prefix [of "CHR '':''" "''ed25519''" "enc b"]
      key_from_str_print [of "''ed25519''" dec enc b ED25519_PUBLIC_KEY_SIZE]
    by (simp add: public_key_from_str_def public_key_to_string_def ed25519_to_string_def
        ed25519_from_str_def public_key_wf_def)
next
  case (DtoBls12381 b)
  then show ?thesis
    using assms position_prefix [of "CHR '':''" "''bls12381g2''" "enc b"]
      key_from_str_print [of "''bls12381g2''" dec enc b BLS12381G2_PUBLIC_KEY_SIZE]
    by (simp add: public_key_from_str_def public_key_to_string_def bls12381g2_to_string_def
        bls12381g2_from_str_def public_key_wf_def)
qed

text \<open>A parsed key always has the size of its curve.\<close>

lemma public_key_from_str_wf:
  "public_key_from_str dec s = Inr k \<Longrightarrow> public_key_wf k"
  by (auto simp: public_key_from_str_def ed25519_from_str_def secp256k1_from_str_def
      bls12381g2_from_str_def key_from_str_def and_then_eq_Inr public_key_wf_def Let_def
      split: option.splits if_splits)

lemma extended_try_from_public_key_wf:
  assumes "extended_try_from_public_key decompress k = Inr pke" "public_key_wf k"
  shows "extended_wf decompress pke"
  using assms
  by (auto simp: extended_try_from_public_key_def extended_from_ed25519_def near_from_ed25519_def
      near_from_secp256k1_def expect_def ok_or_eq_Inr ensure_eq_Inr and_then_eq_Inr extended_wf_def
      near_key_wf_parts public_key_wf_def dest: curve_of_from_parts split: public_key.splits)

lemma public_key_extended_roundtrip:
  assumes "extended_try_from_public_key decompress k = Inr pke" "public_key_wf k"
  shows "public_key_from_extended pke = Inr k"
  using assms
  by (auto simp: extended_try_from_public_key_def extended_from_ed25519_def near_from_ed25519_def
      near_from_secp256k1_def expect_def ok_or_eq_Inr ensure_eq_Inr and_then_eq_Inr
      public_key_from_extended_def public_key_from_near_def copy_from_slice_def
      public_key_wf_def curve_data_len_def dest!: curve_of_from_parts
      split: public_key.splits curve_type.splits)

lemma near_public_key_roundtrip:
  assumes "near_key_wf pk"
  shows "\<exists>k. public_key_from_near pk = Inr k \<and> public_key_wf k \<and>
    near_try_from_public_key k = Inr pk"
  using assms
  by (cases rule: near_key_wf_cases)
    (auto simp: public_key_from_near_def copy_from_slice_def public_key_wf_def key_size_defs
      near_try_from_public_key_def near_from_ed25519_def near_from_secp256k1_def expect_def
      near_from_parts_def curve_data_len_def curve_tag_def)

end
