(* ===== verification/Participants.thy ===== *)
theory Participants
  imports Errors
begin

text \<open>
  \<open>crates/contract/src/primitives/participants.rs\<close>: the participant set, a vector of
  (account, identifier, info) triples with the next free identifier. \<open>participants_wf\<close> is
  the coherence that \<open>Participants::validate\<close> decides; insertion and \<open>update_info\<close>
  preserve it.
\<close>

record participant_info =
  pi_url :: string
  pi_sign_pk :: near_public_key

type_synonym participant_entry = "account_id \<times> participant_id \<times> participant_info"

record participants =
  ps_next_id :: participant_id
  ps_participants :: "participant_entry list"

definition participant_id_next :: "participant_id \<Rightarrow> participant_id" where
  "participant_id_next i = i + 1"

definition participants_new :: participants where
  "participants_new = \<lparr>ps_next_id = 0, ps_participants = []\<rparr>"

definition participants_init :: "participant_id \<Rightarrow> participant_entry list \<Rightarrow> participants" where
  "participants_init n ps = \<lparr>ps_next_id = n, ps_participants = ps\<rparr>"

definition participants_len :: "participants \<Rightarrow> nat" where
  "participants_len ps = length (ps_participants ps)"

definition insert_with_id ::
  "account_id \<Rightarrow> participant_info \<Rightarrow> participant_id \<Rightarrow> participants \<Rightarrow> participants result" where
  "insert_with_id account_id info i ps =
     (if list_ex (\<lambda>(a_id, p_id, _). a_id = account_id \<or> p_id = i) (ps_participants ps)
      then Inl (ParamsErr ParticipantAlreadyInSet)
      else if i < ps_next_id ps
      then Inl (ParamsErr ParticipantAlreadyUsed)
      else Inr (ps\<lparr>ps_participants := ps_participants ps @ [(account_id, i, info)],
                   ps_next_id := i + 1\<rparr>))"

definition participants_insert ::
  "account_id \<Rightarrow> participant_info \<Rightarrow> participants \<Rightarrow> participants result" where
  "participants_insert account_id info ps = insert_with_id account_id info (ps_next_id ps) ps"

text \<open>The loop of \<open>validate\<close>: it collects the accounts and identifiers it has seen.\<close>

fun validate_loop ::
  "participant_id \<Rightarrow> participant_entry list \<Rightarrow> account_id set \<Rightarrow> participant_id set
    \<Rightarrow> (account_id set \<times> participant_id set) result" where
  "validate_loop next_id [] accounts ids = Inr (accounts, ids)"
| "validate_loop next_id ((acc_id, pid, _) # ps) accounts ids =
     (if next_id \<le> pid then Inl (CandidateErr IncoherentParticipantIds)
      else validate_loop next_id ps (insert acc_id accounts) (insert pid ids))"

definition participants_validate :: "participants \<Rightarrow> unit result" where
  "participants_validate ps =
     and_then (validate_loop (ps_next_id ps) (ps_participants ps) {} {}) (\<lambda>(accounts, ids).
       if card ids \<noteq> participants_len ps
       then Inl (CandidateErr IncoherentParticipantIds)
       else if card accounts \<noteq> participants_len ps
       then Inl (CandidateErr IncoherentParticipantIds)
       else Inr ())"

definition is_participant_given_account_id :: "participants \<Rightarrow> account_id \<Rightarrow> bool" where
  "is_participant_given_account_id ps account_id =
     list_ex (\<lambda>(a_id, _, _). a_id = account_id) (ps_participants ps)"

definition is_participant_given_participant_id :: "participants \<Rightarrow> participant_id \<Rightarrow> bool" where
  "is_participant_given_participant_id ps i =
     list_ex (\<lambda>(_, p_id, _). p_id = i) (ps_participants ps)"

definition participants_info :: "participants \<Rightarrow> account_id \<Rightarrow> participant_info option" where
  "participants_info ps account_id =
     map_option (\<lambda>(_, _, info). info)
       (List.find (\<lambda>(a_id, _, _). a_id = account_id) (ps_participants ps))"

fun update_info_loop ::
  "account_id \<Rightarrow> participant_info \<Rightarrow> participant_entry list \<Rightarrow> participant_entry list result" where
  "update_info_loop account_id new_info [] = Inl (StateErr NotParticipant)"
| "update_info_loop account_id new_info ((a, i, info) # ps) =
     (if a = account_id then Inr ((a, i, new_info) # ps)
      else and_then (update_info_loop account_id new_info ps) (\<lambda>ps'. Inr ((a, i, info) # ps')))"

definition participants_update_info ::
  "account_id \<Rightarrow> participant_info \<Rightarrow> participants \<Rightarrow> participants result" where
  "participants_update_info account_id new_info ps =
     and_then (update_info_loop account_id new_info (ps_participants ps))
       (\<lambda>es. Inr (ps\<lparr>ps_participants := es\<rparr>))"

section \<open>Coherence\<close>

abbreviation entry_account :: "participant_entry \<Rightarrow> account_id" where
  "entry_account e \<equiv> fst e"

abbreviation entry_id :: "participant_entry \<Rightarrow> participant_id" where
  "entry_id e \<equiv> fst (snd e)"

abbreviation entry_info :: "participant_entry \<Rightarrow> participant_info" where
  "entry_info e \<equiv> snd (snd e)"

definition accounts :: "participants \<Rightarrow> account_id list" where
  "accounts ps = map entry_account (ps_participants ps)"

definition ids :: "participants \<Rightarrow> participant_id list" where
  "ids ps = map entry_id (ps_participants ps)"

definition participants_wf :: "participants \<Rightarrow> bool" where
  "participants_wf ps \<longleftrightarrow>
     distinct (accounts ps) \<and> distinct (ids ps) \<and> (\<forall>i \<in> set (ids ps). i < ps_next_id ps)"

lemma length_accounts [simp]: "length (accounts ps) = participants_len ps"
  by (simp add: accounts_def participants_len_def)

lemma length_ids [simp]: "length (ids ps) = participants_len ps"
  by (simp add: ids_def participants_len_def)

lemma is_participant_account_iff: "is_participant_given_account_id ps a \<longleftrightarrow> a \<in> set (accounts ps)"
  by (force simp: is_participant_given_account_id_def accounts_def list_ex_iff)

lemma is_participant_id_iff: "is_participant_given_participant_id ps i \<longleftrightarrow> i \<in> set (ids ps)"
  by (force simp: is_participant_given_participant_id_def ids_def list_ex_iff)

lemma validate_loop_Inr:
  "validate_loop n ps acc is = Inr (acc', is') \<longleftrightarrow>
     (\<forall>e \<in> set ps. entry_id e < n) \<and> acc' = acc \<union> entry_account ` set ps
       \<and> is' = is \<union> entry_id ` set ps"
  by (induction n ps acc "is" rule: validate_loop.induct) (auto simp: not_less)

lemma participants_validate_iff: "participants_validate ps = Inr () \<longleftrightarrow> participants_wf ps"
proof -
  have "participants_validate ps = Inr () \<longleftrightarrow>
      (\<forall>i \<in> set (ids ps). i < ps_next_id ps)
      \<and> card (set (ids ps)) = length (ids ps) \<and> card (set (accounts ps)) = length (accounts ps)"
    by (auto simp: participants_validate_def and_then_eq_Inr validate_loop_Inr ids_def accounts_def
        participants_len_def image_comp o_def split: if_splits)
  also have "\<dots> \<longleftrightarrow> participants_wf ps"
    unfolding card_set_eq_length participants_wf_def by blast
  finally show ?thesis .
qed

lemma participants_validate_error:
  "participants_validate ps = Inl e \<Longrightarrow> e = CandidateErr IncoherentParticipantIds"
proof -
  have "validate_loop n es acc is = Inl e \<Longrightarrow> e = CandidateErr IncoherentParticipantIds"
    for n es acc "is"
    by (induction n es acc "is" rule: validate_loop.induct) (auto split: if_splits)
  then show "participants_validate ps = Inl e \<Longrightarrow> ?thesis"
    by (auto simp: participants_validate_def and_then_eq_Inl split: if_splits)
qed

lemma participants_wf_new: "participants_wf participants_new"
  by (simp add: participants_wf_def participants_new_def accounts_def ids_def)

lemma insert_with_id_wf:
  assumes "participants_wf ps" "insert_with_id a info i ps = Inr ps'" "i \<noteq> - 1"
  shows "participants_wf ps'"
proof -
  have fresh: "a \<notin> set (accounts ps)" "i \<notin> set (ids ps)" "ps_next_id ps \<le> i"
    and ps': "accounts ps' = accounts ps @ [a]" "ids ps' = ids ps @ [i]" "ps_next_id ps' = i + 1"
    using assms(2)
    by (auto simp: insert_with_id_def list_ex_iff accounts_def ids_def not_less split: if_splits)
  have "i < - 1" using assms(3) by (simp add: word_order.not_eq_extremum)
  then have "i < i + 1" by (rule word_less_plus_one)
  then have "\<forall>j \<in> set (ids ps). j < i + 1"
    using assms(1) fresh(3) by (auto simp: participants_wf_def)
  with \<open>i < i + 1\<close> show ?thesis
    using assms(1) fresh ps' by (auto simp: participants_wf_def)
qed

lemma update_info_loop_Inr:
  "update_info_loop a ninfo es = Inr es' \<Longrightarrow>
     map entry_account es' = map entry_account es \<and> map entry_id es' = map entry_id es
     \<and> a \<in> entry_account ` set es"
  by (induction a ninfo es arbitrary: es' rule: update_info_loop.induct)
    (auto simp: and_then_eq_Inr split: if_splits)

lemma update_info_frame:
  assumes "participants_update_info a ninfo ps = Inr ps'"
  shows "accounts ps' = accounts ps" "ids ps' = ids ps" "ps_next_id ps' = ps_next_id ps"
    "participants_len ps' = participants_len ps"
  using assms update_info_loop_Inr [of a ninfo "ps_participants ps"]
  by (auto simp: participants_update_info_def and_then_eq_Inr accounts_def ids_def
      participants_len_def dest: map_eq_imp_length_eq)

lemma update_info_wf:
  "participants_update_info a ninfo ps = Inr ps' \<Longrightarrow> participants_wf ps' \<longleftrightarrow> participants_wf ps"
  by (simp add: participants_wf_def update_info_frame)

lemma update_info_loop_ok: "a \<in> entry_account ` set es \<Longrightarrow> \<exists>es'. update_info_loop a ninfo es = Inr es'"
proof (induction es)
  case (Cons e es)
  obtain b i info where e: "e = (b, i, info)" by (cases e)
  show ?case
  proof (cases "b = a")
    case False
    with Cons e obtain es' where "update_info_loop a ninfo es = Inr es'" by auto
    with e False show ?thesis by simp
  qed (simp add: e)
qed simp

lemma update_info_ok:
  "is_participant_given_account_id ps a \<Longrightarrow> \<exists>ps'. participants_update_info a ninfo ps = Inr ps'"
  using update_info_loop_ok [of a "ps_participants ps" ninfo]
  by (auto simp: is_participant_account_iff accounts_def participants_update_info_def)

lemma update_info_loop_find:
  "update_info_loop a ninfo es = Inr es' \<Longrightarrow>
     List.find (\<lambda>(a_id, _, _). a_id = b) es' =
       (if b = a then map_option (\<lambda>(x, i, _). (x, i, ninfo)) (List.find (\<lambda>(a_id, _, _). a_id = b) es)
        else List.find (\<lambda>(a_id, _, _). a_id = b) es)"
  by (induction a ninfo es arbitrary: es' rule: update_info_loop.induct)
    (auto simp: and_then_eq_Inr split: if_splits)

lemma participants_info_update:
  assumes "participants_update_info a ninfo ps = Inr ps'"
  shows "participants_info ps' b = (if b = a then Some ninfo else participants_info ps b)"
proof -
  from assms obtain es' where es': "update_info_loop a ninfo (ps_participants ps) = Inr es'"
    "ps' = ps\<lparr>ps_participants := es'\<rparr>"
    by (auto simp: participants_update_info_def and_then_eq_Inr)
  have "a \<in> entry_account ` set (ps_participants ps)"
    using update_info_loop_Inr [OF es'(1)] by simp
  then have "List.find (\<lambda>(a_id, _, _). a_id = a) (ps_participants ps) \<noteq> None"
    by (auto simp: find_None_iff) blast
  then show ?thesis
    using es' by (auto simp: participants_info_def update_info_loop_find [OF es'(1)]
        option.map_comp o_def split: prod.splits)
qed

text \<open>A coherent participant set has fewer than \<open>2^32\<close> members.\<close>

lemma participants_wf_len:
  assumes "participants_wf ps"
  shows "participants_len ps < 2 ^ 32"
proof -
  have "set (ids ps) \<subseteq> {0 ..< ps_next_id ps}"
    using assms by (auto simp: participants_wf_def)
  then have "set (map unat (ids ps)) \<subseteq> {0 ..< unat (ps_next_id ps)}"
    by (auto simp: word_less_nat_alt dest: subsetD)
  then have "card (set (map unat (ids ps))) \<le> unat (ps_next_id ps)"
    by (metis card_atLeastLessThan card_mono diff_zero finite_atLeastLessThan)
  moreover have "distinct (map unat (ids ps))"
    using assms by (simp add: participants_wf_def distinct_map inj_on_def
        word_unat_eq_iff)
  ultimately have "participants_len ps \<le> unat (ps_next_id ps)"
    by (metis distinct_card length_ids length_map)
  also have "unat (ps_next_id ps) < 2 ^ 32"
    using unsigned_less [of "ps_next_id ps"] by simp
  finally show ?thesis .
qed

end
