(* ===== verification/Domains.thy ===== *)
theory Domains
  imports Participants
begin

text \<open>
  \<open>crates/contract/src/primitives/domain.rs\<close>: domains, the registry that numbers them, and
  the votes to add some. \<open>registry_wf\<close> is what \<open>from_raw_validated\<close> decides; the
  registries it accepts are exactly those a sequence of \<open>add_domains\<close> and
  \<open>retain_domains\<close> calls can produce.
\<close>

definition legacy_ecdsa_id :: domain_id where
  "legacy_ecdsa_id = 0"

definition infer_purpose_from_scheme :: "signature_scheme \<Rightarrow> domain_purpose" where
  "infer_purpose_from_scheme scheme = (case scheme of Bls12381 \<Rightarrow> CKD | _ \<Rightarrow> Sign)"

definition is_valid_scheme_for_purpose :: "domain_purpose \<Rightarrow> signature_scheme \<Rightarrow> bool" where
  "is_valid_scheme_for_purpose purpose scheme =
     (case (purpose, scheme) of
        (Sign, Secp256k1) \<Rightarrow> True
      | (Sign, V2Secp256k1) \<Rightarrow> True
      | (Sign, Ed25519) \<Rightarrow> True
      | (ForeignTx, Secp256k1) \<Rightarrow> True
      | (CKD, Bls12381) \<Rightarrow> True
      | _ \<Rightarrow> False)"

record domain_config =
  dc_id :: domain_id
  dc_scheme :: signature_scheme
  dc_purpose :: domain_purpose

record domain_config_compat =
  dcc_id :: domain_id
  dcc_scheme :: signature_scheme
  dcc_purpose :: "domain_purpose option"

definition domain_config_from_compat :: "domain_config_compat \<Rightarrow> domain_config" where
  "domain_config_from_compat v =
     \<lparr>dc_id = dcc_id v, dc_scheme = dcc_scheme v,
      dc_purpose = (case dcc_purpose v of Some p \<Rightarrow> p
        | None \<Rightarrow> infer_purpose_from_scheme (dcc_scheme v))\<rparr>"

record domain_registry =
  dr_domains :: "domain_config list"
  dr_next_domain_id :: u64

definition registry_default :: domain_registry where
  "registry_default = \<lparr>dr_domains = [], dr_next_domain_id = 0\<rparr>"

definition add_domain ::
  "signature_scheme \<Rightarrow> domain_purpose \<Rightarrow> domain_registry \<Rightarrow> domain_id \<times> domain_registry" where
  "add_domain scheme purpose r =
     (let domain = \<lparr>dc_id = dr_next_domain_id r, dc_scheme = scheme, dc_purpose = purpose\<rparr> in
      (dc_id domain,
       r\<lparr>dr_next_domain_id := dr_next_domain_id r + 1, dr_domains := dr_domains r @ [domain]\<rparr>))"

definition new_single_ecdsa_key_from_legacy :: domain_registry where
  "new_single_ecdsa_key_from_legacy = snd (add_domain Secp256k1 Sign registry_default)"

fun add_domains :: "domain_registry \<Rightarrow> domain_config list \<Rightarrow> domain_registry result" where
  "add_domains r [] = Inr r"
| "add_domains r (domain # ds) =
     (let (new_domain_id, r') = add_domain (dc_scheme domain) (dc_purpose domain) r in
      if new_domain_id \<noteq> dc_id domain
      then Inl (DomainErr (NewDomainIdsNotContiguous new_domain_id))
      else add_domains r' ds)"

definition retain_domains :: "nat \<Rightarrow> domain_registry \<Rightarrow> domain_registry" where
  "retain_domains num_domains r = r\<lparr>dr_domains := take num_domains (dr_domains r)\<rparr>"

definition get_domain_by_index :: "domain_registry \<Rightarrow> nat \<Rightarrow> domain_config option" where
  "get_domain_by_index r i = vec_get (dr_domains r) i"

definition get_domain_by_domain_id :: "domain_registry \<Rightarrow> domain_id \<Rightarrow> domain_config option" where
  "get_domain_by_domain_id r i = List.find (\<lambda>d. dc_id d = i) (dr_domains r)"

definition most_recent_domain_for_protocol ::
  "domain_registry \<Rightarrow> signature_scheme \<Rightarrow> domain_id option" where
  "most_recent_domain_for_protocol r scheme =
     map_option dc_id (List.find (\<lambda>d. dc_scheme d = scheme) (rev (dr_domains r)))"

definition from_raw_validated :: "domain_config list \<Rightarrow> u64 \<Rightarrow> domain_registry result" where
  "from_raw_validated domains next_domain_id =
     (let registry = \<lparr>dr_domains = domains, dr_next_domain_id = next_domain_id\<rparr> in
      if list_ex (\<lambda>(left, right). dc_id right \<le> dc_id left) (zip domains (drop 1 domains))
      then Inl (DomainErr InvalidDomains)
      else if domains \<noteq> [] \<and> next_domain_id \<le> dc_id (last domains)
      then Inl (DomainErr InvalidDomains)
      else Inr registry)"

text \<open>Votes to add domains, one per participant identifier.\<close>

record add_domains_votes =
  adv_proposal_by_account :: "(participant_id, domain_config list) btree_map"

definition adv_default :: add_domains_votes where
  "adv_default = \<lparr>adv_proposal_by_account = []\<rparr>"

definition adv_vote ::
  "domain_config list \<Rightarrow> participant_id \<Rightarrow> add_domains_votes \<Rightarrow> u64 \<times> add_domains_votes" where
  "adv_vote proposal participant v =
     (let m = bt_insert participant proposal (adv_proposal_by_account v);
          total = of_nat (length (filter (\<lambda>e. snd e = proposal) m))
      in (total, v\<lparr>adv_proposal_by_account := m\<rparr>))"

definition get_remaining_votes :: "participants \<Rightarrow> add_domains_votes \<Rightarrow> add_domains_votes" where
  "get_remaining_votes ps v =
     \<lparr>adv_proposal_by_account =
        filter (\<lambda>e. is_participant_given_participant_id ps (fst e)) (adv_proposal_by_account v)\<rparr>"

section \<open>The registry\<close>

definition registry_wf :: "domain_registry \<Rightarrow> bool" where
  "registry_wf r \<longleftrightarrow>
     sorted_wrt (<) (map dc_id (dr_domains r)) \<and>
     (\<forall>d \<in> set (dr_domains r). dc_id d < dr_next_domain_id r)"

lemma registry_wf_default: "registry_wf registry_default"
  by (simp add: registry_wf_def registry_default_def)

lemma registry_wf_distinct: "registry_wf r \<Longrightarrow> distinct (map dc_id (dr_domains r))"
  by (simp add: registry_wf_def strict_sorted_iff)

lemma registry_wf_retain: "registry_wf r \<Longrightarrow> registry_wf (retain_domains n r)"
  by (auto simp: registry_wf_def retain_domains_def take_map [symmetric] sorted_wrt_take
      dest: in_set_takeD)

lemma zip_drop_one_sorted:
  "list_ex (\<lambda>(l, r). f r \<le> f l) (zip xs (drop (Suc 0) xs)) \<longleftrightarrow> \<not> sorted_wrt (<) (map f xs)"
  for f :: "'a \<Rightarrow> 'b::linorder"
proof (induction xs rule: induct_list012)
  case (3 x y zs)
  then show ?case
    using less_trans [of "f x" "f y"] by (auto simp: not_le)
qed simp_all

lemma from_raw_validated_Inr:
  "from_raw_validated ds n = Inr r \<longleftrightarrow>
     r = \<lparr>dr_domains = ds, dr_next_domain_id = n\<rparr> \<and> registry_wf r"
proof -
  have "sorted_wrt (<) (map dc_id ds) \<Longrightarrow>
      (\<forall>d \<in> set ds. dc_id d < n) \<longleftrightarrow> ds = [] \<or> dc_id (last ds) < n"
    by (induction ds rule: rev_induct) (auto simp: sorted_wrt_append)
  then show ?thesis
    by (cases "sorted_wrt (<) (map dc_id ds)")
      (auto simp: from_raw_validated_def Let_def registry_wf_def zip_drop_one_sorted not_le)
qed

lemma add_domains_Inr:
  "add_domains r ds = Inr r' \<longleftrightarrow>
     map dc_id ds = map (\<lambda>i. dr_next_domain_id r + of_nat i) [0 ..< length ds] \<and>
     r' = \<lparr>dr_domains = dr_domains r @ ds, dr_next_domain_id = dr_next_domain_id r + of_nat (length ds)\<rparr>"
proof (induction r ds rule: add_domains.induct)
  case (1 r)
  then show ?case by (cases r) auto
next
  case (2 r d ds)
  have shift: "map (\<lambda>i. m + of_nat i) [0 ..< Suc n] = m # map (\<lambda>i. m + 1 + of_nat i) [0 ..< n]"
    for m :: u64 and n
    by (simp add: upt_conv_Cons map_Suc_upt [symmetric] o_def add_ac del: upt_Suc)
  show ?case
  proof (cases "dr_next_domain_id r = dc_id d")
    case True
    then show ?thesis
      using 2 by (cases d)
        (auto simp: add_domain_def Let_def shift add_ac simp del: upt_Suc)
  next
    case False
    then show ?thesis
      by (auto simp: add_domain_def Let_def shift simp del: upt_Suc)
  qed
qed

lemma add_domains_error:
  "add_domains r ds = Inl e \<Longrightarrow> \<exists>i < length ds.
     e = DomainErr (NewDomainIdsNotContiguous (dr_next_domain_id r + of_nat i)) \<and>
     dc_id (ds ! i) \<noteq> dr_next_domain_id r + of_nat i"
proof (induction r ds rule: add_domains.induct)
  case (2 r d ds)
  show ?case
  proof (cases "dr_next_domain_id r = dc_id d")
    case True
    with "2.prems" obtain i where "i < length ds"
      "e = DomainErr (NewDomainIdsNotContiguous (dr_next_domain_id r + 1 + of_nat i))"
      "dc_id (ds ! i) \<noteq> dr_next_domain_id r + 1 + of_nat i"
      using "2.IH" [OF refl prod.collapse] by (auto simp: add_domain_def Let_def)
    then show ?thesis
      by (intro exI [of _ "Suc i"]) (simp add: add_ac)
  next
    case False
    with 2 show ?thesis
      by (intro exI [of _ 0]) (auto simp: add_domain_def Let_def)
  qed
qed simp

lemma unat_offset:
  "unat n + k < 2 ^ 64 \<Longrightarrow> i \<le> k \<Longrightarrow> unat (n + of_nat i :: u64) = unat n + i"
  by (simp add: unat_word_ariths unat_of_nat)

lemma add_domains_wf:
  assumes "add_domains r ds = Inr r'" "registry_wf r"
    and "unat (dr_next_domain_id r) + length ds < 2 ^ 64"
  shows "registry_wf r'"
proof -
  let ?n = "dr_next_domain_id r"
  have ids: "map dc_id ds = map (\<lambda>i. ?n + of_nat i) [0 ..< length ds]"
    and r': "r' = \<lparr>dr_domains = dr_domains r @ ds, dr_next_domain_id = ?n + of_nat (length ds)\<rparr>"
    using assms(1) by (simp_all add: add_domains_Inr)
  have nth: "unat (dc_id (ds ! i)) = unat ?n + i" if "i < length ds" for i
    using arg_cong [OF ids, of "\<lambda>l. l ! i"] that assms(3) by (simp add: unat_offset)
  have new: "unat ?n \<le> unat (dc_id d) \<and> unat (dc_id d) < unat ?n + length ds"
    if "d \<in> set ds" for d
    using that nth by (auto simp: in_set_conv_nth)
  have "sorted_wrt (<) (map dc_id ds)"
    by (auto simp: sorted_wrt_iff_nth_less nth word_less_nat_alt)
  moreover have old: "unat (dc_id d) < unat ?n" if "d \<in> set (dr_domains r)" for d
    using that assms(2) by (simp add: registry_wf_def word_less_nat_alt)
  moreover have "unat (?n + of_nat (length ds)) = unat ?n + length ds"
    using unat_offset [OF assms(3) order_refl] .
  moreover have "unat (dc_id x) < unat (dc_id y)" if "x \<in> set (dr_domains r)" "y \<in> set ds" for x y
    using old [OF that(1)] new [OF that(2)] by linarith
  ultimately show ?thesis
    using assms(2) new by (auto simp: registry_wf_def r' sorted_wrt_append word_less_nat_alt trans_less_add1)
qed

lemma get_domain_by_domain_id_Some:
  "registry_wf r \<Longrightarrow>
    get_domain_by_domain_id r i = Some d \<longleftrightarrow> d \<in> set (dr_domains r) \<and> dc_id d = i"
proof -
  assume "registry_wf r"
  then have "inj_on dc_id (set (dr_domains r))"
    using registry_wf_distinct by (simp add: distinct_map)
  then show ?thesis
    by (auto simp: get_domain_by_domain_id_def find_None_iff inj_on_def
        dest!: find_Some_in split: option.splits)
      (metis (mono_tags, lifting) find_None_iff find_Some_in not_None_eq)
qed

section \<open>Which registries are valid\<close>

text \<open>
  The registries that calls of \<open>add_domains\<close> and \<open>retain_domains\<close> can produce, as long
  as the counter does not overflow.
\<close>

inductive registry_reachable :: "domain_registry \<Rightarrow> bool" where
  start: "registry_reachable registry_default"
| add: "registry_reachable r \<Longrightarrow> add_domains r ds = Inr r' \<Longrightarrow>
    unat (dr_next_domain_id r) + length ds < 2 ^ 64 \<Longrightarrow> registry_reachable r'"
| retain: "registry_reachable r \<Longrightarrow> registry_reachable (retain_domains n r)"

lemma registry_reachable_wf: "registry_reachable r \<Longrightarrow> registry_wf r"
  by (induction rule: registry_reachable.induct)
    (auto simp: registry_wf_default registry_wf_retain intro: add_domains_wf)

lemma registry_reachable_skip:
  assumes "registry_reachable \<lparr>dr_domains = ds, dr_next_domain_id = m\<rparr>" "m \<le> n"
  shows "registry_reachable \<lparr>dr_domains = ds, dr_next_domain_id = n\<rparr>"
proof -
  define k where "k = unat n - unat m"
  define extra where "extra =
    map (\<lambda>i. \<lparr>dc_id = m + of_nat i, dc_scheme = Secp256k1, dc_purpose = Sign\<rparr>) [0 ..< k]"
  have k: "unat m + k = unat n"
    using assms(2) by (simp add: k_def word_le_nat_alt)
  then have "unat m + k < 2 ^ 64"
    using unsigned_less [of n] by simp
  then have "unat (m + of_nat k) = unat n"
    using k unat_offset [of m k k] by simp
  then have "m + of_nat k = n"
    by (simp add: word_unat_eq_iff)
  then have "add_domains \<lparr>dr_domains = ds, dr_next_domain_id = m\<rparr> extra =
      Inr \<lparr>dr_domains = ds @ extra, dr_next_domain_id = n\<rparr>"
    by (simp add: add_domains_Inr extra_def o_def)
  then have "registry_reachable \<lparr>dr_domains = ds @ extra, dr_next_domain_id = n\<rparr>"
    using assms(1) \<open>unat m + k < 2 ^ 64\<close>
    by (elim registry_reachable.add [rotated]) (simp_all add: extra_def)
  then have "registry_reachable
      (retain_domains (length ds) \<lparr>dr_domains = ds @ extra, dr_next_domain_id = n\<rparr>)"
    by (rule registry_reachable.retain)
  then show ?thesis
    by (simp add: retain_domains_def)
qed

lemma registry_wf_reachable:
  "registry_wf \<lparr>dr_domains = ds, dr_next_domain_id = n\<rparr> \<Longrightarrow>
    registry_reachable \<lparr>dr_domains = ds, dr_next_domain_id = n\<rparr>"
proof (induction ds arbitrary: n rule: rev_induct)
  case Nil
  have "registry_reachable \<lparr>dr_domains = [], dr_next_domain_id = 0\<rparr>"
    using registry_reachable.start by (simp add: registry_default_def)
  then show ?case
    by (rule registry_reachable_skip) simp
next
  case (snoc d ds)
  then have d: "dc_id d < n" and "registry_wf \<lparr>dr_domains = ds, dr_next_domain_id = dc_id d\<rparr>"
    by (auto simp: registry_wf_def sorted_wrt_append)
  then have ds: "registry_reachable \<lparr>dr_domains = ds, dr_next_domain_id = dc_id d\<rparr>"
    by (intro snoc.IH)
  have room: "unat (dc_id d) + 1 < 2 ^ 64"
    using d unsigned_less [of n, where 'a = nat] by (simp add: word_less_nat_alt)
  have "add_domains \<lparr>dr_domains = ds, dr_next_domain_id = dc_id d\<rparr> [d] =
      Inr \<lparr>dr_domains = ds @ [d], dr_next_domain_id = dc_id d + 1\<rparr>"
    by (simp add: add_domain_def)
  then have "registry_reachable \<lparr>dr_domains = ds @ [d], dr_next_domain_id = dc_id d + 1\<rparr>"
    by (rule registry_reachable.add [OF ds]) (use room in simp)
  then show ?case
    by (rule registry_reachable_skip) (rule word_plus_one_le [OF d])
qed

section \<open>The ballot\<close>

lemma adv_vote_result:
  "adv_vote proposal i v =
    (of_nat (bt.tally proposal (bt_insert i proposal (adv_proposal_by_account v))),
     v\<lparr>adv_proposal_by_account := bt_insert i proposal (adv_proposal_by_account v)\<rparr>)"
  by (simp add: adv_vote_def Let_def bt.tally_def)

lemma get_remaining_votes_lookup:
  "bt_get (adv_proposal_by_account (get_remaining_votes ps v)) i =
    (if i \<in> set (ids ps) then bt_get (adv_proposal_by_account v) i else None)"
  by (simp add: get_remaining_votes_def is_participant_id_iff
      bt_get_filter_keys [of "\<lambda>k. k \<in> set (ids ps)"])

lemma get_remaining_votes_invar:
  "bt_invar (adv_proposal_by_account v) \<Longrightarrow>
    bt_invar (adv_proposal_by_account (get_remaining_votes ps v))"
  by (simp add: get_remaining_votes_def)

end
