(* ===== verification/Thresholds.thy ===== *)
theory Thresholds
  imports Participants
begin

text \<open>
  \<open>crates/contract/src/primitives/thresholds.rs\<close>: the threshold of a participant set,
  its validation, and the validation of a proposal against the current parameters.
  The quorum locale states what a threshold of sixty percent buys: any two groups of
  participants that reach it have a member in common.
\<close>

type_synonym threshold = u64

record threshold_parameters =
  tp_participants :: participants
  tp_threshold :: threshold

definition MIN_THRESHOLD_ABSOLUTE :: u64 where
  "MIN_THRESHOLD_ABSOLUTE = 2"

text \<open>\<open>u64::div_ceil\<close>.\<close>

definition div_ceil :: "u64 \<Rightarrow> u64 \<Rightarrow> u64" where
  "div_ceil a b = (if 0 < a mod b then a div b + 1 else a div b)"

definition validate_threshold :: "u64 \<Rightarrow> threshold \<Rightarrow> unit result" where
  "validate_threshold n_shares k =
     (if n_shares < k then Inl (ThresholdErr MaxRequirementFailed)
      else if k < MIN_THRESHOLD_ABSOLUTE then Inl (ThresholdErr MinAbsRequirementFailed)
      else let percentage_bound = div_ceil (3 * n_shares) 5 in
        if k < percentage_bound then Inl (ThresholdErr MinRelRequirementFailed)
        else Inr ())"

definition threshold_parameters_new ::
  "participants \<Rightarrow> threshold \<Rightarrow> threshold_parameters result" where
  "threshold_parameters_new ps k =
     (case validate_threshold (of_nat (participants_len ps)) k of
        Inr _ \<Rightarrow> Inr \<lparr>tp_participants = ps, tp_threshold = k\<rparr>
      | Inl err \<Rightarrow> Inl err)"

definition threshold_parameters_validate :: "threshold_parameters \<Rightarrow> unit result" where
  "threshold_parameters_validate tp =
     and_then (validate_threshold (of_nat (participants_len (tp_participants tp))) (tp_threshold tp))
       (\<lambda>_. participants_validate (tp_participants tp))"

definition old_by_id :: "participants \<Rightarrow> (participant_id, account_id) btree_map" where
  "old_by_id ps = fold (\<lambda>(acc, i, info). bt_insert i acc) (ps_participants ps) []"

definition old_by_acc ::
  "participants \<Rightarrow> (account_id, participant_id \<times> participant_info) btree_map" where
  "old_by_acc ps = fold (\<lambda>(acc, i, info). bt_insert acc (i, info)) (ps_participants ps) []"

fun proposal_loop ::
  "participants \<Rightarrow> participant_entry list \<Rightarrow> u32 \<Rightarrow> u32 \<Rightarrow> u64 \<Rightarrow> (u32 \<times> u32 \<times> u64) result" where
  "proposal_loop old [] new_min_id new_max_id n_old = Inr (new_min_id, new_max_id, n_old)"
| "proposal_loop old ((new_account, new_id, new_info) # es) new_min_id new_max_id n_old =
     (case bt_get (old_by_acc old) new_account of
        Some (old_id, old_info) \<Rightarrow>
          if new_id \<noteq> old_id then Inl (CandidateErr IncoherentParticipantIds)
          else if new_info \<noteq> old_info then Inl (CandidateErr IncoherentParticipantIds)
          else proposal_loop old es new_min_id new_max_id (n_old + 1)
      | None \<Rightarrow>
          if bt_get (old_by_id old) new_id \<noteq> None
          then Inl (CandidateErr IncoherentParticipantIds)
          else proposal_loop old es (min new_min_id new_id) (max new_max_id new_id) n_old)"

definition validate_incoming_proposal ::
  "threshold_parameters \<Rightarrow> threshold_parameters \<Rightarrow> unit result" where
  "validate_incoming_proposal self proposal =
     and_then (threshold_parameters_validate proposal) (\<lambda>_.
     and_then (proposal_loop (tp_participants self)
         (ps_participants (tp_participants proposal)) (- 1) 0 0)
       (\<lambda>(new_min_id, new_max_id, n_old).
         if n_old < tp_threshold self then Inl (CandidateErr InsufficientOldParticipants)
         else let n_new = of_nat (participants_len (tp_participants proposal)) - n_old in
           if 0 < n_new then
             if n_new - 1 \<noteq> ucast (new_max_id - new_min_id)
             then Inl (CandidateErr NewParticipantIdsNotContiguous)
             else if new_min_id \<noteq> ps_next_id (tp_participants self)
             then Inl (CandidateErr NewParticipantIdsNotContiguous)
             else if new_max_id + 1 \<noteq> ps_next_id (tp_participants proposal)
             then Inl (CandidateErr NewParticipantIdsTooHigh)
             else Inr ()
           else Inr ()))"

definition threshold_parameters_update_info ::
  "account_id \<Rightarrow> participant_info \<Rightarrow> threshold_parameters \<Rightarrow> threshold_parameters result" where
  "threshold_parameters_update_info account_id new_info tp =
     and_then (participants_update_info account_id new_info (tp_participants tp))
       (\<lambda>ps. Inr (tp\<lparr>tp_participants := ps\<rparr>))"

section \<open>The threshold bounds\<close>

lemma unat_div_ceil_5: "unat a < 2 ^ 63 \<Longrightarrow> unat (div_ceil a 5) = (unat a + 4) div 5"
proof -
  assume a: "unat a < 2 ^ 63"
  have "unat (a div 5) = unat a div 5" "unat (a mod 5) = unat a mod 5"
    by (simp_all add: unat_div_distrib unat_mod_distrib)
  moreover have "0 < m mod 5 \<Longrightarrow> Suc (m div 5) = (m + 4) div 5" for m :: nat
    by presburger
  ultimately show ?thesis
    using a by (auto simp: div_ceil_def word_less_nat_alt unat_word_ariths)
qed

lemma validate_threshold_iff:
  assumes "n < 2 ^ 32"
  shows "validate_threshold (of_nat n) k = Inr () \<longleftrightarrow>
    2 \<le> unat k \<and> unat k \<le> n \<and> 3 * n \<le> 5 * unat k"
proof -
  have n: "unat (of_nat n :: u64) = n"
    using assms by (simp add: unat_of_nat)
  then have "unat (3 * of_nat n :: u64) = 3 * n"
    using assms by (simp add: unat_word_ariths)
  then have "unat (div_ceil (3 * of_nat n) 5) = (3 * n + 4) div 5"
    using assms by (subst unat_div_ceil_5) simp_all
  then show ?thesis
    using n by (auto simp: validate_threshold_def MIN_THRESHOLD_ABSOLUTE_def word_less_nat_alt Let_def)
qed

definition parameters_wf :: "threshold_parameters \<Rightarrow> bool" where
  "parameters_wf tp \<longleftrightarrow>
     participants_wf (tp_participants tp) \<and>
     2 \<le> unat (tp_threshold tp) \<and>
     unat (tp_threshold tp) \<le> participants_len (tp_participants tp) \<and>
     3 * participants_len (tp_participants tp) \<le> 5 * unat (tp_threshold tp)"

lemma threshold_parameters_validate_iff:
  "threshold_parameters_validate tp = Inr () \<longleftrightarrow> parameters_wf tp"
proof (cases "participants_wf (tp_participants tp)")
  case True
  then have "participants_len (tp_participants tp) < 2 ^ 32"
    by (rule participants_wf_len)
  then show ?thesis
    using True by (auto simp: threshold_parameters_validate_def and_then_eq_Inr parameters_wf_def
        validate_threshold_iff participants_validate_iff)
next
  case False
  then show ?thesis
    by (auto simp: threshold_parameters_validate_def and_then_eq_Inr parameters_wf_def
        participants_validate_iff)
qed

lemma parameters_wf_update_info:
  "threshold_parameters_update_info a ninfo tp = Inr tp' \<Longrightarrow> parameters_wf tp' \<longleftrightarrow> parameters_wf tp"
  by (auto simp: threshold_parameters_update_info_def and_then_eq_Inr parameters_wf_def
      update_info_wf update_info_frame)

section \<open>Incoming proposals\<close>

text \<open>
  The entries of a proposal split into those whose account is a current participant and
  the new ones.
\<close>

definition retained :: "participants \<Rightarrow> participants \<Rightarrow> participant_entry list" where
  "retained old new = filter (\<lambda>e. entry_account e \<in> set (accounts old)) (ps_participants new)"

definition joining :: "participants \<Rightarrow> participants \<Rightarrow> participant_entry list" where
  "joining old new = filter (\<lambda>e. entry_account e \<notin> set (accounts old)) (ps_participants new)"

lemma retained_joining_length:
  "length (retained old new) + length (joining old new) = participants_len new"
  by (simp add: retained_def joining_def participants_len_def sum_length_filter_compl)

lemma bt_get_fold_insert:
  "bt_get (fold (\<lambda>e. bt_insert (f e) (g e)) es m) = bt_get m ++ map_of (rev (map (\<lambda>e. (f e, g e)) es))"
  by (induction es arbitrary: m) (auto simp: fun_eq_iff map_add_def split: option.splits)

lemma old_by_acc_get:
  assumes "participants_wf old"
  shows "bt_get (old_by_acc old) a = Some (i, info) \<longleftrightarrow> (a, i, info) \<in> set (ps_participants old)"
proof -
  let ?es = "map (\<lambda>e. (entry_account e, snd e)) (ps_participants old)"
  have "bt_get (old_by_acc old) = map_of (rev ?es)"
    using bt_get_fold_insert [of entry_account snd "ps_participants old" "[]"]
    by (simp add: old_by_acc_def case_prod_unfold)
  moreover have "distinct (map fst (rev ?es))"
    using assms by (simp add: participants_wf_def accounts_def o_def flip: rev_map)
  ultimately show ?thesis by simp
qed

lemma old_by_acc_None:
  assumes "participants_wf old"
  shows "bt_get (old_by_acc old) a = None \<longleftrightarrow> a \<notin> set (accounts old)"
  using old_by_acc_get [OF assms, of a]
  by (cases "bt_get (old_by_acc old) a") (force simp: accounts_def)+

lemma old_by_id_None:
  assumes "participants_wf old"
  shows "bt_get (old_by_id old) i = None \<longleftrightarrow> i \<notin> set (ids old)"
proof -
  have "bt_get (old_by_id old) =
      map_of (rev (map (\<lambda>e. (entry_id e, entry_account e)) (ps_participants old)))"
    using bt_get_fold_insert [of entry_id entry_account "ps_participants old" "[]"]
    by (simp add: old_by_id_def case_prod_unfold)
  then show ?thesis by (simp add: map_of_eq_None_iff ids_def image_comp o_def)
qed

definition entry_coherent :: "participants \<Rightarrow> participant_entry \<Rightarrow> bool" where
  "entry_coherent old e \<longleftrightarrow>
     (if entry_account e \<in> set (accounts old) then e \<in> set (ps_participants old)
      else entry_id e \<notin> set (ids old))"

lemma proposal_loop_Inr:
  assumes "participants_wf old"
  shows "proposal_loop old es mn mx n = Inr (mn', mx', n') \<longleftrightarrow>
    (\<forall>e \<in> set es. entry_coherent old e) \<and>
    (let news = map entry_id (filter (\<lambda>e. entry_account e \<notin> set (accounts old)) es) in
      mn' = fold min news mn \<and> mx' = fold max news mx) \<and>
    n' = n + of_nat (length (filter (\<lambda>e. entry_account e \<in> set (accounts old)) es))"
proof (induction es arbitrary: mn mx n)
  case Nil
  then show ?case by auto
next
  case (Cons e es)
  obtain a i info where e: "e = (a, i, info)" by (cases e)
  show ?case
  proof (cases "bt_get (old_by_acc old) a")
    case None
    then have "a \<notin> set (accounts old)" using assms by (simp add: old_by_acc_None)
    then show ?thesis
      using Cons.IH [of "min mn i" "max mx i" n] None e assms
      by (auto simp: entry_coherent_def old_by_id_None Let_def min.commute max.commute)
  next
    case (Some p)
    obtain j jinfo where p: "p = (j, jinfo)" by (cases p)
    with Some have mem: "(a, j, jinfo) \<in> set (ps_participants old)"
      using assms by (simp add: old_by_acc_get)
    then have acc: "a \<in> set (accounts old)" by (force simp: accounts_def)
    have "(a, i, info) \<in> set (ps_participants old) \<longleftrightarrow> i = j \<and> info = jinfo"
      using Some p assms by (metis old_by_acc_get option.inject prod.inject)
    then show ?thesis
      using Cons.IH [of mn mx "n + 1"] Some p e acc
      by (auto simp: entry_coherent_def Let_def)
  qed
qed


lemma fold_min_new: "xs \<noteq> [] \<Longrightarrow> fold min xs (- 1) = Min (set xs)" for xs :: "u32 list"
proof -
  assume "xs \<noteq> []"
  moreover have "fold min xs (- 1) = Min (insert (- 1) (set xs))"
    using Min.set_eq_fold [of "- 1" xs] by simp
  ultimately show ?thesis by (simp add: min_absorb2)
qed

lemma fold_max_new: "xs \<noteq> [] \<Longrightarrow> fold max xs 0 = Max (set xs)" for xs :: "u32 list"
proof -
  assume "xs \<noteq> []"
  moreover have "fold max xs 0 = Max (insert 0 (set xs))"
    using Max.set_eq_fold [of 0 xs] by simp
  ultimately show ?thesis by (simp add: max_absorb2)
qed

definition joining_ids :: "participants \<Rightarrow> participants \<Rightarrow> participant_id list" where
  "joining_ids old new = map entry_id (joining old new)"

lemma joining_ids_wf:
  assumes "participants_wf new"
  shows "distinct (joining_ids old new)" "\<forall>i \<in> set (joining_ids old new). i < ps_next_id new"
  using assms
  by (auto simp: joining_ids_def joining_def participants_wf_def ids_def distinct_map_filter)

text \<open>
  What \<open>validate_incoming_proposal\<close> accepts. A proposal is accepted exactly when it is itself
  valid, keeps identifier and info of everybody it retains, retains at least a threshold of
  the current participants, and numbers the joining participants with exactly the free
  identifiers between the current and the proposed \<open>next_id\<close>.
\<close>

definition proposal_acceptable :: "threshold_parameters \<Rightarrow> threshold_parameters \<Rightarrow> bool" where
  "proposal_acceptable cur prop \<longleftrightarrow>
     parameters_wf prop \<and>
     (\<forall>e \<in> set (ps_participants (tp_participants prop)). entry_coherent (tp_participants cur) e) \<and>
     unat (tp_threshold cur) \<le> length (retained (tp_participants cur) (tp_participants prop)) \<and>
     (joining_ids (tp_participants cur) (tp_participants prop) = [] \<or>
      set (joining_ids (tp_participants cur) (tp_participants prop)) =
        {ps_next_id (tp_participants cur) ..< ps_next_id (tp_participants prop)})"

lemma validate_incoming_proposal_acceptable:
  assumes "parameters_wf cur"
  shows "validate_incoming_proposal cur prop = Inr () \<longleftrightarrow> proposal_acceptable cur prop"
proof (cases "parameters_wf prop \<and>
    (\<forall>e \<in> set (ps_participants (tp_participants prop)). entry_coherent (tp_participants cur) e)")
  case True
  let ?old = "tp_participants cur" and ?new = "tp_participants prop"
  let ?k = "length (retained ?old ?new)" and ?js = "joining_ids ?old ?new"
  have wf: "participants_wf ?old" "participants_wf ?new"
    using assms True by (auto simp: parameters_wf_def)
  have len: "?k + length ?js = participants_len ?new"
    by (simp add: joining_ids_def retained_joining_length)
  then have small: "?k < 2 ^ 32" "length ?js < 2 ^ 32"
    using participants_wf_len [OF wf(2)] by linarith+
  have loop: "proposal_loop ?old (ps_participants ?new) (- 1) 0 0 =
      Inr (fold min ?js (- 1), fold max ?js 0, of_nat ?k)"
    using True by (simp add: proposal_loop_Inr [OF wf(1)] Let_def retained_def joining_ids_def
        joining_def)
  have old: "of_nat ?k < tp_threshold cur \<longleftrightarrow> ?k < unat (tp_threshold cur)"
    using small by (simp add: word_less_nat_alt unat_of_nat)
  have new: "of_nat (participants_len ?new) - of_nat ?k = (of_nat (length ?js) :: u64)"
    by (simp flip: len)
  have pos: "0 < (of_nat (length ?js) :: u64) \<longleftrightarrow> ?js \<noteq> []"
    using small by (simp add: word_less_nat_alt unat_of_nat)
  have contig: "?js \<noteq> [] \<Longrightarrow>
      (of_nat (length ?js) - 1 = (ucast (fold max ?js 0 - fold min ?js (- 1)) :: u64) \<and>
        fold min ?js (- 1) = ps_next_id ?old \<and> fold max ?js 0 + 1 = ps_next_id ?new)
      \<longleftrightarrow> set ?js = {ps_next_id ?old ..< ps_next_id ?new}"
    using contiguous_interval_iff [of "set ?js" "ps_next_id ?new" "ps_next_id ?old"]
      joining_ids_wf [OF wf(2), of ?old]
    by (simp add: fold_min_new fold_max_new distinct_card)
  have "validate_incoming_proposal cur prop = Inr () \<longleftrightarrow>
      unat (tp_threshold cur) \<le> ?k \<and>
      (?js = [] \<or> (of_nat (length ?js) - 1 = (ucast (fold max ?js 0 - fold min ?js (- 1)) :: u64) \<and>
        fold min ?js (- 1) = ps_next_id ?old \<and> fold max ?js 0 + 1 = ps_next_id ?new))"
    using True
    by (simp add: validate_incoming_proposal_def threshold_parameters_validate_iff
        and_then_eq_Inr loop old new pos Let_def not_less)
  then show ?thesis
    using True contig by (auto simp: proposal_acceptable_def)
next
  case False
  then show ?thesis
    using assms
    by (auto simp: validate_incoming_proposal_def threshold_parameters_validate_iff
        and_then_eq_Inr proposal_acceptable_def proposal_loop_Inr parameters_wf_def)
qed

lemma retained_card:
  assumes "participants_wf new"
  shows "length (retained old new) = card (set (accounts new) \<inter> set (accounts old))"
proof -
  have "distinct (map entry_account (retained old new))"
    using assms by (simp add: retained_def participants_wf_def accounts_def distinct_map_filter)
  then have "length (retained old new) = card (set (map entry_account (retained old new)))"
    by (metis distinct_card length_map)
  also have "set (map entry_account (retained old new)) = set (accounts new) \<inter> set (accounts old)"
    by (auto simp: retained_def accounts_def)
  finally show ?thesis .
qed

lemma proposal_acceptable_quorum:
  assumes "proposal_acceptable cur prop"
  shows "unat (tp_threshold cur) \<le>
    card (set (accounts (tp_participants prop)) \<inter> set (accounts (tp_participants cur)))"
  using assms retained_card [of "tp_participants prop"]
  by (simp add: proposal_acceptable_def parameters_wf_def)

section \<open>Quorums\<close>

text \<open>What the protocol relies on when it lets a group of participants decide.\<close>

locale quorum_system =
  fixes members :: "'a set"
    and quorum :: "'a set \<Rightarrow> bool"
  assumes finite_members: "finite members"
    and quorum_members: "quorum Q \<Longrightarrow> Q \<subseteq> members"
    and quorum_majority: "quorum Q \<Longrightarrow> card members < 2 * card Q"
begin

lemma quorums_intersect:
  assumes "quorum P" "quorum Q"
  shows "P \<inter> Q \<noteq> {}"
proof
  assume "P \<inter> Q = {}"
  moreover have "finite P" "finite Q" "P \<union> Q \<subseteq> members"
    using assms quorum_members finite_members by (blast intro: finite_subset)+
  ultimately have "card P + card Q \<le> card members"
    by (metis card_Un_disjoint card_mono finite_members)
  then show False
    using quorum_majority [OF assms(1)] quorum_majority [OF assms(2)] by linarith
qed

lemma quorum_nonempty: "quorum Q \<Longrightarrow> Q \<noteq> {}"
  using quorums_intersect by blast

end

definition threshold_quorum :: "threshold_parameters \<Rightarrow> account_id set \<Rightarrow> bool" where
  "threshold_quorum tp Q \<longleftrightarrow> parameters_wf tp \<and> Q \<subseteq> set (accounts (tp_participants tp)) \<and>
     unat (tp_threshold tp) \<le> card Q"

interpretation quorums: quorum_system "set (accounts (tp_participants tp))" "threshold_quorum tp"
  for tp
proof
  fix Q
  assume "threshold_quorum tp Q"
  then have "2 \<le> unat (tp_threshold tp)" "unat (tp_threshold tp) \<le> card Q"
    "3 * participants_len (tp_participants tp) \<le> 5 * unat (tp_threshold tp)"
    "distinct (accounts (tp_participants tp))"
    by (auto simp: threshold_quorum_def parameters_wf_def participants_wf_def)
  then show "card (set (accounts (tp_participants tp))) < 2 * card Q"
    by (simp add: distinct_card)
qed (auto simp: threshold_quorum_def)

section \<open>Properties\<close>

text \<open>Concrete parameters for the witnesses: three participants, and a fourth one joining.\<close>

definition sample_info :: participant_info where
  "sample_info = \<lparr>pi_url = ''u'', pi_sign_pk = NearPublicKey [0, 7]\<rparr>"

definition sample_params :: threshold_parameters where
  "sample_params = \<lparr>tp_participants = participants_init 3
     [(''a'', 0, sample_info), (''b'', 1, sample_info), (''c'', 2, sample_info)],
     tp_threshold = 2\<rparr>"

definition sample_proposal :: threshold_parameters where
  "sample_proposal = \<lparr>tp_participants = participants_init 4
     [(''a'', 0, sample_info), (''b'', 1, sample_info), (''c'', 2, sample_info),
      (''d'', 3, sample_info)],
     tp_threshold = 3\<rparr>"

lemma sample_params_wf: "parameters_wf sample_params"
  by code_simp

lemma sample_proposal_wf: "parameters_wf sample_proposal"
  by code_simp



text \<open>
  C14: under valid parameters any two groups of participants that reach the threshold have a
  participant in common: no two incompatible decisions can both collect a threshold of
  votes without somebody voting for both.
\<close>

theorem threshold_quorums_intersect:
  assumes "threshold_parameters_validate tp = Inr ()"
    and "P \<subseteq> set (accounts (tp_participants tp))" "unat (tp_threshold tp) \<le> card P"
    and "Q \<subseteq> set (accounts (tp_participants tp))" "unat (tp_threshold tp) \<le> card Q"
  shows "P \<inter> Q \<noteq> {}"
  using assms
  by (intro quorums.quorums_intersect [of tp])
    (auto simp: threshold_quorum_def threshold_parameters_validate_iff)

theorem threshold_quorums_intersect_witness:
  "{''a'', ''b''} \<inter> {''b'', ''c''} \<noteq> ({} :: account_id set) \<and>
   threshold_parameters_validate sample_params = Inr ()"
proof -
  have "threshold_parameters_validate sample_params = Inr ()"
    "{''a'', ''b''} \<subseteq> set (accounts (tp_participants sample_params))"
    "{''b'', ''c''} \<subseteq> set (accounts (tp_participants sample_params))"
    "unat (tp_threshold sample_params) \<le> card {''a'', ''b''}"
    "unat (tp_threshold sample_params) \<le> card {''b'', ''c''}"
    by code_simp+
  then show ?thesis
    using threshold_quorums_intersect [of sample_params "{''a'', ''b''}" "{''b'', ''c''}"] by blast
qed

end
