(* ===== verification/Key_State.thy ===== *)
theory Key_State
  imports Crypto_Keys Domains Thresholds
begin

text \<open>
  \<open>crates/contract/src/primitives/key_state.rs\<close> and \<open>votes.rs\<close>: epoch and attempt
  counters, key event identifiers, keysets, the two ways to authenticate the signer of a
  call as a participant, and the votes for new threshold parameters.
\<close>

definition epoch_next :: "epoch_id \<Rightarrow> epoch_id" where
  "epoch_next e = e + 1"

definition attempt_new :: attempt_id where
  "attempt_new = 0"

definition attempt_next :: "attempt_id \<Rightarrow> attempt_id" where
  "attempt_next a = a + 1"

record key_event_id =
  kei_epoch_id :: epoch_id
  kei_domain_id :: domain_id
  kei_attempt_id :: attempt_id

definition key_event_id_new :: "epoch_id \<Rightarrow> domain_id \<Rightarrow> attempt_id \<Rightarrow> key_event_id" where
  "key_event_id_new e d a = \<lparr>kei_epoch_id = e, kei_domain_id = d, kei_attempt_id = a\<rparr>"

record 'pt key_for_domain =
  kfd_domain_id :: domain_id
  kfd_key :: "'pt public_key_extended"
  kfd_attempt :: attempt_id

record 'pt keyset =
  ks_epoch_id :: epoch_id
  ks_domains :: "'pt key_for_domain list"

definition keyset_new :: "epoch_id \<Rightarrow> 'pt key_for_domain list \<Rightarrow> 'pt keyset" where
  "keyset_new e ds = \<lparr>ks_epoch_id = e, ks_domains = ds\<rparr>"

definition keyset_public_key :: "'pt keyset \<Rightarrow> domain_id \<Rightarrow> 'pt public_key_extended result" where
  "keyset_public_key ks i =
     and_then (ok_or (List.find (\<lambda>k. kfd_domain_id k = i) (ks_domains ks)) (DomainErr NoSuchDomain))
       (\<lambda>k. Inr (kfd_key k))"

definition authenticated_participant_id :: "env \<Rightarrow> participants \<Rightarrow> participant_id result" where
  "authenticated_participant_id env ps =
     ok_or (map_option (\<lambda>(_, p_id, _). p_id)
         (List.find (\<lambda>(a_id, _, _). a_id = signer_account_id env) (ps_participants ps)))
       (StateErr NotParticipant)"

definition authenticated_account_id :: "env \<Rightarrow> participants \<Rightarrow> account_id result" where
  "authenticated_account_id env ps =
     (if list_ex (\<lambda>(a_id, _, _). a_id = signer_account_id env) (ps_participants ps)
      then Inr (signer_account_id env) else Inl (StateErr NotParticipant))"

section \<open>Votes for threshold parameters\<close>

record threshold_parameters_votes =
  tpv_proposal_by_account :: "(account_id, threshold_parameters) btree_map"

definition tpv_default :: threshold_parameters_votes where
  "tpv_default = \<lparr>tpv_proposal_by_account = []\<rparr>"

definition n_votes :: "threshold_parameters \<Rightarrow> participants \<Rightarrow> threshold_parameters_votes \<Rightarrow> u64" where
  "n_votes proposal ps v =
     of_nat (length (filter (\<lambda>(acc, prop).
       list_ex (\<lambda>(acc_id, _, _). acc = acc_id) (ps_participants ps) \<and> prop = proposal)
       (tpv_proposal_by_account v)))"

definition tpv_vote ::
  "threshold_parameters \<Rightarrow> account_id \<Rightarrow> threshold_parameters_votes
    \<Rightarrow> u64 \<times> threshold_parameters_votes" where
  "tpv_vote proposal participant v =
     (let m = bt_insert participant proposal (tpv_proposal_by_account v) in
      (of_nat (length (filter (\<lambda>e. snd e = proposal) m)), v\<lparr>tpv_proposal_by_account := m\<rparr>))"

section \<open>Authentication\<close>

lemma authenticated_account_id_Inr [result_simps]:
  "authenticated_account_id env ps = Inr a \<longleftrightarrow>
    a = signer_account_id env \<and> signer_account_id env \<in> set (accounts ps)"
  unfolding authenticated_account_id_def is_participant_account_iff [symmetric]
    is_participant_given_account_id_def
  by auto

lemma authenticated_account_id_Inl:
  "authenticated_account_id env ps = Inl e \<longleftrightarrow>
    signer_account_id env \<notin> set (accounts ps) \<and> e = StateErr NotParticipant"
  unfolding authenticated_account_id_def is_participant_account_iff [symmetric]
    is_participant_given_account_id_def
  by auto

lemma find_account_Some:
  assumes "distinct (map fst es)"
  shows "List.find (\<lambda>(a_id, _, _). a_id = a) es = Some e \<longleftrightarrow> e \<in> set es \<and> fst e = a"
  using assms by (induction es) (auto simp: image_iff split: prod.splits)

lemma authenticated_participant_id_Inr:
  assumes "distinct (accounts ps)"
  shows "authenticated_participant_id env ps = Inr i \<longleftrightarrow>
    (\<exists>info. (signer_account_id env, i, info) \<in> set (ps_participants ps))"
  using assms
  by (force simp: authenticated_participant_id_def ok_or_eq_Inr accounts_def find_account_Some
      split: prod.splits)

lemma authenticated_participant_id_in:
  "authenticated_participant_id env ps = Inr i \<Longrightarrow>
    i \<in> set (ids ps) \<and> signer_account_id env \<in> set (accounts ps)"
  by (force simp: authenticated_participant_id_def ok_or_eq_Inr ids_def accounts_def
      dest!: find_Some_in)

lemma authenticated_participant_id_ok:
  "(\<exists>i. authenticated_participant_id env ps = Inr i) \<longleftrightarrow> signer_account_id env \<in> set (accounts ps)"
proof
  assume "signer_account_id env \<in> set (accounts ps)"
  then have "List.find (\<lambda>(a_id, _, _). a_id = signer_account_id env) (ps_participants ps) \<noteq> None"
    by (auto simp: find_None_iff accounts_def) blast
  then show "\<exists>i. authenticated_participant_id env ps = Inr i"
    by (auto simp: authenticated_participant_id_def)
qed (auto dest: authenticated_participant_id_in)

lemma authenticated_participant_id_Inl:
  "authenticated_participant_id env ps = Inl e \<Longrightarrow> e = StateErr NotParticipant"
  by (simp add: authenticated_participant_id_def ok_or_eq_Inl)

text \<open>Different participants are authenticated with different identifiers.\<close>

lemma authenticated_participant_id_inj:
  assumes "participants_wf ps"
    and "authenticated_participant_id env1 ps = Inr i" "authenticated_participant_id env2 ps = Inr i"
  shows "signer_account_id env1 = signer_account_id env2"
proof -
  from assms obtain info1 info2
    where "(signer_account_id env1, i, info1) \<in> set (ps_participants ps)"
      "(signer_account_id env2, i, info2) \<in> set (ps_participants ps)"
    by (auto simp: authenticated_participant_id_Inr participants_wf_def)
  moreover have "inj_on entry_id (set (ps_participants ps))"
    using assms(1) by (simp add: participants_wf_def ids_def distinct_map)
  ultimately have "(signer_account_id env1, i, info1) = (signer_account_id env2, i, info2)"
    by (elim inj_onD) simp_all
  then show ?thesis by simp
qed

section \<open>Counting votes\<close>

definition proposal_voters ::
  "threshold_parameters \<Rightarrow> threshold_parameters_votes \<Rightarrow> account_id set" where
  "proposal_voters proposal v = {a. bt_get (tpv_proposal_by_account v) a = Some proposal}"

lemma finite_proposal_voters [simp]: "finite (proposal_voters proposal v)"
  using bt.finite_supporters by (simp add: proposal_voters_def bt_supporters)

lemma tpv_vote_result:
  assumes "bt_invar (tpv_proposal_by_account v)" "tpv_vote proposal a v = (n, v')"
  shows "n = of_nat (card (proposal_voters proposal v'))"
    "bt_invar (tpv_proposal_by_account v')"
    "bt_get (tpv_proposal_by_account v') = (bt_get (tpv_proposal_by_account v))(a \<mapsto> proposal)"
    "proposal_voters proposal v' = insert a (proposal_voters proposal v)"
proof -
  let ?m = "bt_insert a proposal (tpv_proposal_by_account v)"
  have v': "v' = v\<lparr>tpv_proposal_by_account := ?m\<rparr>" and n: "n = of_nat (bt.tally proposal ?m)"
    using assms(2) by (auto simp: tpv_vote_def Let_def bt.tally_def)
  then show "bt_get (tpv_proposal_by_account v') = (bt_get (tpv_proposal_by_account v))(a \<mapsto> proposal)"
    "bt_invar (tpv_proposal_by_account v')"
    using assms(1) by simp_all
  then show "proposal_voters proposal v' = insert a (proposal_voters proposal v)"
    by (auto simp: proposal_voters_def)
  show "n = of_nat (card (proposal_voters proposal v'))"
    using n v' bt.tally_card [of ?m proposal] assms(1)
    by (simp add: proposal_voters_def bt_supporters)
qed

lemma n_votes_card:
  assumes "bt_invar (tpv_proposal_by_account v)"
  shows "n_votes proposal ps v = of_nat (card (proposal_voters proposal v \<inter> set (accounts ps)))"
proof -
  let ?m = "filter (\<lambda>e. fst e \<in> set (accounts ps)) (tpv_proposal_by_account v)"
  have "(\<lambda>(acc, prop). list_ex (\<lambda>(acc_id, _, _). acc = acc_id) (ps_participants ps) \<and> prop = proposal)
      = (\<lambda>e. fst e \<in> set (accounts ps) \<and> snd e = proposal)"
    by (force simp: accounts_def list_ex_iff fun_eq_iff)
  then have "n_votes proposal ps v = of_nat (bt.tally proposal ?m)"
    by (simp add: n_votes_def bt.tally_def)
  also have "bt.tally proposal ?m = card (bt.supporters proposal ?m)"
    using assms by (intro bt.tally_card) simp
  also have "bt.supporters proposal ?m = proposal_voters proposal v \<inter> set (accounts ps)"
    using bt_get_filter_keys [of "\<lambda>k. k \<in> set (accounts ps)" "tpv_proposal_by_account v"]
    by (auto simp: bt_supporters proposal_voters_def split: if_splits)
  finally show ?thesis .
qed

lemma keyset_public_key_Inr:
  assumes "distinct (map kfd_domain_id (ks_domains ks))"
  shows "keyset_public_key ks i = Inr k \<longleftrightarrow>
    (\<exists>kfd \<in> set (ks_domains ks). kfd_domain_id kfd = i \<and> kfd_key kfd = k)"
proof -
  have inj: "inj_on kfd_domain_id (set (ks_domains ks))"
    using assms by (simp add: distinct_map)
  show ?thesis
  proof (cases "List.find (\<lambda>k. kfd_domain_id k = i) (ks_domains ks)")
    case None
    moreover have "\<forall>k \<in> set (ks_domains ks). kfd_domain_id k \<noteq> i"
      using None by (simp add: find_None_iff)
    ultimately show ?thesis
      by (simp add: keyset_public_key_def)
  next
    case (Some x)
    then have "x \<in> set (ks_domains ks)" "kfd_domain_id x = i"
      by (auto dest: find_Some_in)
    then show ?thesis
      using Some inj by (auto simp: keyset_public_key_def dest: inj_onD)
  qed
qed

end
