(* ===== verification/Key_Event.thy ===== *)
theory Key_Event
  imports Key_State
begin

text \<open>
  \<open>crates/contract/src/state/key_event.rs\<close>: one key generation or resharing. The leader
  starts attempts; every participant votes that it finished the attempt with a public key;
  the event succeeds when all of them voted for the same key in the same attempt before the
  attempt expired.
\<close>

record 'pt key_event_instance =
  kin_attempt_id :: attempt_id
  kin_started_in :: u64
  kin_expires_on :: u64
  kin_completed :: "participant_id set"
  kin_public_key :: "'pt public_key_extended option"

record 'pt key_event =
  ke_epoch_id :: epoch_id
  ke_domain :: domain_config
  ke_parameters :: threshold_parameters
  ke_instance :: "'pt key_event_instance option"
  ke_next_attempt_id :: attempt_id

datatype vote_success_result = Voted nat | PublicKeyDisagreement

section \<open>A single attempt\<close>

definition instance_new :: "env \<Rightarrow> attempt_id \<Rightarrow> u64 \<Rightarrow> 'pt key_event_instance" where
  "instance_new env attempt timeout_blocks =
     \<lparr>kin_attempt_id = attempt, kin_started_in = block_height env,
      kin_expires_on = block_height env + 1 + timeout_blocks,
      kin_completed = {}, kin_public_key = None\<rparr>"

definition instance_active :: "env \<Rightarrow> 'pt key_event_instance \<Rightarrow> bool" where
  "instance_active env inst \<longleftrightarrow> block_height env < kin_expires_on inst"

definition instance_vote_success ::
  "participant_id \<Rightarrow> 'pt public_key_extended \<Rightarrow> 'pt key_event_instance
    \<Rightarrow> (vote_success_result \<times> 'pt key_event_instance) result" where
  "instance_vote_success candidate pk inst =
     (let complete = (\<lambda>inst.
        if candidate \<in> kin_completed inst then Inl (VoteErr VoteAlreadySubmitted)
        else let inst' = inst\<lparr>kin_completed := insert candidate (kin_completed inst)\<rparr> in
          Inr (Voted (card (kin_completed inst')), inst')) in
      case kin_public_key inst of
        Some existing \<Rightarrow>
          if existing \<noteq> pk then Inr (PublicKeyDisagreement, inst) else complete inst
      | None \<Rightarrow> complete (inst\<lparr>kin_public_key := Some pk\<rparr>))"

section \<open>Key events\<close>

definition key_event_new ::
  "epoch_id \<Rightarrow> domain_config \<Rightarrow> threshold_parameters \<Rightarrow> 'pt key_event" where
  "key_event_new e d proposed_parameters =
     \<lparr>ke_epoch_id = e, ke_domain = d, ke_parameters = proposed_parameters,
      ke_instance = None, ke_next_attempt_id = attempt_new\<rparr>"

definition key_event_from_raw ::
  "epoch_id \<Rightarrow> domain_config \<Rightarrow> threshold_parameters \<Rightarrow> 'pt key_event_instance option \<Rightarrow> attempt_id
    \<Rightarrow> 'pt key_event" where
  "key_event_from_raw e d parameters inst n =
     \<lparr>ke_epoch_id = e, ke_domain = d, ke_parameters = parameters,
      ke_instance = inst, ke_next_attempt_id = n\<rparr>"

definition cleanup_if_timed_out :: "env \<Rightarrow> 'pt key_event \<Rightarrow> 'pt key_event" where
  "cleanup_if_timed_out env ke =
     (case ke_instance ke of
        Some inst \<Rightarrow> if \<not> instance_active env inst then ke\<lparr>ke_instance := None\<rparr> else ke
      | None \<Rightarrow> ke)"

definition verify_leader :: "env \<Rightarrow> 'pt key_event \<Rightarrow> unit result" where
  "verify_leader env ke =
     (case min_by_key entry_id (ps_participants (tp_participants (ke_parameters ke))) of
        None \<Rightarrow> Inl Panicked
      | Some leader \<Rightarrow>
          if entry_account leader \<noteq> signer_account_id env then Inl (VoteErr VoterNotLeader)
          else Inr ())"

definition key_event_start ::
  "env \<Rightarrow> key_event_id \<Rightarrow> u64 \<Rightarrow> 'pt key_event \<Rightarrow> 'pt key_event result" where
  "key_event_start env kei timeout_blocks ke0 =
     (let ke = cleanup_if_timed_out env ke0 in
      if ke_instance ke \<noteq> None then Inl (KeyEventErr ActiveKeyEvent)
      else if kei \<noteq> key_event_id_new (ke_epoch_id ke) (dc_id (ke_domain ke)) (ke_next_attempt_id ke)
      then Inl (KeyEventErr KeyEventIdMismatch)
      else and_then (verify_leader env ke) (\<lambda>_.
        Inr (ke\<lparr>ke_instance := Some (instance_new env (ke_next_attempt_id ke) timeout_blocks),
                ke_next_attempt_id := attempt_next (ke_next_attempt_id ke)\<rparr>)))"

definition verify_vote ::
  "env \<Rightarrow> key_event_id \<Rightarrow> 'pt key_event \<Rightarrow> (participant_id \<times> 'pt key_event) result" where
  "verify_vote env kei ke0 =
     and_then (authenticated_participant_id env (tp_participants (ke_parameters ke0))) (\<lambda>candidate.
       let ke = cleanup_if_timed_out env ke0 in
       case ke_instance ke of
         None \<Rightarrow> Inl (KeyEventErr NoActiveKeyEvent)
       | Some inst \<Rightarrow>
           if kei_epoch_id kei \<noteq> ke_epoch_id ke \<or> kei_domain_id kei \<noteq> dc_id (ke_domain ke)
             \<or> kei_attempt_id kei \<noteq> kin_attempt_id inst
           then Inl (KeyEventErr KeyEventIdMismatch)
           else Inr (candidate, ke))"

definition key_event_vote_success ::
  "env \<Rightarrow> key_event_id \<Rightarrow> 'pt public_key_extended \<Rightarrow> 'pt key_event
    \<Rightarrow> (bool \<times> 'pt key_event) result" where
  "key_event_vote_success env kei pk ke0 =
     and_then (verify_vote env kei ke0) (\<lambda>(candidate, ke).
       case ke_instance ke of
         None \<Rightarrow> Inl Panicked
       | Some inst \<Rightarrow>
           and_then (instance_vote_success candidate pk inst) (\<lambda>(r, inst').
             case r of
               Voted count \<Rightarrow>
                 let ke' = ke\<lparr>ke_instance := Some inst'\<rparr> in
                 if count = participants_len (tp_participants (ke_parameters ke'))
                 then Inr (True, ke') else Inr (False, ke')
             | PublicKeyDisagreement \<Rightarrow> Inr (False, ke\<lparr>ke_instance := None\<rparr>)))"

definition key_event_vote_abort ::
  "env \<Rightarrow> key_event_id \<Rightarrow> 'pt key_event \<Rightarrow> 'pt key_event result" where
  "key_event_vote_abort env kei ke0 =
     and_then (verify_vote env kei ke0) (\<lambda>(candidate, ke).
       case ke_instance ke of
         None \<Rightarrow> Inl Panicked
       | Some inst \<Rightarrow>
           if candidate \<in> kin_completed inst then Inl (VoteErr VoteAlreadySubmitted)
           else Inr (ke\<lparr>ke_instance := None\<rparr>))"

definition current_key_event_id :: "env \<Rightarrow> 'pt key_event \<Rightarrow> key_event_id option" where
  "current_key_event_id env ke =
     (case ke_instance ke of
        None \<Rightarrow> None
      | Some inst \<Rightarrow>
          if kin_expires_on inst \<le> block_height env then None
          else Some (key_event_id_new (ke_epoch_id ke) (dc_id (ke_domain ke)) (kin_attempt_id inst)))"

section \<open>Invariant\<close>

abbreviation ke_participants :: "'pt key_event \<Rightarrow> participants" where
  "ke_participants ke \<equiv> tp_participants (ke_parameters ke)"

definition instance_inv :: "participants \<Rightarrow> 'pt key_event_instance \<Rightarrow> bool" where
  "instance_inv ps inst \<longleftrightarrow>
     kin_completed inst \<subset> set (ids ps) \<and>
     (kin_public_key inst = None \<longleftrightarrow> kin_completed inst = {})"

definition key_event_inv :: "'pt key_event \<Rightarrow> bool" where
  "key_event_inv ke \<longleftrightarrow>
     parameters_wf (ke_parameters ke) \<and>
     (case ke_instance ke of None \<Rightarrow> True
      | Some inst \<Rightarrow> instance_inv (ke_participants ke) inst \<and>
          kin_attempt_id inst + 1 = ke_next_attempt_id ke)"

text \<open>What an operation on a key event may never change.\<close>

definition ke_frame :: "'pt key_event \<Rightarrow> 'pt key_event \<Rightarrow> bool" where
  "ke_frame ke ke' \<longleftrightarrow> ke_epoch_id ke' = ke_epoch_id ke \<and> ke_domain ke' = ke_domain ke \<and>
     ke_parameters ke' = ke_parameters ke"

lemma ke_frame_simps [simp]:
  "ke_frame ke ke"
  "ke_frame ke (ke\<lparr>ke_instance := i\<rparr>)"
  "ke_frame ke (ke\<lparr>ke_instance := i, ke_next_attempt_id := n\<rparr>)"
  "ke_frame ke (cleanup_if_timed_out env ke)"
  by (auto simp: ke_frame_def cleanup_if_timed_out_def split: option.splits)

lemma cleanup_simps [simp]:
  "ke_epoch_id (cleanup_if_timed_out env ke) = ke_epoch_id ke"
  "ke_domain (cleanup_if_timed_out env ke) = ke_domain ke"
  "ke_parameters (cleanup_if_timed_out env ke) = ke_parameters ke"
  "ke_next_attempt_id (cleanup_if_timed_out env ke) = ke_next_attempt_id ke"
  by (auto simp: cleanup_if_timed_out_def split: option.splits)

lemma cleanup_instance:
  "ke_instance (cleanup_if_timed_out env ke) = Some inst \<longleftrightarrow>
    ke_instance ke = Some inst \<and> instance_active env inst"
  by (auto simp: cleanup_if_timed_out_def split: option.splits)

lemma cleanup_active:
  "ke_instance ke = Some inst \<Longrightarrow> instance_active env inst \<Longrightarrow> cleanup_if_timed_out env ke = ke"
  by (simp add: cleanup_if_timed_out_def)

lemma key_event_inv_new: "parameters_wf tp \<Longrightarrow> key_event_inv (key_event_new e d tp)"
  by (simp add: key_event_inv_def key_event_new_def)

lemma key_event_inv_cleanup: "key_event_inv ke \<Longrightarrow> key_event_inv (cleanup_if_timed_out env ke)"
  by (auto simp: key_event_inv_def cleanup_if_timed_out_def split: option.splits)

lemma parameters_wf_nonempty:
  "parameters_wf tp \<Longrightarrow> ps_participants (tp_participants tp) \<noteq> []"
  by (auto simp: parameters_wf_def participants_len_def)

lemma verify_vote_Inr:
  "verify_vote env kei ke0 = Inr (c, ke) \<longleftrightarrow>
     ke = ke0 \<and> authenticated_participant_id env (ke_participants ke0) = Inr c \<and>
     (\<exists>inst. ke_instance ke0 = Some inst \<and> instance_active env inst \<and>
        kei = key_event_id_new (ke_epoch_id ke0) (dc_id (ke_domain ke0)) (kin_attempt_id inst))"
  by (auto simp: verify_vote_def and_then_eq_Inr Let_def key_event_id_new_def cleanup_instance
      cleanup_active split: option.splits if_splits)

lemma instance_vote_success_Inr:
  "instance_vote_success c pk inst = Inr (r, inst') \<longleftrightarrow>
     (\<exists>old. kin_public_key inst = Some old \<and> old \<noteq> pk) \<and> r = PublicKeyDisagreement \<and> inst' = inst \<or>
     (kin_public_key inst = None \<or> kin_public_key inst = Some pk) \<and> c \<notin> kin_completed inst \<and>
       inst' = inst\<lparr>kin_public_key := Some pk, kin_completed := insert c (kin_completed inst)\<rparr> \<and>
       r = Voted (Suc (card (kin_completed inst)))"
  by (cases inst) (auto simp: instance_vote_success_def Let_def split: option.splits)

lemma verify_leader_Inr:
  assumes "parameters_wf (ke_parameters ke)"
  shows "verify_leader env ke = Inr () \<longleftrightarrow>
    (\<exists>i info. (signer_account_id env, i, info) \<in> set (ps_participants (ke_participants ke)) \<and>
       (\<forall>j \<in> set (ids (ke_participants ke)). i \<le> j))"
proof -
  let ?es = "ps_participants (ke_participants ke)"
  obtain l where l: "min_by_key entry_id ?es = Some l"
    using parameters_wf_nonempty [OF assms] by (cases "min_by_key entry_id ?es") auto
  then have min: "l \<in> set ?es" "\<forall>j \<in> set (ids (ke_participants ke)). entry_id l \<le> j"
    using min_by_key_Some [OF l] by (auto simp: ids_def)
  have inj: "inj_on entry_id (set ?es)"
    using assms by (simp add: parameters_wf_def participants_wf_def ids_def distinct_map)
  have "e = l" if "e \<in> set ?es" "\<forall>j \<in> set (ids (ke_participants ke)). entry_id e \<le> j" for e
  proof (rule inj_onD [OF inj _ that(1) min(1)])
    show "entry_id e = entry_id l"
      using that min by (auto simp: ids_def intro!: antisym)
  qed
  then have unique: "(signer_account_id env, i, info) = l"
    if "(signer_account_id env, i, info) \<in> set ?es" "\<forall>j \<in> set (ids (ke_participants ke)). i \<le> j"
    for i info using that by simp
  have "verify_leader env ke = Inr () \<longleftrightarrow> entry_account l = signer_account_id env"
    by (simp add: verify_leader_def l)
  also have "\<dots> \<longleftrightarrow> (\<exists>i info. (signer_account_id env, i, info) \<in> set ?es \<and>
      (\<forall>j \<in> set (ids (ke_participants ke)). i \<le> j))"
  proof
    assume "entry_account l = signer_account_id env"
    then show "\<exists>i info. (signer_account_id env, i, info) \<in> set ?es \<and>
        (\<forall>j \<in> set (ids (ke_participants ke)). i \<le> j)"
      using min by (intro exI [of _ "entry_id l"] exI [of _ "entry_info l"]) (cases l, simp)
  next
    assume "\<exists>i info. (signer_account_id env, i, info) \<in> set ?es \<and>
        (\<forall>j \<in> set (ids (ke_participants ke)). i \<le> j)"
    then obtain i info where "(signer_account_id env, i, info) = l"
      using unique by blast
    then show "entry_account l = signer_account_id env" by (metis fst_conv)
  qed
  finally show ?thesis .
qed

lemma verify_leader_not_panicked:
  "parameters_wf (ke_parameters ke) \<Longrightarrow> verify_leader env ke \<noteq> Inl Panicked"
  using parameters_wf_nonempty [of "ke_parameters ke"]
  by (auto simp: verify_leader_def split: option.splits)

lemma key_event_start_Inr:
  "key_event_start env kei t ke = Inr ke' \<longleftrightarrow>
     (\<forall>inst. ke_instance ke = Some inst \<longrightarrow> \<not> instance_active env inst) \<and>
     kei = key_event_id_new (ke_epoch_id ke) (dc_id (ke_domain ke)) (ke_next_attempt_id ke) \<and>
     verify_leader env ke = Inr () \<and>
     ke' = ke\<lparr>ke_instance := Some (instance_new env (ke_next_attempt_id ke) t),
              ke_next_attempt_id := ke_next_attempt_id ke + 1\<rparr>"
proof -
  have "ke_instance (cleanup_if_timed_out env ke) = None \<longleftrightarrow>
      (\<forall>inst. ke_instance ke = Some inst \<longrightarrow> \<not> instance_active env inst)"
    by (auto simp: cleanup_if_timed_out_def split: option.splits)
  moreover have "verify_leader env (cleanup_if_timed_out env ke) = verify_leader env ke"
    by (simp add: verify_leader_def)
  moreover have "(cleanup_if_timed_out env ke)\<lparr>ke_instance := i, ke_next_attempt_id := n\<rparr> =
      ke\<lparr>ke_instance := i, ke_next_attempt_id := n\<rparr>" for i n
    by (auto simp: cleanup_if_timed_out_def split: option.splits)
  ultimately show ?thesis
    by (auto simp: key_event_start_def Let_def and_then_eq_Inr attempt_next_def)
qed

lemma key_event_vote_success_cases:
  assumes "key_event_vote_success env kei pk ke = Inr (b, ke')"
  obtains (disagree) c inst old where "verify_vote env kei ke = Inr (c, ke)" "ke_instance ke = Some inst"
    "kin_public_key inst = Some old" "old \<noteq> pk" "b = False" "ke' = ke\<lparr>ke_instance := None\<rparr>"
  | (voted) c inst where "verify_vote env kei ke = Inr (c, ke)" "ke_instance ke = Some inst"
    "kin_public_key inst = None \<or> kin_public_key inst = Some pk" "c \<notin> kin_completed inst"
    "ke' = ke\<lparr>ke_instance := Some (inst\<lparr>kin_public_key := Some pk,
        kin_completed := insert c (kin_completed inst)\<rparr>)\<rparr>"
    "b \<longleftrightarrow> Suc (card (kin_completed inst)) = participants_len (ke_participants ke)"
proof -
  from assms obtain c inst where v: "verify_vote env kei ke = Inr (c, ke)" "ke_instance ke = Some inst"
    by (auto simp: key_event_vote_success_def verify_vote_Inr elim!: and_then_InrE)
  have res: "key_event_vote_success env kei pk ke =
      and_then (instance_vote_success c pk inst) (\<lambda>(r, inst'). case r of
        Voted count \<Rightarrow>
          Inr (count = participants_len (ke_participants ke), ke\<lparr>ke_instance := Some inst'\<rparr>)
      | PublicKeyDisagreement \<Rightarrow> Inr (False, ke\<lparr>ke_instance := None\<rparr>))"
    using v by (auto simp: key_event_vote_success_def Let_def intro!: arg_cong [of _ _ "and_then _"]
        split: vote_success_result.splits)
  show thesis
  proof (cases "instance_vote_success c pk inst")
    case (Inl e)
    with res assms show ?thesis by simp
  next
    case (Inr ri)
    obtain r inst' where ri: "ri = (r, inst')" by (cases ri)
    with Inr have "instance_vote_success c pk inst = Inr (r, inst')" by simp
    with res assms v that show ?thesis
      by (cases r) (auto simp: instance_vote_success_Inr)
  qed
qed

lemma key_event_vote_abort_Inr:
  "key_event_vote_abort env kei ke = Inr ke' \<longleftrightarrow>
     (\<exists>c inst. verify_vote env kei ke = Inr (c, ke) \<and> ke_instance ke = Some inst \<and>
        c \<notin> kin_completed inst \<and> ke' = ke\<lparr>ke_instance := None\<rparr>)"
  by (fastforce simp: key_event_vote_abort_def and_then_eq_Inr verify_vote_Inr
      split: option.splits if_splits)

section \<open>Preservation\<close>

lemma key_event_start_inv:
  assumes "key_event_start env kei t ke = Inr ke'" "key_event_inv ke"
  shows "key_event_inv ke'" "ke_frame ke ke'"
proof -
  have "ids (ke_participants ke) \<noteq> []"
    using assms(2) parameters_wf_nonempty [of "ke_parameters ke"]
    by (simp add: key_event_inv_def ids_def)
  then show "key_event_inv ke'" "ke_frame ke ke'"
    using assms by (auto simp: key_event_start_Inr key_event_inv_def instance_new_def
        instance_inv_def ke_frame_def)
qed

lemma key_event_vote_success_frame:
  "key_event_vote_success env kei pk ke = Inr (b, ke') \<Longrightarrow> ke_frame ke ke'"
  by (erule key_event_vote_success_cases) auto

lemma card_ids: "participants_wf ps \<Longrightarrow> card (set (ids ps)) = participants_len ps"
  by (simp add: participants_wf_def distinct_card)

lemma key_event_vote_success_True:
  assumes "key_event_vote_success env kei pk ke = Inr (True, ke')" "key_event_inv ke"
  obtains c inst where "verify_vote env kei ke = Inr (c, ke)" "ke_instance ke = Some inst"
    "c \<notin> kin_completed inst" "insert c (kin_completed inst) = set (ids (ke_participants ke))"
    "kin_public_key inst = None \<or> kin_public_key inst = Some pk"
  using assms(1)
proof (cases rule: key_event_vote_success_cases)
  case (voted c inst)
  have "c \<in> set (ids (ke_participants ke))"
    using voted(1) authenticated_participant_id_in by (auto simp: verify_vote_Inr)
  moreover have "kin_completed inst \<subseteq> set (ids (ke_participants ke))"
    "participants_wf (ke_participants ke)"
    using assms(2) voted(2) by (auto simp: key_event_inv_def instance_inv_def parameters_wf_def)
  ultimately have "insert c (kin_completed inst) = set (ids (ke_participants ke))"
    using voted(4,6) by (intro card_subset_eq) (auto simp: card_ids)
  with voted show thesis by (intro that)
qed simp

lemma key_event_vote_success_inv:
  assumes "key_event_vote_success env kei pk ke = Inr (False, ke')" "key_event_inv ke"
  shows "key_event_inv ke'"
  using assms(1)
proof (cases rule: key_event_vote_success_cases)
  case (voted c inst)
  have "c \<in> set (ids (ke_participants ke))"
    using voted(1) authenticated_participant_id_in by (auto simp: verify_vote_Inr)
  moreover have inst: "kin_completed inst \<subseteq> set (ids (ke_participants ke))"
    and wf: "participants_wf (ke_participants ke)"
    using assms(2) voted(2) by (auto simp: key_event_inv_def instance_inv_def parameters_wf_def)
  moreover have "insert c (kin_completed inst) \<noteq> set (ids (ke_participants ke))"
  proof
    assume "insert c (kin_completed inst) = set (ids (ke_participants ke))"
    then have "Suc (card (kin_completed inst)) = participants_len (ke_participants ke)"
      using voted(4) card_ids [OF wf] by (metis card_insert_disjoint finite)
    with voted(6) show False by simp
  qed
  ultimately show ?thesis
    using assms(2) voted by (auto simp: key_event_inv_def instance_inv_def)
qed (use assms(2) in \<open>auto simp: key_event_inv_def\<close>)

lemma key_event_vote_abort_inv:
  assumes "key_event_vote_abort env kei ke = Inr ke'" "key_event_inv ke"
  shows "key_event_inv ke'" "ke_frame ke ke'"
  using assms by (auto simp: key_event_vote_abort_Inr key_event_inv_def)

text \<open>The two \<open>unwrap\<close>s after \<open>verify_vote\<close> never fail.\<close>

lemma key_event_votes_not_panicked:
  "key_event_vote_success env kei pk ke \<noteq> Inl Panicked"
  "key_event_vote_abort env kei ke \<noteq> Inl Panicked"
proof -
  have *: "verify_vote env kei ke \<noteq> Inl Panicked"
    by (auto simp: verify_vote_def and_then_eq_Inl Let_def split: option.splits
        dest: authenticated_participant_id_Inl)
  then show "key_event_vote_abort env kei ke \<noteq> Inl Panicked"
    by (auto simp: key_event_vote_abort_def and_then_eq_Inl verify_vote_Inr split: option.splits)
  show "key_event_vote_success env kei pk ke \<noteq> Inl Panicked"
    using * by (auto simp: key_event_vote_success_def and_then_eq_Inl verify_vote_Inr Let_def
        instance_vote_success_def split: option.splits vote_success_result.splits if_splits)
qed

section \<open>Runs of a key event\<close>

text \<open>
  The life of one key event, with the list of the votes that were accepted so far and did
  not complete it: who voted, in which attempt, for which key.
\<close>

inductive key_event_run ::
  "'pt key_event \<Rightarrow> (participant_id \<times> key_event_id \<times> 'pt public_key_extended) list
    \<Rightarrow> 'pt key_event \<Rightarrow> bool" for ke0 where
  init: "key_event_run ke0 [] ke0"
| start: "key_event_run ke0 log ke \<Longrightarrow> key_event_start env kei timeout ke = Inr ke' \<Longrightarrow>
    key_event_run ke0 log ke'"
| abort: "key_event_run ke0 log ke \<Longrightarrow> key_event_vote_abort env kei ke = Inr ke' \<Longrightarrow>
    key_event_run ke0 log ke'"
| vote: "key_event_run ke0 log ke \<Longrightarrow>
    authenticated_participant_id env (ke_participants ke) = Inr c \<Longrightarrow>
    key_event_vote_success env kei pk ke = Inr (False, ke') \<Longrightarrow>
    key_event_run ke0 ((c, kei, pk) # log) ke'"

text \<open>Every recorded completion of the current attempt is an accepted vote for its key.\<close>

definition logged :: "(participant_id \<times> key_event_id \<times> 'pt public_key_extended) list
    \<Rightarrow> 'pt key_event \<Rightarrow> bool" where
  "logged log ke \<longleftrightarrow> (\<forall>inst. ke_instance ke = Some inst \<longrightarrow>
     (\<forall>i \<in> kin_completed inst. \<exists>pk. kin_public_key inst = Some pk \<and>
       (i, key_event_id_new (ke_epoch_id ke) (dc_id (ke_domain ke)) (kin_attempt_id inst), pk)
         \<in> set log))"

lemma logged_vote:
  assumes "logged log ke" "key_event_vote_success env kei pk ke = Inr (False, ke')"
    and "authenticated_participant_id env (ke_participants ke) = Inr c"
  shows "logged ((c, kei, pk) # log) ke'"
  using assms(2)
proof (cases rule: key_event_vote_success_cases)
  case disagree
  then show ?thesis by (simp add: logged_def)
next
  case (voted c' inst)
  then have "c' = c"
    "kei = key_event_id_new (ke_epoch_id ke) (dc_id (ke_domain ke)) (kin_attempt_id inst)"
    using assms(3) by (auto simp: verify_vote_Inr)
  with voted assms(1) show ?thesis
    by (fastforce simp: logged_def)
qed

lemma key_event_run_inv:
  assumes "key_event_run ke0 log ke" "key_event_inv ke0" "ke_instance ke0 = None"
  shows "key_event_inv ke \<and> ke_frame ke0 ke \<and> logged log ke"
  using assms
proof (induction rule: key_event_run.induct)
  case init
  then show ?case by (simp add: logged_def)
next
  case (start log ke env kei timeout ke')
  then have "key_event_inv ke'" "ke_frame ke ke'" "logged log ke'"
    using key_event_start_inv [OF start.hyps(2)]
    by (auto simp: key_event_start_Inr logged_def instance_new_def)
  then show ?case using start by (auto simp: ke_frame_def)
next
  case (abort log ke env kei ke')
  then have "key_event_inv ke'" "ke_frame ke ke'" "logged log ke'"
    using key_event_vote_abort_inv [OF abort.hyps(2)]
    by (auto simp: key_event_vote_abort_Inr logged_def)
  then show ?case using abort by (auto simp: ke_frame_def)
next
  case (vote log ke env c kei pk ke')
  then have "key_event_inv ke'" "ke_frame ke ke'" "logged ((c, kei, pk) # log) ke'"
    using key_event_vote_success_inv [OF vote.hyps(3)] key_event_vote_success_frame [OF vote.hyps(3)]
      logged_vote [OF _ vote.hyps(3,2)]
    by auto
  then show ?case using vote by (auto simp: ke_frame_def)
qed

section \<open>Properties\<close>

definition sample_env :: env where
  "sample_env = \<lparr>signer_account_id = ''a'', predecessor_account_id = ''a'',
     signer_account_pk = NearPublicKey [0, 7], current_account_id = ''m'',
     block_height = 100, block_timestamp = 0, prepaid_gas = 300000000000000,
     attached_deposit = 1, storage_byte_cost = 1, storage_usage_before = 10,
     storage_usage_after = 10, yield_data_id = [1]\<rparr>"

definition as_account :: "account_id \<Rightarrow> env \<Rightarrow> env" where
  "as_account a env = env\<lparr>signer_account_id := a, predecessor_account_id := a\<rparr>"

definition sample_domain :: domain_config where
  "sample_domain = \<lparr>dc_id = 0, dc_scheme = Secp256k1, dc_purpose = Sign\<rparr>"

definition sample_key :: "unit public_key_extended" where
  "sample_key = PkSecp256k1 (NearPublicKey [1, 5])"

definition sample_kei :: key_event_id where
  "sample_kei = key_event_id_new 4 0 0"

definition sample_event :: "unit key_event" where
  "sample_event = key_event_new 4 sample_domain sample_params"

text \<open>
  C7: a key event succeeds only unanimously. Whatever attempts, votes and aborts happened
  before, when a vote completes the event then every participant of the event has voted for
  the same public key under the same key event identifier (epoch, domain and attempt), and
  the voter is the last of them.
\<close>

theorem key_event_success_unanimous:
  assumes "parameters_wf tp"
    and "key_event_run (key_event_new e d tp) log ke"
    and "key_event_vote_success env kei pk ke = Inr (True, ke')"
  shows "\<exists>c. authenticated_participant_id env (tp_participants tp) = Inr c \<and>
    (\<forall>i \<in> set (ids (tp_participants tp)). i \<noteq> c \<longrightarrow> (i, kei, pk) \<in> set log) \<and>
    kei_epoch_id kei = e \<and> kei_domain_id kei = dc_id d"
proof -
  have ke0: "key_event_inv (key_event_new e d tp)"
    using assms(1) by (rule key_event_inv_new)
  have "ke_instance (key_event_new e d tp) = None"
    by (simp add: key_event_new_def)
  then have inv: "key_event_inv ke" "ke_frame (key_event_new e d tp) ke" "logged log ke"
    using key_event_run_inv [OF assms(2) ke0] by auto
  from assms(3) inv(1) show ?thesis
  proof (rule key_event_vote_success_True)
    fix c inst
    assume v: "verify_vote env kei ke = Inr (c, ke)" "ke_instance ke = Some inst"
      "c \<notin> kin_completed inst" "insert c (kin_completed inst) = set (ids (ke_participants ke))"
      "kin_public_key inst = None \<or> kin_public_key inst = Some pk"
    have tp: "ke_parameters ke = tp" "ke_epoch_id ke = e" "ke_domain ke = d"
      using inv(2) by (auto simp: ke_frame_def key_event_new_def)
    then have kei: "kei = key_event_id_new e (dc_id d) (kin_attempt_id inst)"
      "authenticated_participant_id env (tp_participants tp) = Inr c"
      using v(1,2) by (auto simp: verify_vote_Inr)
    have "(i, kei, pk) \<in> set log" if "i \<in> kin_completed inst" for i
      using that inv(3) v(2,5) tp kei(1) by (fastforce simp: logged_def)
    then show ?thesis
      using kei tp v(4) by (auto simp: key_event_id_new_def)
  qed
qed

lemma sample_run:
  "\<exists>ke ke'. key_event_run sample_event [(1, sample_kei, sample_key), (0, sample_kei, sample_key)] ke \<and>
    key_event_vote_success (as_account ''c'' sample_env) sample_kei sample_key ke = Inr (True, ke')"
proof -
  let ?k1 = "sample_event\<lparr>ke_instance := Some (instance_new sample_env 0 30), ke_next_attempt_id := 1\<rparr>"
  let ?inst = "\<lambda>is. (instance_new sample_env 0 30)\<lparr>kin_completed := is, kin_public_key := Some sample_key\<rparr>"
  let ?k = "\<lambda>is. sample_event\<lparr>ke_instance := Some (?inst is), ke_next_attempt_id := 1\<rparr>"
  have "key_event_start sample_env sample_kei 30 sample_event = Inr ?k1"
    by code_simp
  then have "key_event_run sample_event [] ?k1"
    by (rule key_event_run.start [OF key_event_run.init])
  moreover have "authenticated_participant_id sample_env (ke_participants ?k1) = Inr 0"
    by code_simp
  moreover have "key_event_vote_success sample_env sample_kei sample_key ?k1 = Inr (False, ?k {0})"
    by code_simp
  ultimately have "key_event_run sample_event [(0, sample_kei, sample_key)] (?k {0})"
    by (rule key_event_run.vote)
  moreover have "authenticated_participant_id (as_account ''b'' sample_env) (ke_participants (?k {0})) = Inr 1"
    by code_simp
  moreover have "key_event_vote_success (as_account ''b'' sample_env) sample_kei sample_key (?k {0}) =
      Inr (False, ?k {1, 0})"
    by code_simp
  ultimately have "key_event_run sample_event [(1, sample_kei, sample_key), (0, sample_kei, sample_key)]
      (?k {1, 0})"
    by (rule key_event_run.vote)
  moreover have "key_event_vote_success (as_account ''c'' sample_env) sample_kei sample_key (?k {1, 0}) =
      Inr (True, ?k {2, 1, 0})"
    by code_simp
  ultimately show ?thesis by blast
qed

theorem key_event_success_unanimous_witness:
  "\<exists>c. authenticated_participant_id (as_account ''c'' sample_env) (tp_participants sample_params) = Inr c \<and>
    (\<forall>i \<in> set (ids (tp_participants sample_params)). i \<noteq> c \<longrightarrow>
      (i, sample_kei, sample_key) \<in> set [(1, sample_kei, sample_key), (0, sample_kei, sample_key)]) \<and>
    kei_epoch_id sample_kei = 4 \<and> kei_domain_id sample_kei = dc_id sample_domain"
proof -
  obtain ke ke' where
    "key_event_run (key_event_new 4 sample_domain sample_params)
      [(1, sample_kei, sample_key), (0, sample_kei, sample_key)] ke"
    "key_event_vote_success (as_account ''c'' sample_env) sample_kei sample_key ke = Inr (True, ke')"
    using sample_run unfolding sample_event_def by blast
  then show ?thesis
    by (rule key_event_success_unanimous [OF sample_params_wf])
qed



text \<open>
  A participant that already voted in the attempt and votes again for another key is not
  refused with \<open>VoteAlreadySubmitted\<close>: the comparison of the keys comes first, and the
  attempt is aborted.
\<close>

lemma key_event_revote_aborts:
  assumes "verify_vote env kei ke = Inr (c, ke)" "ke_instance ke = Some inst"
    and "c \<in> kin_completed inst" "kin_public_key inst = Some old" "old \<noteq> pk"
  shows "key_event_vote_success env kei pk ke = Inr (False, ke\<lparr>ke_instance := None\<rparr>)"
    and "key_event_vote_abort env kei ke = Inl (VoteErr VoteAlreadySubmitted)"
  using assms
  by (simp_all add: key_event_vote_success_def key_event_vote_abort_def instance_vote_success_def)

end
