(* ===== verification/Protocol_States.thy ===== *)
theory Protocol_States
  imports Key_Event
begin

text \<open>
  The three working states of the protocol: \<open>crates/contract/src/state/running.rs\<close>,
  \<open>initializing.rs\<close> and \<open>resharing.rs\<close>. A method that takes \<open>&mut self\<close> and returns an
  optional successor state is a function to the pair of that option and the mutated state.
\<close>

record 'pt running_state =
  rs_domains :: domain_registry
  rs_keyset :: "'pt keyset"
  rs_parameters :: threshold_parameters
  rs_parameters_votes :: threshold_parameters_votes
  rs_add_domains_votes :: add_domains_votes
  rs_previously_cancelled_resharing_epoch_id :: "epoch_id option"

record 'pt initializing_state =
  is_domains :: domain_registry
  is_epoch_id :: epoch_id
  is_generated_keys :: "'pt key_for_domain list"
  is_generating_key :: "'pt key_event"
  is_cancel_votes :: "participant_id set"

record 'pt resharing_state =
  re_previous_running_state :: "'pt running_state"
  re_reshared_keys :: "'pt key_for_domain list"
  re_resharing_key :: "'pt key_event"
  re_cancellation_requests :: "account_id set"

section \<open>Running\<close>

definition running_new ::
  "domain_registry \<Rightarrow> 'pt keyset \<Rightarrow> threshold_parameters \<Rightarrow> add_domains_votes \<Rightarrow> 'pt running_state" where
  "running_new domains keyset parameters votes =
     \<lparr>rs_domains = domains, rs_keyset = keyset, rs_parameters = parameters,
      rs_parameters_votes = tpv_default,
      rs_add_domains_votes = get_remaining_votes (tp_participants parameters) votes,
      rs_previously_cancelled_resharing_epoch_id = None\<rparr>"

definition prospective_epoch_id :: "'pt running_state \<Rightarrow> epoch_id" where
  "prospective_epoch_id rs =
     epoch_next (case rs_previously_cancelled_resharing_epoch_id rs of
        Some cancelled_epoch_id \<Rightarrow> cancelled_epoch_id
      | None \<Rightarrow> ks_epoch_id (rs_keyset rs))"

definition transition_to_resharing_no_checks ::
  "threshold_parameters \<Rightarrow> 'pt running_state \<Rightarrow> 'pt resharing_state option \<times> 'pt running_state" where
  "transition_to_resharing_no_checks proposal rs =
     (case get_domain_by_index (rs_domains rs) 0 of
        Some first_domain \<Rightarrow>
          (Some \<lparr>re_previous_running_state =
                  running_new (rs_domains rs) (rs_keyset rs) (rs_parameters rs) (rs_add_domains_votes rs),
                re_reshared_keys = [],
                re_resharing_key = key_event_new (prospective_epoch_id rs) first_domain proposal,
                re_cancellation_requests = {}\<rparr>, rs)
      | None \<Rightarrow>
          (None, running_new (rs_domains rs)
             (keyset_new (epoch_next (ks_epoch_id (rs_keyset rs))) []) proposal (rs_add_domains_votes rs)))"

definition process_new_parameters_proposal ::
  "env \<Rightarrow> threshold_parameters \<Rightarrow> 'pt running_state \<Rightarrow> (bool \<times> 'pt running_state) result" where
  "process_new_parameters_proposal env proposal rs =
     and_then (validate_incoming_proposal (rs_parameters rs) proposal) (\<lambda>_.
     and_then (authenticated_account_id env (tp_participants proposal)) (\<lambda>candidate.
     and_then
       (if \<not> is_ok (authenticated_account_id env (tp_participants (rs_parameters rs)))
        then if n_votes proposal (tp_participants (rs_parameters rs)) (rs_parameters_votes rs)
                  < tp_threshold (rs_parameters rs)
             then Inl (VoteErr VoterPending) else Inr ()
        else Inr ()) (\<lambda>_.
     let (n, votes) = tpv_vote proposal candidate (rs_parameters_votes rs) in
     Inr (of_nat (participants_len (tp_participants proposal)) = n,
          rs\<lparr>rs_parameters_votes := votes\<rparr>))))"

definition running_vote_new_parameters ::
  "env \<Rightarrow> epoch_id \<Rightarrow> threshold_parameters \<Rightarrow> 'pt running_state
    \<Rightarrow> ('pt resharing_state option \<times> 'pt running_state) result" where
  "running_vote_new_parameters env epoch proposal rs =
     (let expected = prospective_epoch_id rs in
      if epoch \<noteq> expected then Inl (ParamsErr (EpochMismatch epoch expected))
      else and_then (process_new_parameters_proposal env proposal rs) (\<lambda>(accepted, rs').
        if accepted then Inr (transition_to_resharing_no_checks proposal rs')
        else Inr (None, rs')))"

definition running_vote_add_domains ::
  "env \<Rightarrow> domain_config list \<Rightarrow> 'pt running_state
    \<Rightarrow> ('pt initializing_state option \<times> 'pt running_state) result" where
  "running_vote_add_domains env domains rs =
     (if domains = [] then Inl (DomainErr AddDomainsMustAddAtLeastOneDomain)
      else case List.find (\<lambda>d. \<not> is_valid_scheme_for_purpose (dc_purpose d) (dc_scheme d)) domains of
        Some d \<Rightarrow> Inl (DomainErr (InvalidSchemePurposeCombination (dc_scheme d) (dc_purpose d)))
      | None \<Rightarrow>
          and_then (authenticated_participant_id env (tp_participants (rs_parameters rs))) (\<lambda>participant.
          let (n, votes) = adv_vote domains participant (rs_add_domains_votes rs);
              rs' = rs\<lparr>rs_add_domains_votes := votes\<rparr> in
          if of_nat (participants_len (tp_participants (rs_parameters rs))) = n then
            and_then (add_domains (rs_domains rs) domains) (\<lambda>new_domains.
            Inr (Some \<lparr>is_domains = new_domains, is_epoch_id = ks_epoch_id (rs_keyset rs),
                       is_generated_keys = ks_domains (rs_keyset rs),
                       is_generating_key =
                         key_event_new (ks_epoch_id (rs_keyset rs)) (hd domains) (rs_parameters rs),
                       is_cancel_votes = {}\<rparr>, rs'))
          else Inr (None, rs')))"

definition running_is_participant :: "'pt running_state \<Rightarrow> account_id \<Rightarrow> bool" where
  "running_is_participant rs a =
     is_participant_given_account_id (tp_participants (rs_parameters rs)) a"

section \<open>Initializing\<close>

definition initializing_start ::
  "env \<Rightarrow> key_event_id \<Rightarrow> u64 \<Rightarrow> 'pt initializing_state \<Rightarrow> 'pt initializing_state result" where
  "initializing_start env kei timeout_blocks st =
     and_then (key_event_start env kei timeout_blocks (is_generating_key st))
       (\<lambda>ke. Inr (st\<lparr>is_generating_key := ke\<rparr>))"

definition initializing_vote_pk ::
  "env \<Rightarrow> key_event_id \<Rightarrow> 'pt public_key_extended \<Rightarrow> 'pt initializing_state
    \<Rightarrow> ('pt running_state option \<times> 'pt initializing_state) result" where
  "initializing_vote_pk env kei pk st =
     and_then (key_event_vote_success env kei pk (is_generating_key st)) (\<lambda>(success, ke).
       let st1 = st\<lparr>is_generating_key := ke\<rparr> in
       if success then
         let st2 = st1\<lparr>is_generated_keys := is_generated_keys st1 @
               [\<lparr>kfd_domain_id = kei_domain_id kei, kfd_key = pk, kfd_attempt = kei_attempt_id kei\<rparr>]\<rparr> in
         case get_domain_by_index (is_domains st2) (length (is_generated_keys st2)) of
           Some next_domain \<Rightarrow>
             Inr (None, st2\<lparr>is_generating_key :=
               key_event_new (is_epoch_id st2) next_domain (ke_parameters (is_generating_key st2))\<rparr>)
         | None \<Rightarrow>
             Inr (Some (running_new (is_domains st2)
               (keyset_new (is_epoch_id st2) (is_generated_keys st2))
               (ke_parameters (is_generating_key st2)) adv_default), st2)
       else Inr (None, st1))"

definition initializing_vote_abort ::
  "env \<Rightarrow> key_event_id \<Rightarrow> 'pt initializing_state \<Rightarrow> 'pt initializing_state result" where
  "initializing_vote_abort env kei st =
     and_then (key_event_vote_abort env kei (is_generating_key st))
       (\<lambda>ke. Inr (st\<lparr>is_generating_key := ke\<rparr>))"

text \<open>
  \<open>threshold().value() as usize\<close> truncates to 32 bits: the contract runs on \<open>wasm32\<close>.
\<close>

definition initializing_vote_cancel ::
  "env \<Rightarrow> u64 \<Rightarrow> 'pt initializing_state
    \<Rightarrow> ('pt running_state option \<times> 'pt initializing_state) result" where
  "initializing_vote_cancel env next_domain_id st =
     (if next_domain_id \<noteq> dr_next_domain_id (is_domains st)
      then Inl (ParamsErr NextDomainIdMismatch)
      else and_then (authenticated_participant_id env
              (tp_participants (ke_parameters (is_generating_key st)))) (\<lambda>participant.
        let required_threshold =
              unat (ucast (tp_threshold (ke_parameters (is_generating_key st))) :: u32);
            inserted = (participant \<notin> is_cancel_votes st);
            st' = st\<lparr>is_cancel_votes := insert participant (is_cancel_votes st)\<rparr> in
        if inserted \<and> required_threshold \<le> card (is_cancel_votes st') then
          Inr (Some (running_new (retain_domains (length (is_generated_keys st')) (is_domains st'))
                 (keyset_new (is_epoch_id st') (is_generated_keys st'))
                 (ke_parameters (is_generating_key st')) adv_default), st')
        else Inr (None, st')))"

definition initializing_is_participant :: "'pt initializing_state \<Rightarrow> account_id \<Rightarrow> bool" where
  "initializing_is_participant st a =
     is_participant_given_account_id (tp_participants (ke_parameters (is_generating_key st))) a"

section \<open>Resharing\<close>

definition previous_keyset :: "'pt resharing_state \<Rightarrow> 'pt keyset" where
  "previous_keyset re = rs_keyset (re_previous_running_state re)"

definition resharing_prospective_epoch_id :: "'pt resharing_state \<Rightarrow> epoch_id" where
  "resharing_prospective_epoch_id re = ke_epoch_id (re_resharing_key re)"

definition resharing_vote_new_parameters ::
  "env \<Rightarrow> epoch_id \<Rightarrow> threshold_parameters \<Rightarrow> 'pt resharing_state
    \<Rightarrow> ('pt resharing_state option \<times> 'pt resharing_state) result" where
  "resharing_vote_new_parameters env epoch proposal re =
     (let expected = epoch_next (resharing_prospective_epoch_id re) in
      if epoch \<noteq> expected then Inl (ParamsErr (EpochMismatch epoch expected))
      else and_then (process_new_parameters_proposal env proposal (re_previous_running_state re))
        (\<lambda>(accepted, prev).
          let re' = re\<lparr>re_previous_running_state := prev\<rparr> in
          if accepted then
            case get_domain_by_index (rs_domains prev) 0 of
              None \<Rightarrow> Inl Panicked
            | Some first_domain \<Rightarrow>
                Inr (Some \<lparr>re_previous_running_state =
                        running_new (rs_domains prev) (rs_keyset prev) (rs_parameters prev)
                          (rs_add_domains_votes prev),
                      re_reshared_keys = [],
                      re_resharing_key =
                        key_event_new (epoch_next (resharing_prospective_epoch_id re')) first_domain proposal,
                      re_cancellation_requests = {}\<rparr>, re')
          else Inr (None, re')))"

definition resharing_start ::
  "env \<Rightarrow> key_event_id \<Rightarrow> u64 \<Rightarrow> 'pt resharing_state \<Rightarrow> 'pt resharing_state result" where
  "resharing_start env kei timeout_blocks re =
     and_then (key_event_start env kei timeout_blocks (re_resharing_key re))
       (\<lambda>ke. Inr (re\<lparr>re_resharing_key := ke\<rparr>))"

definition resharing_vote_reshared ::
  "env \<Rightarrow> key_event_id \<Rightarrow> 'pt resharing_state
    \<Rightarrow> ('pt running_state option \<times> 'pt resharing_state) result" where
  "resharing_vote_reshared env kei re =
     (case vec_get (ks_domains (previous_keyset re)) (length (re_reshared_keys re)) of
        None \<Rightarrow> Inl Panicked
      | Some previous_key \<Rightarrow>
          and_then (key_event_vote_success env kei (kfd_key previous_key) (re_resharing_key re))
            (\<lambda>(success, ke).
              let re1 = re\<lparr>re_resharing_key := ke\<rparr> in
              if success then
                let re2 = re1\<lparr>re_reshared_keys := re_reshared_keys re1 @
                      [\<lparr>kfd_domain_id = kei_domain_id kei, kfd_key = kfd_key previous_key,
                        kfd_attempt = kei_attempt_id kei\<rparr>]\<rparr>;
                    prev = re_previous_running_state re2 in
                case get_domain_by_index (rs_domains prev) (length (re_reshared_keys re2)) of
                  Some next_domain \<Rightarrow>
                    Inr (None, re2\<lparr>re_resharing_key :=
                      key_event_new (resharing_prospective_epoch_id re2) next_domain
                        (ke_parameters (re_resharing_key re2))\<rparr>)
                | None \<Rightarrow>
                    Inr (Some (running_new (rs_domains prev)
                      (keyset_new (resharing_prospective_epoch_id re2) (re_reshared_keys re2))
                      (ke_parameters (re_resharing_key re2)) (rs_add_domains_votes prev)), re2)
              else Inr (None, re1)))"

definition resharing_vote_abort ::
  "env \<Rightarrow> key_event_id \<Rightarrow> 'pt resharing_state \<Rightarrow> 'pt resharing_state result" where
  "resharing_vote_abort env kei re =
     and_then (key_event_vote_abort env kei (re_resharing_key re))
       (\<lambda>ke. Inr (re\<lparr>re_resharing_key := ke\<rparr>))"

definition resharing_vote_cancel_resharing ::
  "env \<Rightarrow> 'pt resharing_state \<Rightarrow> ('pt running_state option \<times> 'pt resharing_state) result" where
  "resharing_vote_cancel_resharing env re =
     and_then (authenticated_account_id env
         (tp_participants (rs_parameters (re_previous_running_state re)))) (\<lambda>candidate.
       let re' = re\<lparr>re_cancellation_requests := insert candidate (re_cancellation_requests re)\<rparr>;
           votes = (of_nat (card (re_cancellation_requests re')) :: u64) in
       Inr (if tp_threshold (rs_parameters (re_previous_running_state re')) \<le> votes
            then Some ((re_previous_running_state re')
              \<lparr>rs_previously_cancelled_resharing_epoch_id := Some (resharing_prospective_epoch_id re')\<rparr>)
            else None, re'))"

definition is_participant_or_prospective_participant :: "'pt resharing_state \<Rightarrow> account_id \<Rightarrow> bool" where
  "is_participant_or_prospective_participant re a \<longleftrightarrow>
     running_is_participant (re_previous_running_state re) a \<or>
     is_participant_given_account_id (tp_participants (ke_parameters (re_resharing_key re))) a"

section \<open>Invariant of the running state\<close>

abbreviation rs_participants :: "'pt running_state \<Rightarrow> participants" where
  "rs_participants rs \<equiv> tp_participants (rs_parameters rs)"

definition running_inv :: "'pt running_state \<Rightarrow> bool" where
  "running_inv rs \<longleftrightarrow>
     parameters_wf (rs_parameters rs) \<and>
     map kfd_domain_id (ks_domains (rs_keyset rs)) = map dc_id (dr_domains (rs_domains rs)) \<and>
     bt_invar (adv_proposal_by_account (rs_add_domains_votes rs)) \<and>
     fst ` set (adv_proposal_by_account (rs_add_domains_votes rs)) \<subseteq> set (ids (rs_participants rs)) \<and>
     bt_invar (tpv_proposal_by_account (rs_parameters_votes rs)) \<and>
     (\<forall>a p. bt_get (tpv_proposal_by_account (rs_parameters_votes rs)) a = Some p \<longrightarrow>
        a \<in> set (accounts (tp_participants p)))"

lemma running_inv_new:
  assumes "parameters_wf tp" "bt_invar (adv_proposal_by_account votes)"
    and "map kfd_domain_id (ks_domains ks) = map dc_id (dr_domains ds)"
  shows "running_inv (running_new ds ks tp votes)"
proof -
  let ?m = "adv_proposal_by_account (get_remaining_votes (tp_participants tp) votes)"
  have "fst ` set ?m \<subseteq> set (ids (tp_participants tp))"
    by (auto simp: get_remaining_votes_def is_participant_id_iff)
  then show ?thesis
    using assms
    by (simp add: running_inv_def running_new_def get_remaining_votes_invar tpv_default_def)
qed

lemma accounts_card: "participants_wf ps \<Longrightarrow> card (set (accounts ps)) = participants_len ps"
  by (simp add: participants_wf_def distinct_card)

lemma process_new_parameters_proposal_Inr:
  assumes "process_new_parameters_proposal env prop rs = Inr (accepted, rs')" "running_inv rs"
  shows "proposal_acceptable (rs_parameters rs) prop"
    and "signer_account_id env \<in> set (accounts (tp_participants prop))"
    and "\<exists>votes. rs' = rs\<lparr>rs_parameters_votes := votes\<rparr>"
    and "bt_get (tpv_proposal_by_account (rs_parameters_votes rs')) =
      (bt_get (tpv_proposal_by_account (rs_parameters_votes rs)))(signer_account_id env \<mapsto> prop)"
    and "running_inv rs'"
    and "accepted \<longleftrightarrow>
      proposal_voters prop (rs_parameters_votes rs') = set (accounts (tp_participants prop))"
    and "signer_account_id env \<notin> set (accounts (rs_participants rs)) \<Longrightarrow>
      unat (tp_threshold (rs_parameters rs)) \<le>
        card (proposal_voters prop (rs_parameters_votes rs) \<inter> set (accounts (rs_participants rs)))"
proof -
  let ?a = "signer_account_id env"
  obtain n votes where vote: "tpv_vote prop ?a (rs_parameters_votes rs) = (n, votes)"
    by fastforce
  have val: "validate_incoming_proposal (rs_parameters rs) prop = Inr ()"
    and auth: "?a \<in> set (accounts (tp_participants prop))"
    and pending: "?a \<in> set (accounts (rs_participants rs)) \<or>
      \<not> n_votes prop (rs_participants rs) (rs_parameters_votes rs) < tp_threshold (rs_parameters rs)"
    and rs': "rs' = rs\<lparr>rs_parameters_votes := votes\<rparr>"
    and acc: "accepted \<longleftrightarrow> of_nat (participants_len (tp_participants prop)) = n"
    using assms(1) vote
    by (auto simp: process_new_parameters_proposal_def authenticated_account_id_Inr is_ok_iff
        elim!: and_then_InrE split: if_splits)
  note inv = assms(2) [unfolded running_inv_def]
  then have bt: "bt_invar (tpv_proposal_by_account (rs_parameters_votes rs))" by blast
  note tally = tpv_vote_result [OF bt vote]
  show ok: "proposal_acceptable (rs_parameters rs) prop"
    using val inv validate_incoming_proposal_acceptable by blast
  show "?a \<in> set (accounts (tp_participants prop))" by (fact auth)
  show "\<exists>votes. rs' = rs\<lparr>rs_parameters_votes := votes\<rparr>" using rs' by blast
  show get: "bt_get (tpv_proposal_by_account (rs_parameters_votes rs')) =
      (bt_get (tpv_proposal_by_account (rs_parameters_votes rs)))(?a \<mapsto> prop)"
    using tally(3) rs' by simp
  show inv': "running_inv rs'"
    using inv auth tally(2,3) rs' by (simp add: running_inv_def)
  have wf: "participants_wf (tp_participants prop)"
    using ok by (simp add: proposal_acceptable_def parameters_wf_def)
  have sub: "proposal_voters prop votes \<subseteq> set (accounts (tp_participants prop))"
    using inv' rs' by (auto simp: running_inv_def proposal_voters_def)
  then have "card (proposal_voters prop votes) \<le> participants_len (tp_participants prop)"
    using accounts_card [OF wf] by (metis List.finite_set card_mono)
  moreover have "participants_len (tp_participants prop) < 2 ^ 32"
    using wf by (rule participants_wf_len)
  ultimately have "accepted \<longleftrightarrow> card (proposal_voters prop votes) = card (set (accounts (tp_participants prop)))"
    using acc tally(1) accounts_card [OF wf] by (auto simp: of_nat_u64_eq)
  also have "\<dots> \<longleftrightarrow> proposal_voters prop votes = set (accounts (tp_participants prop))"
    using sub by (metis List.finite_set card_subset_eq)
  finally show "accepted \<longleftrightarrow>
      proposal_voters prop (rs_parameters_votes rs') = set (accounts (tp_participants prop))"
    using rs' by simp
  have "card (proposal_voters prop (rs_parameters_votes rs) \<inter> set (accounts (rs_participants rs)))
      \<le> card (set (accounts (rs_participants rs)))"
    by (intro card_mono) auto
  also have "\<dots> < 2 ^ 32"
    using inv accounts_card participants_wf_len by (metis parameters_wf_def)
  finally show "?a \<notin> set (accounts (rs_participants rs)) \<Longrightarrow>
      unat (tp_threshold (rs_parameters rs)) \<le>
        card (proposal_voters prop (rs_parameters_votes rs) \<inter> set (accounts (rs_participants rs)))"
    using pending by (simp add: n_votes_card [OF bt] of_nat_u64_less not_less)
qed

section \<open>Invariants of the key generating states\<close>

definition key_list :: "'pt key_for_domain list \<Rightarrow> (domain_id \<times> 'pt public_key_extended) list" where
  "key_list ks = map (\<lambda>k. (kfd_domain_id k, kfd_key k)) ks"

definition initializing_inv :: "'pt initializing_state \<Rightarrow> bool" where
  "initializing_inv st \<longleftrightarrow>
     (let n = length (is_generated_keys st); ds = dr_domains (is_domains st); ke = is_generating_key st in
      key_event_inv ke \<and> n < length ds \<and>
      map kfd_domain_id (is_generated_keys st) = take n (map dc_id ds) \<and>
      ke_domain ke = ds ! n \<and> ke_epoch_id ke = is_epoch_id st \<and>
      is_cancel_votes st \<subseteq> set (ids (ke_participants ke)) \<and>
      card (is_cancel_votes st) < unat (tp_threshold (ke_parameters ke)))"

definition resharing_inv :: "'pt resharing_state \<Rightarrow> bool" where
  "resharing_inv re \<longleftrightarrow>
     (let n = length (re_reshared_keys re); prev = re_previous_running_state re;
          ds = dr_domains (rs_domains prev); ke = re_resharing_key re in
      running_inv prev \<and> key_event_inv ke \<and> n < length ds \<and>
      key_list (re_reshared_keys re) = take n (key_list (ks_domains (rs_keyset prev))) \<and>
      ke_domain ke = ds ! n \<and>
      proposal_acceptable (rs_parameters prev) (ke_parameters ke) \<and>
      re_cancellation_requests re \<subseteq> set (accounts (rs_participants prev)) \<and>
      card (re_cancellation_requests re) < unat (tp_threshold (rs_parameters prev)))"

lemma parameters_wf_threshold_pos: "parameters_wf tp \<Longrightarrow> 0 < unat (tp_threshold tp)"
  by (simp add: parameters_wf_def)

lemma transition_to_resharing_inv:
  assumes "transition_to_resharing_no_checks prop rs = (re, rs')"
    and "running_inv rs" "proposal_acceptable (rs_parameters rs) prop"
  shows "running_inv rs'" "re = Some st \<Longrightarrow> resharing_inv st"
proof -
  have wf: "parameters_wf prop" and wf': "parameters_wf (rs_parameters rs)"
    using assms(2,3) by (auto simp: proposal_acceptable_def running_inv_def)
  have aligned: "map kfd_domain_id (ks_domains (rs_keyset rs)) = map dc_id (dr_domains (rs_domains rs))"
    and votes: "bt_invar (adv_proposal_by_account (rs_add_domains_votes rs))"
    using assms(2) by (auto simp: running_inv_def)
  show "running_inv rs'"
    using assms(1,2) wf votes
    by (auto simp: transition_to_resharing_no_checks_def get_domain_by_index_def vec_get_def
        keyset_new_def intro!: running_inv_new split: option.splits if_splits)
  show "resharing_inv st" if "re = Some st"
    using that assms(1,3) running_inv_new [OF wf' votes aligned] key_event_inv_new [OF wf]
      parameters_wf_threshold_pos [OF wf']
    by (auto simp: transition_to_resharing_no_checks_def get_domain_by_index_def vec_get_def
        resharing_inv_def key_list_def key_event_new_def running_new_def split: option.splits if_splits)
qed

lemma running_vote_new_parameters_Inr:
  assumes "running_vote_new_parameters env e prop rs = Inr (re, rs')" "running_inv rs"
  obtains votes where "e = prospective_epoch_id rs"
    "process_new_parameters_proposal env prop rs = Inr (False, rs')" "re = None"
  | rs1 where "e = prospective_epoch_id rs"
    "process_new_parameters_proposal env prop rs = Inr (True, rs1)"
    "transition_to_resharing_no_checks prop rs1 = (re, rs')"
  using assms(1)
  by (auto simp: running_vote_new_parameters_def Let_def elim!: and_then_InrE split: if_splits)

lemma running_vote_new_parameters_inv:
  assumes "running_vote_new_parameters env e prop rs = Inr (re, rs')" "running_inv rs"
  shows "running_inv rs'" "re = Some st \<Longrightarrow> resharing_inv st"
proof -
  have "running_inv rs' \<and> (re = Some st \<longrightarrow> resharing_inv st)"
    using assms
  proof (rule running_vote_new_parameters_Inr)
    assume "process_new_parameters_proposal env prop rs = Inr (False, rs')" "re = None"
    then show ?thesis
      using process_new_parameters_proposal_Inr(5) assms(2) by blast
  next
    fix rs1
    assume p: "process_new_parameters_proposal env prop rs = Inr (True, rs1)"
      and t: "transition_to_resharing_no_checks prop rs1 = (re, rs')"
    note facts = process_new_parameters_proposal_Inr [OF p assms(2)]
    then have "proposal_acceptable (rs_parameters rs1) prop" "running_inv rs1" by auto
    then show ?thesis
      using transition_to_resharing_inv [OF t] by blast
  qed
  then show "running_inv rs'" "re = Some st \<Longrightarrow> resharing_inv st" by blast+
qed

text \<open>A vote to add domains succeeds with everybody's agreement only.\<close>

lemma adv_tally_unanimous:
  assumes "participants_wf ps" "bt_invar m" "fst ` set m \<subseteq> set (ids ps)" "i \<in> set (ids ps)"
  shows "(of_nat (participants_len ps) :: u64) = of_nat (bt.tally ds (bt_insert i ds m)) \<longleftrightarrow>
    (\<forall>j \<in> set (ids ps). bt_get (bt_insert i ds m) j = Some ds)"
proof -
  let ?m = "bt_insert i ds m"
  have "dom (bt_get ?m) \<subseteq> set (ids ps)"
    using assms(3,4) dom_bt_get [of m] by auto
  then have sup: "bt.supporters ds ?m \<subseteq> set (ids ps)"
    by (auto simp: bt_supporters)
  have len: "card (set (ids ps)) = participants_len ps"
    using assms(1) by (rule card_ids)
  have "card (bt.supporters ds ?m) \<le> participants_len ps"
    using sup len by (metis List.finite_set card_mono)
  then have "(of_nat (participants_len ps) :: u64) = of_nat (bt.tally ds ?m)
      \<longleftrightarrow> card (bt.supporters ds ?m) = card (set (ids ps))"
    using participants_wf_len [OF assms(1)] bt.tally_card [of ?m ds] assms(2) len
    by (auto simp: of_nat_u64_eq)
  also have "\<dots> \<longleftrightarrow> bt.supporters ds ?m = set (ids ps)"
    using sup by (metis List.finite_set card_subset_eq)
  also have "\<dots> \<longleftrightarrow> (\<forall>j \<in> set (ids ps). bt_get ?m j = Some ds)"
    using sup by (auto simp: bt_supporters)
  finally show ?thesis .
qed

lemma running_vote_add_domains_Inr:
  assumes "running_vote_add_domains env ds rs = Inr (next, rs')" "running_inv rs"
  obtains i where "ds \<noteq> []" "\<forall>d \<in> set ds. is_valid_scheme_for_purpose (dc_purpose d) (dc_scheme d)"
    "authenticated_participant_id env (rs_participants rs) = Inr i"
    "rs' = rs\<lparr>rs_add_domains_votes := \<lparr>adv_proposal_by_account =
        bt_insert i ds (adv_proposal_by_account (rs_add_domains_votes rs))\<rparr>\<rparr>"
    "next \<noteq> None \<longleftrightarrow> (\<forall>j \<in> set (ids (rs_participants rs)).
        bt_get (adv_proposal_by_account (rs_add_domains_votes rs')) j = Some ds)"
    "\<And>st. next = Some st \<Longrightarrow> add_domains (rs_domains rs) ds = Inr (is_domains st) \<and>
        st = \<lparr>is_domains = is_domains st, is_epoch_id = ks_epoch_id (rs_keyset rs),
              is_generated_keys = ks_domains (rs_keyset rs),
              is_generating_key = key_event_new (ks_epoch_id (rs_keyset rs)) (hd ds) (rs_parameters rs),
              is_cancel_votes = {}\<rparr>"
proof -
  let ?votes = "adv_proposal_by_account (rs_add_domains_votes rs)"
  let ?invalid = "\<lambda>d. \<not> is_valid_scheme_for_purpose (dc_purpose d) (dc_scheme d)"
  have ne: "ds \<noteq> []" and valid: "List.find ?invalid ds = None"
    using assms(1) by (auto simp: running_vote_add_domains_def split: if_splits option.splits)
  obtain i where i: "authenticated_participant_id env (rs_participants rs) = Inr i"
    using assms(1) ne valid by (auto simp: running_vote_add_domains_def elim!: and_then_InrE)
  have inv: "participants_wf (rs_participants rs)" "bt_invar ?votes"
    "fst ` set ?votes \<subseteq> set (ids (rs_participants rs))"
    using assms(2) by (auto simp: running_inv_def parameters_wf_def)
  have "i \<in> set (ids (rs_participants rs))"
    using i authenticated_participant_id_in by blast
  note all = adv_tally_unanimous [OF inv this, of ds]
  have upd: "rs_add_domains_votes rs\<lparr>adv_proposal_by_account := m\<rparr> = \<lparr>adv_proposal_by_account = m\<rparr>" for m
    by (cases "rs_add_domains_votes rs") simp
  show thesis
  proof (rule that [OF ne _ i])
    show "\<forall>d \<in> set ds. is_valid_scheme_for_purpose (dc_purpose d) (dc_scheme d)"
      using valid by (auto simp: find_None_iff)
  qed (use assms(1) ne valid i all upd in
      \<open>auto simp: running_vote_add_domains_def adv_vote_result Let_def elim!: and_then_InrE split: if_splits\<close>)
qed

lemma running_vote_add_domains_inv:
  assumes "running_vote_add_domains env ds rs = Inr (next, rs')" "running_inv rs"
  shows "running_inv rs'" "next = Some st \<Longrightarrow> initializing_inv st"
proof -
  have "running_inv rs' \<and> (next = Some st \<longrightarrow> initializing_inv st)"
    using assms
  proof (rule running_vote_add_domains_Inr)
    fix i
    let ?votes = "adv_proposal_by_account (rs_add_domains_votes rs)"
    assume i: "authenticated_participant_id env (rs_participants rs) = Inr i" "ds \<noteq> []"
      and rs': "rs' = rs\<lparr>rs_add_domains_votes := \<lparr>adv_proposal_by_account = bt_insert i ds ?votes\<rparr>\<rparr>"
      and st: "\<And>st. next = Some st \<Longrightarrow> add_domains (rs_domains rs) ds = Inr (is_domains st) \<and>
        st = \<lparr>is_domains = is_domains st, is_epoch_id = ks_epoch_id (rs_keyset rs),
              is_generated_keys = ks_domains (rs_keyset rs),
              is_generating_key = key_event_new (ks_epoch_id (rs_keyset rs)) (hd ds) (rs_parameters rs),
              is_cancel_votes = {}\<rparr>"
    have "i \<in> set (ids (rs_participants rs))"
      using i(1) authenticated_participant_id_in by blast
    then have "running_inv rs'"
      using assms(2) by (simp add: running_inv_def rs' fst_set_bt_insert)
    moreover have "initializing_inv st" if "next = Some st"
    proof -
      have aligned: "map kfd_domain_id (ks_domains (rs_keyset rs)) = map dc_id (dr_domains (rs_domains rs))"
        and wf: "parameters_wf (rs_parameters rs)"
        using assms(2) by (auto simp: running_inv_def)
      have len: "length (ks_domains (rs_keyset rs)) = length (dr_domains (rs_domains rs))"
        using arg_cong [OF aligned, of length] by simp
      have "dr_domains (is_domains st) = dr_domains (rs_domains rs) @ ds"
        using st [OF that] by (simp add: add_domains_Inr)
      then show ?thesis
        using st [OF that] i(2) aligned len key_event_inv_new [OF wf] parameters_wf_threshold_pos [OF wf]
        by (cases st) (auto simp: initializing_inv_def Let_def key_event_new_def nth_append hd_conv_nth)
    qed
    ultimately show ?thesis by blast
  qed
  then show "running_inv rs'" "next = Some st \<Longrightarrow> initializing_inv st" by blast+
qed

lemma initializing_inv_event:
  assumes "initializing_inv st" "key_event_inv ke" "ke_frame (is_generating_key st) ke"
  shows "initializing_inv (st\<lparr>is_generating_key := ke\<rparr>)"
  using assms by (simp add: initializing_inv_def Let_def ke_frame_def)

lemma initializing_inv_key_event: "initializing_inv st \<Longrightarrow> key_event_inv (is_generating_key st)"
  by (simp add: initializing_inv_def Let_def)

lemma initializing_start_inv:
  assumes "initializing_start env kei t st = Inr st'" "initializing_inv st"
  shows "initializing_inv st'"
proof -
  from assms(1) obtain ke where "key_event_start env kei t (is_generating_key st) = Inr ke"
    "st' = st\<lparr>is_generating_key := ke\<rparr>"
    by (auto simp: initializing_start_def elim!: and_then_InrE)
  then show ?thesis
    using assms(2) key_event_start_inv initializing_inv_key_event by (blast intro: initializing_inv_event)
qed

lemma initializing_vote_abort_inv:
  assumes "initializing_vote_abort env kei st = Inr st'" "initializing_inv st"
  shows "initializing_inv st'"
proof -
  from assms(1) obtain ke where "key_event_vote_abort env kei (is_generating_key st) = Inr ke"
    "st' = st\<lparr>is_generating_key := ke\<rparr>"
    by (auto simp: initializing_vote_abort_def elim!: and_then_InrE)
  then show ?thesis
    using assms(2) key_event_vote_abort_inv initializing_inv_key_event
    by (blast intro: initializing_inv_event)
qed

text \<open>
  The outcomes of a vote for a public key: the vote is recorded (or the attempt aborted),
  generation moves to the next domain, or all keys are there.
\<close>

lemma initializing_vote_pk_cases:
  assumes "initializing_vote_pk env kei pk st = Inr (next, st')" "initializing_inv st"
  obtains (pending) ke where "key_event_vote_success env kei pk (is_generating_key st) = Inr (False, ke)"
    "next = None" "st' = st\<lparr>is_generating_key := ke\<rparr>"
  | (advance) ke k where "key_event_vote_success env kei pk (is_generating_key st) = Inr (True, ke)"
    "ke_frame (is_generating_key st) ke"
    "k = \<lparr>kfd_domain_id = dc_id (dr_domains (is_domains st) ! length (is_generated_keys st)),
          kfd_key = pk, kfd_attempt = kei_attempt_id kei\<rparr>"
    "Suc (length (is_generated_keys st)) < length (dr_domains (is_domains st))" "next = None"
    "st' = st\<lparr>is_generated_keys := is_generated_keys st @ [k],
        is_generating_key := key_event_new (is_epoch_id st)
          (dr_domains (is_domains st) ! Suc (length (is_generated_keys st)))
          (ke_parameters (is_generating_key st))\<rparr>"
  | (finish) ke k where "key_event_vote_success env kei pk (is_generating_key st) = Inr (True, ke)"
    "k = \<lparr>kfd_domain_id = dc_id (dr_domains (is_domains st) ! length (is_generated_keys st)),
          kfd_key = pk, kfd_attempt = kei_attempt_id kei\<rparr>"
    "Suc (length (is_generated_keys st)) = length (dr_domains (is_domains st))"
    "next = Some (running_new (is_domains st)
        (keyset_new (is_epoch_id st) (is_generated_keys st @ [k]))
        (ke_parameters (is_generating_key st)) adv_default)"
proof -
  from assms(1) obtain success ke
    where v: "key_event_vote_success env kei pk (is_generating_key st) = Inr (success, ke)"
    by (auto simp: initializing_vote_pk_def elim!: and_then_InrE)
  then have frame: "ke_frame (is_generating_key st) ke"
    by (rule key_event_vote_success_frame)
  have inv: "key_event_inv (is_generating_key st)"
    "length (is_generated_keys st) < length (dr_domains (is_domains st))"
    "ke_domain (is_generating_key st) = dr_domains (is_domains st) ! length (is_generated_keys st)"
    using assms(2) by (auto simp: initializing_inv_def Let_def)
  show thesis
  proof (cases success)
    case False
    with v assms(1) show ?thesis
      by (intro pending) (auto simp: initializing_vote_pk_def)
  next
    case True
    with v obtain c inst where "verify_vote env kei (is_generating_key st) = Inr (c, is_generating_key st)"
      using inv(1) by (auto elim!: key_event_vote_success_True)
    then have kei: "kei_domain_id kei = dc_id (dr_domains (is_domains st) ! length (is_generated_keys st))"
      using inv(3) by (auto simp: verify_vote_Inr key_event_id_new_def)
    have params: "ke_parameters ke = ke_parameters (is_generating_key st)"
      using frame by (simp add: ke_frame_def)
    show ?thesis
    proof (cases "Suc (length (is_generated_keys st)) < length (dr_domains (is_domains st))")
      case True
      with v \<open>success\<close> frame kei params assms(1) show ?thesis
        by (intro advance) (auto simp: initializing_vote_pk_def get_domain_by_index_def vec_get_def)
    next
      case False
      with v \<open>success\<close> kei params assms(1) inv(2) show ?thesis
        by (intro finish) (auto simp: initializing_vote_pk_def get_domain_by_index_def vec_get_def)
    qed
  qed
qed

lemma initializing_vote_pk_inv:
  assumes "initializing_vote_pk env kei pk st = Inr (next, st')" "initializing_inv st"
  shows "next = None \<Longrightarrow> initializing_inv st'" "next = Some rs \<Longrightarrow> running_inv rs"
proof -
  have inv: "key_event_inv (is_generating_key st)" "parameters_wf (ke_parameters (is_generating_key st))"
    "map kfd_domain_id (is_generated_keys st) =
      take (length (is_generated_keys st)) (map dc_id (dr_domains (is_domains st)))"
    using assms(2) by (auto simp: initializing_inv_def Let_def key_event_inv_def)
  show "initializing_inv st'" if "next = None"
    using assms
  proof (cases rule: initializing_vote_pk_cases)
    case (pending ke)
    then show ?thesis
      using assms(2) inv key_event_vote_success_inv key_event_vote_success_frame initializing_inv_event
      by blast
  next
    case (advance ke k)
    then show ?thesis
      using assms(2) inv key_event_inv_new [OF inv(2)]
      by (auto simp: initializing_inv_def Let_def key_event_new_def take_Suc_conv_app_nth)
  qed (use that in simp)
  show "running_inv rs" if "next = Some rs"
    using assms
  proof (cases rule: initializing_vote_pk_cases)
    case (finish ke k)
    have "map kfd_domain_id (is_generated_keys st @ [k]) = map dc_id (dr_domains (is_domains st))"
      using finish(2,3) inv(3)
      by (metis (no_types, lifting) key_for_domain.select_convs(1) length_map lessI list.simps(8,9)
          map_append nth_map take_Suc_conv_app_nth take_all_iff order_refl)
    then show ?thesis
      using finish(4) that inv(2)
      by (auto simp: keyset_new_def adv_default_def intro!: running_inv_new)
  qed (use that in auto)
qed

lemma unat_ucast_threshold:
  assumes "parameters_wf tp"
  shows "unat (ucast (tp_threshold tp) :: u32) = unat (tp_threshold tp)"
proof -
  have "unat (tp_threshold tp) < 2 ^ 32"
    using assms participants_wf_len [of "tp_participants tp"]
    by (auto simp: parameters_wf_def)
  then show ?thesis
    by (simp add: unsigned_ucast_eq take_bit_nat_eq_self)
qed

lemma initializing_vote_cancel_cases:
  assumes "initializing_vote_cancel env n st = Inr (next, st')" "initializing_inv st"
  obtains i where "authenticated_participant_id env (ke_participants (is_generating_key st)) = Inr i"
    "n = dr_next_domain_id (is_domains st)"
    "st' = st\<lparr>is_cancel_votes := insert i (is_cancel_votes st)\<rparr>"
    "next = (if unat (tp_threshold (ke_parameters (is_generating_key st))) \<le> card (is_cancel_votes st')
      then Some (running_new (retain_domains (length (is_generated_keys st)) (is_domains st))
        (keyset_new (is_epoch_id st) (is_generated_keys st))
        (ke_parameters (is_generating_key st)) adv_default)
      else None)"
proof -
  from assms(1) obtain i where i: "authenticated_participant_id env (ke_participants (is_generating_key st)) = Inr i"
    "n = dr_next_domain_id (is_domains st)"
    by (auto simp: initializing_vote_cancel_def elim!: and_then_InrE split: if_splits)
  have "parameters_wf (ke_parameters (is_generating_key st))"
    "card (is_cancel_votes st) < unat (tp_threshold (ke_parameters (is_generating_key st)))"
    using assms(2) by (auto simp: initializing_inv_def Let_def key_event_inv_def)
  then show thesis
    using assms(1) i
    by (intro that [OF i]) (auto simp: initializing_vote_cancel_def Let_def unat_ucast_threshold insert_absorb
        split: if_splits)
qed

lemma initializing_vote_cancel_inv:
  assumes "initializing_vote_cancel env n st = Inr (next, st')" "initializing_inv st"
  shows "next = None \<Longrightarrow> initializing_inv st'" "next = Some rs \<Longrightarrow> running_inv rs"
proof -
  have "(next = None \<longrightarrow> initializing_inv st') \<and> (next = Some rs \<longrightarrow> running_inv rs)"
    using assms
  proof (rule initializing_vote_cancel_cases)
    fix i
    assume i: "authenticated_participant_id env (ke_participants (is_generating_key st)) = Inr i"
      and st': "st' = st\<lparr>is_cancel_votes := insert i (is_cancel_votes st)\<rparr>"
      and nxt: "next = (if unat (tp_threshold (ke_parameters (is_generating_key st))) \<le> card (is_cancel_votes st')
        then Some (running_new (retain_domains (length (is_generated_keys st)) (is_domains st))
          (keyset_new (is_epoch_id st) (is_generated_keys st))
          (ke_parameters (is_generating_key st)) adv_default)
        else None)"
    have "i \<in> set (ids (ke_participants (is_generating_key st)))"
      using i authenticated_participant_id_in by blast
    then show ?thesis
      using assms(2) st' nxt
      by (auto simp: initializing_inv_def Let_def key_event_inv_def keyset_new_def adv_default_def
          retain_domains_def take_map intro!: running_inv_new split: if_splits)
  qed
  then show "next = None \<Longrightarrow> initializing_inv st'" "next = Some rs \<Longrightarrow> running_inv rs" by blast+
qed

lemma resharing_inv_event:
  assumes "resharing_inv re" "key_event_inv ke" "ke_frame (re_resharing_key re) ke"
  shows "resharing_inv (re\<lparr>re_resharing_key := ke\<rparr>)"
  using assms by (simp add: resharing_inv_def Let_def ke_frame_def)

lemma resharing_inv_key_event: "resharing_inv re \<Longrightarrow> key_event_inv (re_resharing_key re)"
  by (simp add: resharing_inv_def Let_def)

lemma resharing_inv_previous: "resharing_inv re \<Longrightarrow> running_inv (re_previous_running_state re)"
  by (simp add: resharing_inv_def Let_def)

lemma resharing_start_inv:
  assumes "resharing_start env kei t re = Inr re'" "resharing_inv re"
  shows "resharing_inv re'"
proof -
  from assms(1) obtain ke where "key_event_start env kei t (re_resharing_key re) = Inr ke"
    "re' = re\<lparr>re_resharing_key := ke\<rparr>"
    by (auto simp: resharing_start_def elim!: and_then_InrE)
  then show ?thesis
    using assms(2) key_event_start_inv resharing_inv_key_event by (blast intro: resharing_inv_event)
qed

lemma resharing_vote_abort_inv:
  assumes "resharing_vote_abort env kei re = Inr re'" "resharing_inv re"
  shows "resharing_inv re'"
proof -
  from assms(1) obtain ke where "key_event_vote_abort env kei (re_resharing_key re) = Inr ke"
    "re' = re\<lparr>re_resharing_key := ke\<rparr>"
    by (auto simp: resharing_vote_abort_def elim!: and_then_InrE)
  then show ?thesis
    using assms(2) key_event_vote_abort_inv resharing_inv_key_event
    by (blast intro: resharing_inv_event)
qed

lemma resharing_inv_keys:
  assumes "resharing_inv re"
  shows "length (re_reshared_keys re) < length (ks_domains (previous_keyset re))"
    and "length (ks_domains (previous_keyset re)) =
      length (dr_domains (rs_domains (re_previous_running_state re)))"
proof -
  have "map kfd_domain_id (ks_domains (previous_keyset re)) =
      map dc_id (dr_domains (rs_domains (re_previous_running_state re)))"
    using assms by (simp add: resharing_inv_def Let_def running_inv_def previous_keyset_def)
  then show len: "length (ks_domains (previous_keyset re)) =
      length (dr_domains (rs_domains (re_previous_running_state re)))"
    by (rule map_eq_imp_length_eq)
  then show "length (re_reshared_keys re) < length (ks_domains (previous_keyset re))"
    using assms by (simp add: resharing_inv_def Let_def)
qed

lemma resharing_vote_reshared_cases:
  assumes "resharing_vote_reshared env kei re = Inr (next, re')" "resharing_inv re"
  defines "n \<equiv> length (re_reshared_keys re)"
    and "prev \<equiv> re_previous_running_state re"
  defines "k \<equiv> \<lparr>kfd_domain_id = dc_id (dr_domains (rs_domains prev) ! n),
        kfd_key = kfd_key (ks_domains (rs_keyset prev) ! n), kfd_attempt = kei_attempt_id kei\<rparr>"
  obtains (pending) ke where
    "key_event_vote_success env kei (kfd_key k) (re_resharing_key re) = Inr (False, ke)"
    "next = None" "re' = re\<lparr>re_resharing_key := ke\<rparr>"
  | (advance) ke where
    "key_event_vote_success env kei (kfd_key k) (re_resharing_key re) = Inr (True, ke)"
    "Suc n < length (dr_domains (rs_domains prev))" "next = None"
    "re' = re\<lparr>re_reshared_keys := re_reshared_keys re @ [k],
        re_resharing_key := key_event_new (resharing_prospective_epoch_id re)
          (dr_domains (rs_domains prev) ! Suc n) (ke_parameters (re_resharing_key re))\<rparr>"
  | (finish) ke where
    "key_event_vote_success env kei (kfd_key k) (re_resharing_key re) = Inr (True, ke)"
    "Suc n = length (dr_domains (rs_domains prev))"
    "next = Some (running_new (rs_domains prev)
        (keyset_new (resharing_prospective_epoch_id re) (re_reshared_keys re @ [k]))
        (ke_parameters (re_resharing_key re)) (rs_add_domains_votes prev))"
proof -
  note keys = resharing_inv_keys [OF assms(2)]
  then have prev_key: "vec_get (ks_domains (previous_keyset re)) n = Some (ks_domains (rs_keyset prev) ! n)"
    by (simp add: vec_get_def n_def prev_def previous_keyset_def)
  from assms(1) prev_key obtain success ke
    where v: "key_event_vote_success env kei (kfd_key k) (re_resharing_key re) = Inr (success, ke)"
    by (auto simp: resharing_vote_reshared_def n_def k_def elim!: and_then_InrE)
  then have frame: "ke_frame (re_resharing_key re) ke"
    by (rule key_event_vote_success_frame)
  have inv: "key_event_inv (re_resharing_key re)"
    "ke_domain (re_resharing_key re) = dr_domains (rs_domains prev) ! n"
    using assms(2) by (auto simp: resharing_inv_def Let_def prev_def n_def)
  show thesis
  proof (cases success)
    case False
    with v assms(1) prev_key show ?thesis
      by (intro pending) (auto simp: resharing_vote_reshared_def n_def k_def)
  next
    case True
    with v obtain c where "verify_vote env kei (re_resharing_key re) = Inr (c, re_resharing_key re)"
      using inv(1) by (auto elim!: key_event_vote_success_True)
    then have kei: "kei_domain_id kei = dc_id (dr_domains (rs_domains prev) ! n)"
      using inv(2) by (auto simp: verify_vote_Inr key_event_id_new_def)
    have params: "ke_parameters ke = ke_parameters (re_resharing_key re)"
      "ke_epoch_id ke = ke_epoch_id (re_resharing_key re)"
      using frame by (simp_all add: ke_frame_def)
    show ?thesis
    proof (cases "Suc n < length (dr_domains (rs_domains prev))")
      case True
      with v \<open>success\<close> kei params assms(1) prev_key show ?thesis
        by (intro advance) (auto simp: resharing_vote_reshared_def get_domain_by_index_def vec_get_def
            n_def k_def prev_def resharing_prospective_epoch_id_def Let_def)
    next
      case False
      with v \<open>success\<close> kei params assms(1) prev_key keys show ?thesis
        by (intro finish) (auto simp: resharing_vote_reshared_def get_domain_by_index_def vec_get_def
            n_def k_def prev_def resharing_prospective_epoch_id_def Let_def)
    qed
  qed
qed

text \<open>The key added for the next domain is the one of the previous keyset.\<close>

lemma key_list_snoc:
  assumes "map kfd_domain_id ks = map dc_id ds" "n < length ks"
    and "key_list xs = take n (key_list ks)"
  shows "key_list (xs @ [\<lparr>kfd_domain_id = dc_id (ds ! n), kfd_key = kfd_key (ks ! n), kfd_attempt = a\<rparr>]) =
    take (Suc n) (key_list ks)"
proof -
  have "kfd_domain_id (ks ! n) = dc_id (ds ! n)"
    using assms(1,2) by (metis length_map nth_map)
  then show ?thesis
    using assms(2,3) by (simp add: key_list_def take_Suc_conv_app_nth)
qed

lemma resharing_vote_reshared_inv:
  assumes "resharing_vote_reshared env kei re = Inr (next, re')" "resharing_inv re"
  shows "next = None \<Longrightarrow> resharing_inv re'"
    and "next = Some rs \<Longrightarrow> running_inv rs \<and>
      key_list (ks_domains (rs_keyset rs)) = key_list (ks_domains (previous_keyset re)) \<and>
      rs_domains rs = rs_domains (re_previous_running_state re) \<and>
      rs_parameters rs = ke_parameters (re_resharing_key re) \<and>
      ks_epoch_id (rs_keyset rs) = resharing_prospective_epoch_id re"
proof -
  let ?prev = "re_previous_running_state re" and ?n = "length (re_reshared_keys re)"
  have inv: "running_inv ?prev" "key_event_inv (re_resharing_key re)"
    "key_list (re_reshared_keys re) = take ?n (key_list (ks_domains (rs_keyset ?prev)))"
    "map kfd_domain_id (ks_domains (rs_keyset ?prev)) = map dc_id (dr_domains (rs_domains ?prev))"
    "parameters_wf (ke_parameters (re_resharing_key re))"
    using assms(2) by (auto simp: resharing_inv_def Let_def running_inv_def key_event_inv_def)
  note keys = resharing_inv_keys [OF assms(2), unfolded previous_keyset_def]
  note snoc = key_list_snoc [OF inv(4) keys(1) inv(3)]
  show "resharing_inv re'" if "next = None"
    using assms
  proof (cases rule: resharing_vote_reshared_cases)
    case (pending ke)
    then show ?thesis
      using assms(2) inv(2) key_event_vote_success_inv key_event_vote_success_frame resharing_inv_event
      by blast
  next
    case (advance ke)
    then show ?thesis
      using assms(2) snoc key_event_inv_new [OF inv(5)]
      by (auto simp: resharing_inv_def Let_def key_event_new_def)
  qed (use that in simp)
  show "running_inv rs \<and>
      key_list (ks_domains (rs_keyset rs)) = key_list (ks_domains (previous_keyset re)) \<and>
      rs_domains rs = rs_domains ?prev \<and> rs_parameters rs = ke_parameters (re_resharing_key re) \<and>
      ks_epoch_id (rs_keyset rs) = resharing_prospective_epoch_id re" if "next = Some rs"
    using assms
  proof (cases rule: resharing_vote_reshared_cases)
    case (finish ke)
    let ?ks = "re_reshared_keys re @ [\<lparr>kfd_domain_id = dc_id (dr_domains (rs_domains ?prev) ! ?n),
        kfd_key = kfd_key (ks_domains (rs_keyset ?prev) ! ?n), kfd_attempt = kei_attempt_id kei\<rparr>]"
    have all: "key_list ?ks = key_list (ks_domains (rs_keyset ?prev))"
      using snoc finish(2) keys by (simp add: key_list_def)
    then have "map fst (key_list ?ks) = map fst (key_list (ks_domains (rs_keyset ?prev)))"
      by simp
    then have "map kfd_domain_id ?ks = map dc_id (dr_domains (rs_domains ?prev))"
      using inv(4) by (simp add: key_list_def o_def)
    moreover have "bt_invar (adv_proposal_by_account (rs_add_domains_votes ?prev))"
      using inv(1) by (simp add: running_inv_def)
    ultimately show ?thesis
      using finish(3) that inv(5) all
      by (auto simp: keyset_new_def running_new_def previous_keyset_def intro!: running_inv_new [unfolded running_new_def])
  qed (use that in auto)
qed

lemma resharing_vote_new_parameters_inv:
  assumes "resharing_vote_new_parameters env e prop re = Inr (next, re')" "resharing_inv re"
  shows "next = None \<Longrightarrow> resharing_inv re'" "next = Some st \<Longrightarrow> resharing_inv st"
proof -
  let ?prev = "re_previous_running_state re"
  from assms(1) obtain accepted prev where
    p: "process_new_parameters_proposal env prop ?prev = Inr (accepted, prev)"
    and e: "e = epoch_next (resharing_prospective_epoch_id re)"
    by (auto simp: resharing_vote_new_parameters_def Let_def elim!: and_then_InrE split: if_splits)
  note facts = process_new_parameters_proposal_Inr [OF p resharing_inv_previous [OF assms(2)]]
  then obtain votes where prev: "prev = ?prev\<lparr>rs_parameters_votes := votes\<rparr>" by blast
  have "resharing_inv (re\<lparr>re_previous_running_state := prev\<rparr>)"
    using assms(2) facts(5) by (simp add: resharing_inv_def Let_def prev)
  then show "resharing_inv re'" if "next = None"
    using that assms(1) p e
    by (auto simp: resharing_vote_new_parameters_def Let_def split: if_splits option.splits)
  have inv: "running_inv ?prev" using assms(2) by (rule resharing_inv_previous)
  then have new: "running_inv (running_new (rs_domains prev) (rs_keyset prev) (rs_parameters prev)
      (rs_add_domains_votes prev))"
    by (intro running_inv_new) (simp_all add: running_inv_def prev)
  have wf: "parameters_wf prop" "parameters_wf (rs_parameters ?prev)"
    using facts(1) inv by (auto simp: proposal_acceptable_def running_inv_def)
  show "resharing_inv st" if "next = Some st"
    using that assms(1) p e facts(1) new key_event_inv_new [OF wf(1)]
      parameters_wf_threshold_pos [OF wf(2)]
    by (auto simp: resharing_vote_new_parameters_def Let_def resharing_inv_def key_list_def key_event_new_def
        running_new_def prev get_domain_by_index_def vec_get_def split: if_splits option.splits)
qed

lemma resharing_vote_cancel_cases:
  assumes "resharing_vote_cancel_resharing env re = Inr (next, re')" "resharing_inv re"
  obtains "signer_account_id env \<in> set (accounts (rs_participants (re_previous_running_state re)))"
    "re' = re\<lparr>re_cancellation_requests := insert (signer_account_id env) (re_cancellation_requests re)\<rparr>"
    "next = (if unat (tp_threshold (rs_parameters (re_previous_running_state re)))
        \<le> card (re_cancellation_requests re')
      then Some ((re_previous_running_state re)\<lparr>rs_previously_cancelled_resharing_epoch_id :=
        Some (resharing_prospective_epoch_id re)\<rparr>) else None)"
proof -
  let ?ps = "rs_participants (re_previous_running_state re)"
  let ?v = "insert (signer_account_id env) (re_cancellation_requests re)"
  have a: "signer_account_id env \<in> set (accounts ?ps)"
    using assms(1) by (auto simp: resharing_vote_cancel_resharing_def authenticated_account_id_Inr
        elim!: and_then_InrE)
  have inv: "participants_wf ?ps" "re_cancellation_requests re \<subseteq> set (accounts ?ps)"
    using assms(2) by (auto simp: resharing_inv_def Let_def running_inv_def parameters_wf_def)
  have "card ?v \<le> card (set (accounts ?ps))"
    using a inv(2) by (intro card_mono) auto
  then have "card ?v < 2 ^ 64"
    using accounts_card [OF inv(1)] participants_wf_len [OF inv(1)] by simp
  then show thesis
    using assms(1) a
    by (intro that) (auto simp: resharing_vote_cancel_resharing_def authenticated_account_id_Inr
        Let_def of_nat_u64_le resharing_prospective_epoch_id_def elim!: and_then_InrE)
qed

lemma running_inv_cancelled [simp]:
  "running_inv (rs\<lparr>rs_previously_cancelled_resharing_epoch_id := x\<rparr>) = running_inv rs"
  by (simp add: running_inv_def)

lemma resharing_vote_cancel_inv:
  assumes "resharing_vote_cancel_resharing env re = Inr (next, re')" "resharing_inv re"
  shows "next = None \<Longrightarrow> resharing_inv re'" "next = Some rs \<Longrightarrow> running_inv rs"
proof -
  have "(next = None \<longrightarrow> resharing_inv re') \<and> (next = Some rs \<longrightarrow> running_inv rs)"
    using assms
    by (rule resharing_vote_cancel_cases)
      (use assms(2) in \<open>auto simp: resharing_inv_def Let_def split: if_splits\<close>)
  then show "next = None \<Longrightarrow> resharing_inv re'" "next = Some rs \<Longrightarrow> running_inv rs" by blast+
qed

section \<open>No panic\<close>

text \<open>
  The index into the previous keyset, the \<open>unwrap\<close> of the first domain and the \<open>unwrap\<close>s
  of the key event cannot fail in a state that satisfies the invariants.
\<close>

lemma process_new_parameters_not_panicked:
  "running_inv rs \<Longrightarrow> process_new_parameters_proposal env prop rs \<noteq> Inl Panicked"
proof -
  have "participants_validate ps \<noteq> Inl Panicked" for ps
    using participants_validate_error by blast
  moreover have "proposal_loop old es mn mx k \<noteq> Inl Panicked" for old es mn mx k
    by (induction old es mn mx k rule: proposal_loop.induct) (auto split: option.splits)
  ultimately have "validate_incoming_proposal tp prop \<noteq> Inl Panicked" for tp
    by (auto simp: validate_incoming_proposal_def threshold_parameters_validate_def and_then_eq_Inl
        validate_threshold_def Let_def split: if_splits)
  then show ?thesis
    by (auto simp: process_new_parameters_proposal_def and_then_eq_Inl authenticated_account_id_Inl
        Let_def split: if_splits prod.splits)
qed

lemma key_event_start_not_panicked:
  "key_event_inv ke \<Longrightarrow> key_event_start env kei t ke \<noteq> Inl Panicked"
  using verify_leader_not_panicked [of "cleanup_if_timed_out env ke" env]
  by (auto simp: key_event_start_def Let_def and_then_eq_Inl key_event_inv_def split: if_splits)

lemma running_not_panicked:
  assumes "running_inv rs"
  shows "running_vote_new_parameters env e prop rs \<noteq> Inl Panicked"
    and "running_vote_add_domains env ds rs \<noteq> Inl Panicked"
proof -
  show "running_vote_new_parameters env e prop rs \<noteq> Inl Panicked"
    using process_new_parameters_not_panicked [OF assms]
    by (auto simp: running_vote_new_parameters_def Let_def and_then_eq_Inl split: if_splits)
  show "running_vote_add_domains env ds rs \<noteq> Inl Panicked"
    by (auto simp: running_vote_add_domains_def Let_def and_then_eq_Inl adv_vote_result
        split: if_splits option.splits dest: authenticated_participant_id_Inl add_domains_error)
qed

lemma initializing_not_panicked:
  assumes "initializing_inv st"
  shows "initializing_start env kei t st \<noteq> Inl Panicked"
    and "initializing_vote_pk env kei pk st \<noteq> Inl Panicked"
    and "initializing_vote_abort env kei st \<noteq> Inl Panicked"
    and "initializing_vote_cancel env n st \<noteq> Inl Panicked"
  using key_event_start_not_panicked [OF initializing_inv_key_event [OF assms]]
  by (auto simp: key_event_votes_not_panicked initializing_start_def initializing_vote_pk_def initializing_vote_abort_def
      initializing_vote_cancel_def and_then_eq_Inl Let_def
      dest: authenticated_participant_id_Inl split: if_splits option.splits)

lemma resharing_not_panicked:
  assumes "resharing_inv re"
  shows "resharing_start env kei t re \<noteq> Inl Panicked"
    and "resharing_vote_reshared env kei re \<noteq> Inl Panicked"
    and "resharing_vote_abort env kei re \<noteq> Inl Panicked"
    and "resharing_vote_cancel_resharing env re \<noteq> Inl Panicked"
    and "resharing_vote_new_parameters env e prop re \<noteq> Inl Panicked"
proof -
  show "resharing_start env kei t re \<noteq> Inl Panicked"
    using key_event_start_not_panicked [OF resharing_inv_key_event [OF assms]]
    by (auto simp: resharing_start_def and_then_eq_Inl)
  show "resharing_vote_abort env kei re \<noteq> Inl Panicked"
    by (auto simp: key_event_votes_not_panicked resharing_vote_abort_def and_then_eq_Inl)
  show "resharing_vote_cancel_resharing env re \<noteq> Inl Panicked"
    by (auto simp: resharing_vote_cancel_resharing_def and_then_eq_Inl authenticated_account_id_Inl Let_def)
  show "resharing_vote_reshared env kei re \<noteq> Inl Panicked"
    using resharing_inv_keys(1) [OF assms]
    by (auto simp: key_event_votes_not_panicked resharing_vote_reshared_def and_then_eq_Inl vec_get_def Let_def
        split: if_splits option.splits)
  show "resharing_vote_new_parameters env e prop re \<noteq> Inl Panicked"
  proof
    assume "resharing_vote_new_parameters env e prop re = Inl Panicked"
    then obtain prev where p: "process_new_parameters_proposal env prop (re_previous_running_state re) =
        Inr (True, prev)" and none: "get_domain_by_index (rs_domains prev) 0 = None"
      using process_new_parameters_not_panicked [OF resharing_inv_previous [OF assms]]
      by (auto simp: resharing_vote_new_parameters_def Let_def and_then_eq_Inl
          split: if_splits option.splits)
    obtain votes where "prev = (re_previous_running_state re)\<lparr>rs_parameters_votes := votes\<rparr>"
      using process_new_parameters_proposal_Inr(3) [OF p resharing_inv_previous [OF assms]] by blast
    with none resharing_inv_keys [OF assms] show False
      by (simp add: get_domain_by_index_def vec_get_None)
  qed
qed

end
