(* ===== verification/Protocol.thy ===== *)
theory Protocol
  imports Protocol_States "HOL-Library.Sublist"
begin

text \<open>
  \<open>crates/contract/src/state.rs\<close>: the protocol state machine, which dispatches to the three
  working states. The invariant of the protocol is preserved by every operation, no
  operation panics in a state that satisfies it, and the public keys of the domains never
  change once they are generated.
\<close>

datatype 'pt protocol_state =
    NotInitialized
  | Initializing "'pt initializing_state"
  | Running "'pt running_state"
  | Resharing "'pt resharing_state"

definition protocol_domain_registry :: "'pt protocol_state \<Rightarrow> domain_registry result" where
  "protocol_domain_registry s =
     (case s of
        Running st \<Rightarrow> Inr (rs_domains st)
      | Resharing st \<Rightarrow> Inr (rs_domains (re_previous_running_state st))
      | _ \<Rightarrow> Inl (StateErr ProtocolStateNotRunningNorResharing))"

definition protocol_public_key :: "'pt protocol_state \<Rightarrow> domain_id \<Rightarrow> 'pt public_key_extended result" where
  "protocol_public_key s i =
     (case s of
        Running st \<Rightarrow> keyset_public_key (rs_keyset st) i
      | Resharing st \<Rightarrow> keyset_public_key (previous_keyset st) i
      | _ \<Rightarrow> Inl (StateErr ProtocolStateNotRunningNorResharing))"

definition protocol_threshold :: "'pt protocol_state \<Rightarrow> threshold result" where
  "protocol_threshold s =
     (case s of
        Initializing st \<Rightarrow> Inr (tp_threshold (ke_parameters (is_generating_key st)))
      | Running st \<Rightarrow> Inr (tp_threshold (rs_parameters st))
      | Resharing st \<Rightarrow> Inr (tp_threshold (rs_parameters (re_previous_running_state st)))
      | NotInitialized \<Rightarrow> Inl (StateErr UnexpectedProtocolState))"

definition protocol_start_keygen_instance ::
  "env \<Rightarrow> key_event_id \<Rightarrow> u64 \<Rightarrow> 'pt protocol_state \<Rightarrow> 'pt protocol_state result" where
  "protocol_start_keygen_instance env kei timeout_blocks s =
     (case s of
        Initializing st \<Rightarrow>
          and_then (initializing_start env kei timeout_blocks st) (\<lambda>st'. Inr (Initializing st'))
      | _ \<Rightarrow> Inl (StateErr ProtocolStateNotInitializing))"

definition protocol_start_reshare_instance ::
  "env \<Rightarrow> key_event_id \<Rightarrow> u64 \<Rightarrow> 'pt protocol_state \<Rightarrow> 'pt protocol_state result" where
  "protocol_start_reshare_instance env kei timeout_blocks s =
     (case s of
        Resharing st \<Rightarrow>
          and_then (resharing_start env kei timeout_blocks st) (\<lambda>st'. Inr (Resharing st'))
      | _ \<Rightarrow> Inl (StateErr ProtocolStateNotResharing))"

definition protocol_vote_reshared ::
  "env \<Rightarrow> key_event_id \<Rightarrow> 'pt protocol_state \<Rightarrow> ('pt protocol_state option \<times> 'pt protocol_state) result" where
  "protocol_vote_reshared env kei s =
     (case s of
        Resharing st \<Rightarrow>
          and_then (resharing_vote_reshared env kei st)
            (\<lambda>(x, st'). Inr (map_option Running x, Resharing st'))
      | _ \<Rightarrow> Inl (StateErr ProtocolStateNotResharing))"

definition protocol_vote_cancel_resharing ::
  "env \<Rightarrow> 'pt protocol_state \<Rightarrow> ('pt protocol_state option \<times> 'pt protocol_state) result" where
  "protocol_vote_cancel_resharing env s =
     (case s of
        Resharing st \<Rightarrow>
          and_then (resharing_vote_cancel_resharing env st)
            (\<lambda>(x, st'). Inr (map_option Running x, Resharing st'))
      | _ \<Rightarrow> Inl (StateErr ProtocolStateNotResharing))"

definition protocol_vote_pk ::
  "env \<Rightarrow> key_event_id \<Rightarrow> 'pt public_key_extended \<Rightarrow> 'pt protocol_state
    \<Rightarrow> ('pt protocol_state option \<times> 'pt protocol_state) result" where
  "protocol_vote_pk env kei pk s =
     (case s of
        Initializing st \<Rightarrow>
          and_then (initializing_vote_pk env kei pk st)
            (\<lambda>(x, st'). Inr (map_option Running x, Initializing st'))
      | _ \<Rightarrow> Inl (StateErr ProtocolStateNotInitializing))"

definition protocol_vote_new_parameters ::
  "env \<Rightarrow> epoch_id \<Rightarrow> threshold_parameters \<Rightarrow> 'pt protocol_state
    \<Rightarrow> ('pt protocol_state option \<times> 'pt protocol_state) result" where
  "protocol_vote_new_parameters env epoch proposal s =
     (case s of
        Running st \<Rightarrow>
          and_then (running_vote_new_parameters env epoch proposal st)
            (\<lambda>(x, st'). Inr (map_option Resharing x, Running st'))
      | Resharing st \<Rightarrow>
          and_then (resharing_vote_new_parameters env epoch proposal st)
            (\<lambda>(x, st'). Inr (map_option Resharing x, Resharing st'))
      | _ \<Rightarrow> Inl (StateErr ProtocolStateNotRunningNorResharing))"

definition protocol_vote_add_domains ::
  "env \<Rightarrow> domain_config list \<Rightarrow> 'pt protocol_state
    \<Rightarrow> ('pt protocol_state option \<times> 'pt protocol_state) result" where
  "protocol_vote_add_domains env domains s =
     (case s of
        Running st \<Rightarrow>
          and_then (running_vote_add_domains env domains st)
            (\<lambda>(x, st'). Inr (map_option Initializing x, Running st'))
      | _ \<Rightarrow> Inl (StateErr ProtocolStateNotRunning))"

definition protocol_vote_abort_key_event_instance ::
  "env \<Rightarrow> key_event_id \<Rightarrow> 'pt protocol_state \<Rightarrow> 'pt protocol_state result" where
  "protocol_vote_abort_key_event_instance env kei s =
     (case s of
        Resharing st \<Rightarrow> and_then (resharing_vote_abort env kei st) (\<lambda>st'. Inr (Resharing st'))
      | Initializing st \<Rightarrow> and_then (initializing_vote_abort env kei st) (\<lambda>st'. Inr (Initializing st'))
      | _ \<Rightarrow> Inl (StateErr ProtocolStateNotRunningNorResharing))"

definition protocol_vote_cancel_keygen ::
  "env \<Rightarrow> u64 \<Rightarrow> 'pt protocol_state \<Rightarrow> ('pt protocol_state option \<times> 'pt protocol_state) result" where
  "protocol_vote_cancel_keygen env next_domain_id s =
     (case s of
        Initializing st \<Rightarrow>
          and_then (initializing_vote_cancel env next_domain_id st)
            (\<lambda>(x, st'). Inr (map_option Running x, Initializing st'))
      | _ \<Rightarrow> Inl (StateErr ProtocolStateNotInitializing))"

definition protocol_most_recent_domain_for_protocol ::
  "'pt protocol_state \<Rightarrow> signature_scheme \<Rightarrow> domain_id result" where
  "protocol_most_recent_domain_for_protocol s scheme =
     and_then (protocol_domain_registry s) (\<lambda>r.
       ok_or (most_recent_domain_for_protocol r scheme) (DomainErr NoSuchDomain))"

text \<open>The error of \<open>threshold_parameters\<close>, \<open>ContractNotInitialized\<close>, has a single value.\<close>

definition protocol_threshold_parameters :: "'pt protocol_state \<Rightarrow> unit + threshold_parameters" where
  "protocol_threshold_parameters s =
     (case s of
        NotInitialized \<Rightarrow> Inl ()
      | Initializing st \<Rightarrow> Inr (ke_parameters (is_generating_key st))
      | Running st \<Rightarrow> Inr (rs_parameters st)
      | Resharing st \<Rightarrow> Inr (rs_parameters (re_previous_running_state st)))"

definition protocol_name :: "'pt protocol_state \<Rightarrow> string" where
  "protocol_name s =
     (case s of
        NotInitialized \<Rightarrow> ''NotInitialized''
      | Initializing _ \<Rightarrow> ''Initializing''
      | Running _ \<Rightarrow> ''Running''
      | Resharing _ \<Rightarrow> ''Resharing'')"

definition is_running_or_resharing :: "'pt protocol_state \<Rightarrow> bool" where
  "is_running_or_resharing s = (case s of Running _ \<Rightarrow> True | Resharing _ \<Rightarrow> True | _ \<Rightarrow> False)"

definition authenticate_update_vote :: "env \<Rightarrow> 'pt protocol_state \<Rightarrow> unit result" where
  "authenticate_update_vote env s =
     (case s of
        Initializing st \<Rightarrow>
          and_then (authenticated_participant_id env (ke_participants (is_generating_key st))) (\<lambda>_. Inr ())
      | Running st \<Rightarrow>
          and_then (authenticated_participant_id env (rs_participants st)) (\<lambda>_. Inr ())
      | Resharing st \<Rightarrow>
          and_then (authenticated_participant_id env (rs_participants (re_previous_running_state st)))
            (\<lambda>_. Inr ())
      | NotInitialized \<Rightarrow> Inl (StateErr UnexpectedProtocolState))"

definition active_participants :: "'pt protocol_state \<Rightarrow> participants result" where
  "active_participants s =
     (case s of
        Initializing st \<Rightarrow> Inr (ke_participants (is_generating_key st))
      | Running st \<Rightarrow> Inr (rs_participants st)
      | Resharing st \<Rightarrow> Inr (ke_participants (re_resharing_key st))
      | NotInitialized \<Rightarrow> Inl Panicked)"

definition is_existing_or_prospective_participant ::
  "'pt protocol_state \<Rightarrow> account_id \<Rightarrow> bool result" where
  "is_existing_or_prospective_participant s a =
     (case s of
        Initializing st \<Rightarrow> Inr (initializing_is_participant st a)
      | Running st \<Rightarrow> Inr (running_is_participant st a)
      | Resharing st \<Rightarrow> Inr (is_participant_or_prospective_participant st a)
      | NotInitialized \<Rightarrow> Inl (StateErr UnexpectedProtocolState))"

text \<open>
  What the contract does with the outcome of a vote: it moves to the successor state, if
  there is one, and keeps the mutated state otherwise.
\<close>

definition settle :: "'pt protocol_state option \<times> 'pt protocol_state \<Rightarrow> 'pt protocol_state" where
  "settle r = (case fst r of Some s \<Rightarrow> s | None \<Rightarrow> snd r)"

lemma settle_simps [simp]: "settle (Some s, s') = s" "settle (None, s') = s'"
  by (simp_all add: settle_def)

section \<open>Invariant and known keys\<close>

definition protocol_inv :: "'pt protocol_state \<Rightarrow> bool" where
  "protocol_inv s =
     (case s of
        NotInitialized \<Rightarrow> True
      | Initializing st \<Rightarrow> initializing_inv st
      | Running st \<Rightarrow> running_inv st
      | Resharing st \<Rightarrow> resharing_inv st)"

definition known_keys :: "'pt protocol_state \<Rightarrow> (domain_id \<times> 'pt public_key_extended) list" where
  "known_keys s =
     (case s of
        NotInitialized \<Rightarrow> []
      | Initializing st \<Rightarrow> key_list (is_generated_keys st)
      | Running st \<Rightarrow> key_list (ks_domains (rs_keyset st))
      | Resharing st \<Rightarrow> key_list (ks_domains (previous_keyset st)))"

text \<open>A legal evolution keeps the invariant and every known key.\<close>

definition evolves :: "'pt protocol_state \<Rightarrow> 'pt protocol_state \<Rightarrow> bool" where
  "evolves s s' \<longleftrightarrow> (protocol_inv s \<longrightarrow> protocol_inv s' \<and> prefix (known_keys s) (known_keys s'))"

lemma evolves_refl [simp]: "evolves s s"
  by (simp add: evolves_def)

lemma evolves_trans: "evolves s s' \<Longrightarrow> evolves s' s'' \<Longrightarrow> evolves s s''"
  by (auto simp: evolves_def)

section \<open>Every operation is a legal evolution\<close>

lemma transition_to_resharing_keys:
  assumes "transition_to_resharing_no_checks prop rs = (re, rs')" "running_inv rs"
  shows "re = Some st \<Longrightarrow> previous_keyset st = rs_keyset rs"
    and "key_list (ks_domains (rs_keyset rs')) = key_list (ks_domains (rs_keyset rs))"
proof -
  have aligned: "map kfd_domain_id (ks_domains (rs_keyset rs)) = map dc_id (dr_domains (rs_domains rs))"
    using assms(2) by (simp add: running_inv_def)
  show "re = Some st \<Longrightarrow> previous_keyset st = rs_keyset rs"
    using assms(1) by (auto simp: transition_to_resharing_no_checks_def previous_keyset_def
        running_new_def split: option.splits)
  show "key_list (ks_domains (rs_keyset rs')) = key_list (ks_domains (rs_keyset rs))"
    using assms(1) aligned
    by (auto simp: transition_to_resharing_no_checks_def get_domain_by_index_def vec_get_def
        running_new_def keyset_new_def split: option.splits if_splits)
qed

lemma running_vote_new_parameters_keys:
  assumes "running_vote_new_parameters env e prop rs = Inr (re, rs')" "running_inv rs"
  shows "re = Some st \<Longrightarrow> previous_keyset st = rs_keyset rs"
    and "key_list (ks_domains (rs_keyset rs')) = key_list (ks_domains (rs_keyset rs))"
proof -
  have "(re = Some st \<longrightarrow> previous_keyset st = rs_keyset rs) \<and>
      key_list (ks_domains (rs_keyset rs')) = key_list (ks_domains (rs_keyset rs))"
    using assms
  proof (rule running_vote_new_parameters_Inr)
    assume "process_new_parameters_proposal env prop rs = Inr (False, rs')" "re = None"
    then show ?thesis
      using process_new_parameters_proposal_Inr(3) [OF _ assms(2)] by fastforce
  next
    fix rs1
    assume p: "process_new_parameters_proposal env prop rs = Inr (True, rs1)"
      and t: "transition_to_resharing_no_checks prop rs1 = (re, rs')"
    note facts = process_new_parameters_proposal_Inr [OF p assms(2)]
    then obtain votes where "rs1 = rs\<lparr>rs_parameters_votes := votes\<rparr>" by blast
    then show ?thesis
      using transition_to_resharing_keys [OF t facts(5)] by auto
  qed
  then show "re = Some st \<Longrightarrow> previous_keyset st = rs_keyset rs"
    "key_list (ks_domains (rs_keyset rs')) = key_list (ks_domains (rs_keyset rs))" by blast+
qed

lemma resharing_vote_new_parameters_keys:
  assumes "resharing_vote_new_parameters env e prop re = Inr (next, re')" "resharing_inv re"
  shows "next = Some st \<Longrightarrow> previous_keyset st = previous_keyset re"
    and "previous_keyset re' = previous_keyset re"
proof -
  from assms(1) obtain accepted prev where
    p: "process_new_parameters_proposal env prop (re_previous_running_state re) = Inr (accepted, prev)"
    and e: "e = epoch_next (resharing_prospective_epoch_id re)"
    by (auto simp: resharing_vote_new_parameters_def Let_def elim!: and_then_InrE split: if_splits)
  obtain votes where prev: "prev = (re_previous_running_state re)\<lparr>rs_parameters_votes := votes\<rparr>"
    using process_new_parameters_proposal_Inr(3) [OF p resharing_inv_previous [OF assms(2)]] by blast
  show "next = Some st \<Longrightarrow> previous_keyset st = previous_keyset re"
    "previous_keyset re' = previous_keyset re"
    using assms(1) p e prev
    by (auto simp: resharing_vote_new_parameters_def Let_def previous_keyset_def running_new_def
        split: if_splits option.splits)
qed

lemmas event_inv_intros =
  initializing_inv_event resharing_inv_event key_event_start_inv key_event_vote_abort_inv
  initializing_inv_key_event resharing_inv_key_event

lemma evolves_start_keygen:
  "protocol_start_keygen_instance env kei t s = Inr s' \<Longrightarrow> evolves s s'"
  by (auto simp: protocol_start_keygen_instance_def evolves_def protocol_inv_def known_keys_def
      initializing_start_def elim!: and_then_InrE split: protocol_state.splits
      intro: event_inv_intros)

lemma evolves_start_reshare:
  "protocol_start_reshare_instance env kei t s = Inr s' \<Longrightarrow> evolves s s'"
  by (auto simp: protocol_start_reshare_instance_def evolves_def protocol_inv_def known_keys_def
      resharing_start_def previous_keyset_def elim!: and_then_InrE split: protocol_state.splits
      intro: event_inv_intros)

lemma evolves_vote_abort:
  "protocol_vote_abort_key_event_instance env kei s = Inr s' \<Longrightarrow> evolves s s'"
  by (auto simp: protocol_vote_abort_key_event_instance_def evolves_def protocol_inv_def known_keys_def
      resharing_vote_abort_def initializing_vote_abort_def previous_keyset_def
      elim!: and_then_InrE split: protocol_state.splits intro: event_inv_intros)

lemma evolves_vote_pk:
  assumes "protocol_vote_pk env kei pk s = Inr r"
  shows "evolves s (settle r)"
proof (cases s)
  case (Initializing st)
  with assms obtain x st' where v: "initializing_vote_pk env kei pk st = Inr (x, st')"
    "r = (map_option Running x, Initializing st')"
    by (auto simp: protocol_vote_pk_def elim!: and_then_InrE)
  have "protocol_inv (settle r) \<and> prefix (known_keys s) (known_keys (settle r))" if "initializing_inv st"
    using v(1) that
  proof (cases rule: initializing_vote_pk_cases)
    case (pending ke)
    then show ?thesis
      using initializing_vote_pk_inv [OF v(1) that] v(2) Initializing
      by (simp add: protocol_inv_def known_keys_def)
  next
    case (advance ke k)
    then show ?thesis
      using initializing_vote_pk_inv [OF v(1) that] v(2) Initializing
      by (simp add: protocol_inv_def known_keys_def key_list_def)
  next
    case (finish ke k)
    then show ?thesis
      using initializing_vote_pk_inv(2) [OF v(1) that] v(2) Initializing
      by (simp add: protocol_inv_def known_keys_def key_list_def running_new_def keyset_new_def)
  qed
  then show ?thesis
    by (simp add: evolves_def protocol_inv_def Initializing)
qed (use assms in \<open>auto simp: protocol_vote_pk_def\<close>)

lemma evolves_vote_cancel_keygen:
  assumes "protocol_vote_cancel_keygen env n s = Inr r"
  shows "evolves s (settle r)"
proof (cases s)
  case (Initializing st)
  with assms obtain x st' where v: "initializing_vote_cancel env n st = Inr (x, st')"
    "r = (map_option Running x, Initializing st')"
    by (auto simp: protocol_vote_cancel_keygen_def elim!: and_then_InrE)
  have "protocol_inv (settle r) \<and> prefix (known_keys s) (known_keys (settle r))" if "initializing_inv st"
    using v(1) that
    by (rule initializing_vote_cancel_cases)
      (use initializing_vote_cancel_inv [OF v(1) that] v(2) Initializing in
        \<open>auto simp: protocol_inv_def known_keys_def running_new_def keyset_new_def split: if_splits\<close>)
  then show ?thesis
    by (simp add: evolves_def protocol_inv_def Initializing)
qed (use assms in \<open>auto simp: protocol_vote_cancel_keygen_def\<close>)

lemma evolves_vote_reshared:
  assumes "protocol_vote_reshared env kei s = Inr r"
  shows "evolves s (settle r)"
proof (cases s)
  case (Resharing st)
  with assms obtain x st' where v: "resharing_vote_reshared env kei st = Inr (x, st')"
    "r = (map_option Running x, Resharing st')"
    by (auto simp: protocol_vote_reshared_def elim!: and_then_InrE)
  have "protocol_inv (settle r) \<and> prefix (known_keys s) (known_keys (settle r))" if "resharing_inv st"
  proof (cases x)
    case None
    have "previous_keyset st' = previous_keyset st"
      using v(1) that None
      by (cases rule: resharing_vote_reshared_cases) (auto simp: previous_keyset_def)
    then show ?thesis
      using resharing_vote_reshared_inv(1) [OF v(1) that None] v(2) Resharing None
      by (simp add: protocol_inv_def known_keys_def)
  next
    case (Some rs)
    then show ?thesis
      using resharing_vote_reshared_inv(2) [OF v(1) that Some] v(2) Resharing
      by (simp add: protocol_inv_def known_keys_def)
  qed
  then show ?thesis
    by (simp add: evolves_def protocol_inv_def Resharing)
qed (use assms in \<open>auto simp: protocol_vote_reshared_def\<close>)

lemma evolves_vote_cancel_resharing:
  assumes "protocol_vote_cancel_resharing env s = Inr r"
  shows "evolves s (settle r)"
proof (cases s)
  case (Resharing st)
  with assms obtain x st' where v: "resharing_vote_cancel_resharing env st = Inr (x, st')"
    "r = (map_option Running x, Resharing st')"
    by (auto simp: protocol_vote_cancel_resharing_def elim!: and_then_InrE)
  have "protocol_inv (settle r) \<and> prefix (known_keys s) (known_keys (settle r))" if "resharing_inv st"
    using v(1) that
    by (rule resharing_vote_cancel_cases)
      (use resharing_vote_cancel_inv [OF v(1) that] v(2) Resharing in
        \<open>auto simp: protocol_inv_def known_keys_def previous_keyset_def split: if_splits\<close>)
  then show ?thesis
    by (simp add: evolves_def protocol_inv_def Resharing)
qed (use assms in \<open>auto simp: protocol_vote_cancel_resharing_def\<close>)

lemma evolves_vote_add_domains:
  assumes "protocol_vote_add_domains env ds s = Inr r"
  shows "evolves s (settle r)"
proof (cases s)
  case (Running st)
  with assms obtain x st' where v: "running_vote_add_domains env ds st = Inr (x, st')"
    "r = (map_option Initializing x, Running st')"
    by (auto simp: protocol_vote_add_domains_def elim!: and_then_InrE)
  have "protocol_inv (settle r) \<and> prefix (known_keys s) (known_keys (settle r))" if inv: "running_inv st"
    using v(1) inv
  proof (rule running_vote_add_domains_Inr)
    fix i
    assume st': "st' = st\<lparr>rs_add_domains_votes := \<lparr>adv_proposal_by_account =
        bt_insert i ds (adv_proposal_by_account (rs_add_domains_votes st))\<rparr>\<rparr>"
      and x: "\<And>y. x = Some y \<Longrightarrow> add_domains (rs_domains st) ds = Inr (is_domains y) \<and>
        y = \<lparr>is_domains = is_domains y, is_epoch_id = ks_epoch_id (rs_keyset st),
              is_generated_keys = ks_domains (rs_keyset st),
              is_generating_key = key_event_new (ks_epoch_id (rs_keyset st)) (hd ds) (rs_parameters st),
              is_cancel_votes = {}\<rparr>"
    have "is_generated_keys y = ks_domains (rs_keyset st)" if "x = Some y" for y
      using x [OF that] by (metis initializing_state.select_convs(3))
    then show ?thesis
      using running_vote_add_domains_inv [OF v(1) inv] v(2) Running st'
      by (cases x) (auto simp: protocol_inv_def known_keys_def)
  qed
  then show ?thesis
    by (simp add: evolves_def protocol_inv_def Running)
qed (use assms in \<open>auto simp: protocol_vote_add_domains_def\<close>)

lemma evolves_vote_new_parameters:
  assumes "protocol_vote_new_parameters env e prop s = Inr r"
  shows "evolves s (settle r)"
proof (cases s)
  case (Running st)
  with assms obtain x st' where v: "running_vote_new_parameters env e prop st = Inr (x, st')"
    "r = (map_option Resharing x, Running st')"
    by (auto simp: protocol_vote_new_parameters_def elim!: and_then_InrE)
  then show ?thesis
    using running_vote_new_parameters_inv [OF v(1)] running_vote_new_parameters_keys [OF v(1)] Running
    by (cases x) (auto simp: evolves_def protocol_inv_def known_keys_def)
next
  case (Resharing st)
  with assms obtain x st' where v: "resharing_vote_new_parameters env e prop st = Inr (x, st')"
    "r = (map_option Resharing x, Resharing st')"
    by (auto simp: protocol_vote_new_parameters_def elim!: and_then_InrE)
  then show ?thesis
    using resharing_vote_new_parameters_inv [OF v(1)] resharing_vote_new_parameters_keys [OF v(1)] Resharing
    by (cases x) (auto simp: evolves_def protocol_inv_def known_keys_def)
qed (use assms in \<open>auto simp: protocol_vote_new_parameters_def\<close>)

section \<open>Public keys\<close>

lemma find_key_list:
  "map_of (key_list ks) i = map_option kfd_key (List.find (\<lambda>k. kfd_domain_id k = i) ks)"
  by (induction ks) (auto simp: key_list_def)

lemma keyset_public_key_map_of:
  "keyset_public_key ks i =
    (case map_of (key_list (ks_domains ks)) i of None \<Rightarrow> Inl (DomainErr NoSuchDomain) | Some k \<Rightarrow> Inr k)"
  by (auto simp: keyset_public_key_def find_key_list split: option.splits)

lemma protocol_public_key_known:
  "is_running_or_resharing s \<Longrightarrow> protocol_public_key s i =
    (case map_of (known_keys s) i of None \<Rightarrow> Inl (DomainErr NoSuchDomain) | Some k \<Rightarrow> Inr k)"
  by (auto simp: is_running_or_resharing_def protocol_public_key_def known_keys_def
      keyset_public_key_map_of split: protocol_state.splits option.splits)

lemma protocol_public_key_running:
  "protocol_public_key s i = Inr k \<Longrightarrow> is_running_or_resharing s"
  by (auto simp: is_running_or_resharing_def protocol_public_key_def split: protocol_state.splits)

lemma public_key_prefix:
  assumes "prefix (known_keys s) (known_keys s')" "is_running_or_resharing s'"
    and "protocol_public_key s i = Inr k"
  shows "protocol_public_key s' i = Inr k"
proof -
  have "map_of (known_keys s) i = Some k"
    using assms(3) protocol_public_key_known [OF protocol_public_key_running [OF assms(3)], of i]
    by (auto split: option.splits)
  then have "map_of (known_keys s') i = Some k"
    using assms(1) by (auto simp: prefix_def map_add_Some_iff)
  then show ?thesis
    using protocol_public_key_known [OF assms(2)] by simp
qed

section \<open>Properties\<close>

definition vote_of :: "'pt protocol_state \<Rightarrow> account_id \<Rightarrow> threshold_parameters option" where
  "vote_of s a =
     (case s of
        Running st \<Rightarrow> bt_get (tpv_proposal_by_account (rs_parameters_votes st)) a
      | Resharing st \<Rightarrow>
          bt_get (tpv_proposal_by_account (rs_parameters_votes (re_previous_running_state st))) a
      | _ \<Rightarrow> None)"

lemma process_accepted_quorum:
  assumes "process_new_parameters_proposal env prop rs = Inr (True, rs')" "running_inv rs"
  shows "\<forall>a \<in> set (accounts (tp_participants prop)). a = signer_account_id env \<or>
      bt_get (tpv_proposal_by_account (rs_parameters_votes rs)) a = Some prop"
    and "unat (tp_threshold (rs_parameters rs)) \<le>
      card {a \<in> set (accounts (rs_participants rs)). a = signer_account_id env \<or>
        bt_get (tpv_proposal_by_account (rs_parameters_votes rs)) a = Some prop}"
proof -
  note facts = process_new_parameters_proposal_Inr [OF assms]
  show all: "\<forall>a \<in> set (accounts (tp_participants prop)). a = signer_account_id env \<or>
      bt_get (tpv_proposal_by_account (rs_parameters_votes rs)) a = Some prop"
    using facts(6) facts(4) by (auto simp: proposal_voters_def split: if_splits)
  have "unat (tp_threshold (rs_parameters rs)) \<le>
      card (set (accounts (tp_participants prop)) \<inter> set (accounts (rs_participants rs)))"
    using facts(1) by (rule proposal_acceptable_quorum)
  also have "\<dots> \<le> card {a \<in> set (accounts (rs_participants rs)). a = signer_account_id env \<or>
        bt_get (tpv_proposal_by_account (rs_parameters_votes rs)) a = Some prop}"
    using all by (intro card_mono) auto
  finally show "unat (tp_threshold (rs_parameters rs)) \<le>
      card {a \<in> set (accounts (rs_participants rs)). a = signer_account_id env \<or>
        bt_get (tpv_proposal_by_account (rs_parameters_votes rs)) a = Some prop}" .
qed

definition sample_keys :: "unit key_for_domain list" where
  "sample_keys = [\<lparr>kfd_domain_id = 0, kfd_key = sample_key, kfd_attempt = 0\<rparr>]"

definition sample_running :: "unit running_state" where
  "sample_running = \<lparr>rs_domains = \<lparr>dr_domains = [sample_domain], dr_next_domain_id = 1\<rparr>,
     rs_keyset = keyset_new 4 sample_keys, rs_parameters = sample_params,
     rs_parameters_votes = \<lparr>tpv_proposal_by_account =
       [(''a'', sample_proposal), (''b'', sample_proposal), (''c'', sample_proposal)]\<rparr>,
     rs_add_domains_votes = adv_default, rs_previously_cancelled_resharing_epoch_id = None\<rparr>"

lemma sample_running_inv: "running_inv sample_running"
proof -
  have "bt_get [(''a'', sample_proposal), (''b'', sample_proposal), (''c'', sample_proposal)] a = Some p \<Longrightarrow>
      p = sample_proposal \<and> a \<in> {''a'', ''b'', ''c''}" for a p
    by (auto simp: bt_get_def split: if_splits)
  moreover have "{''a'', ''b'', ''c''} \<subseteq> set (accounts (tp_participants sample_proposal))"
    by code_simp
  moreover have "bt_invar [(''a'', sample_proposal), (''b'', sample_proposal), (''c'', sample_proposal)]"
    by code_simp
  ultimately show ?thesis
    using sample_params_wf
    by (auto simp: running_inv_def sample_running_def sample_keys_def keyset_new_def adv_default_def
        sample_domain_def)
qed

text \<open>
  C8: the protocol starts resharing only by agreement. When a vote of \<open>vote_new_parameters\<close>
  leads to the resharing state, the proposal is acceptable with respect to the current
  parameters, every proposed participant has voted for exactly this proposal, at least the
  current threshold of current participants has, the resharing is for the proposed
  parameters, and the keys it starts from are the current ones.
\<close>

theorem resharing_needs_agreement:
  assumes "protocol_inv s"
    and "protocol_vote_new_parameters env e prop s = Inr (Some (Resharing re), s')"
  shows "\<exists>cur. protocol_threshold_parameters s = Inr cur \<and> proposal_acceptable cur prop \<and>
    (\<forall>a \<in> set (accounts (tp_participants prop)). a = signer_account_id env \<or> vote_of s a = Some prop) \<and>
    unat (tp_threshold cur) \<le> card {a \<in> set (accounts (tp_participants cur)).
      a = signer_account_id env \<or> vote_of s a = Some prop} \<and>
    ke_parameters (re_resharing_key re) = prop \<and> known_keys (Resharing re) = known_keys s"
proof (cases s)
  case (Running rs)
  then have v: "running_vote_new_parameters env e prop rs = Inr (Some re, rs'')" if "s' = Running rs''" for rs''
    using assms(2) that by (auto simp: protocol_vote_new_parameters_def elim!: and_then_InrE)
  obtain rs'' where "s' = Running rs''"
    using assms(2) Running by (auto simp: protocol_vote_new_parameters_def elim!: and_then_InrE)
  note v = v [OF this]
  have inv: "running_inv rs" using assms(1) Running by (simp add: protocol_inv_def)
  from v inv obtain rs1 where p: "process_new_parameters_proposal env prop rs = Inr (True, rs1)"
    and t: "transition_to_resharing_no_checks prop rs1 = (Some re, rs'')"
    by (auto elim!: running_vote_new_parameters_Inr)
  have "ke_parameters (re_resharing_key re) = prop"
    using t by (auto simp: transition_to_resharing_no_checks_def key_event_new_def split: option.splits)
  moreover have "previous_keyset re = rs_keyset rs"
    using running_vote_new_parameters_keys(1) [OF v inv] by blast
  ultimately show ?thesis
    using process_accepted_quorum [OF p inv] process_new_parameters_proposal_Inr(1) [OF p inv] Running
    by (simp add: protocol_threshold_parameters_def vote_of_def known_keys_def)
next
  case (Resharing st)
  then obtain st' where v: "resharing_vote_new_parameters env e prop st = Inr (Some re, st')"
    using assms(2) by (auto simp: protocol_vote_new_parameters_def elim!: and_then_InrE)
  have inv: "resharing_inv st" using assms(1) Resharing by (simp add: protocol_inv_def)
  from v obtain prev where
    p: "process_new_parameters_proposal env prop (re_previous_running_state st) = Inr (True, prev)"
    and "ke_parameters (re_resharing_key re) = prop"
    by (auto simp: resharing_vote_new_parameters_def Let_def key_event_new_def
        elim!: and_then_InrE split: if_splits option.splits)
  moreover have "previous_keyset re = previous_keyset st"
    using resharing_vote_new_parameters_keys(1) [OF v inv] by blast
  ultimately show ?thesis
    using process_accepted_quorum [OF p resharing_inv_previous [OF inv]]
      process_new_parameters_proposal_Inr(1) [OF p resharing_inv_previous [OF inv]] Resharing
    by (simp add: protocol_threshold_parameters_def vote_of_def known_keys_def)
qed (use assms(2) in \<open>auto simp: protocol_vote_new_parameters_def\<close>)

lemma sample_vote_accepted:
  "\<exists>re s'. protocol_vote_new_parameters (as_account ''d'' sample_env) 5 sample_proposal (Running sample_running) =
    Inr (Some (Resharing re), s')"
proof -
  have "fst (projr (protocol_vote_new_parameters (as_account ''d'' sample_env) 5 sample_proposal
      (Running sample_running))) \<noteq> None"
    "is_ok (protocol_vote_new_parameters (as_account ''d'' sample_env) 5 sample_proposal (Running sample_running))"
    by code_simp+
  then show ?thesis
    by (auto simp: is_ok_iff protocol_vote_new_parameters_def elim!: and_then_InrE)
qed

theorem resharing_needs_agreement_witness:
  "\<exists>cur. protocol_threshold_parameters (Running sample_running) = Inr cur \<and>
    proposal_acceptable cur sample_proposal \<and>
    (\<forall>a \<in> set (accounts (tp_participants sample_proposal)).
      a = ''d'' \<or> vote_of (Running sample_running) a = Some sample_proposal) \<and>
    unat (tp_threshold cur) \<le> card {a \<in> set (accounts (tp_participants cur)).
      a = ''d'' \<or> vote_of (Running sample_running) a = Some sample_proposal}"
proof -
  obtain re s' where "protocol_vote_new_parameters (as_account ''d'' sample_env) 5 sample_proposal
      (Running sample_running) = Inr (Some (Resharing re), s')"
    using sample_vote_accepted by blast
  moreover have "protocol_inv (Running sample_running)"
    using sample_running_inv by (simp add: protocol_inv_def)
  ultimately show ?thesis
    using resharing_needs_agreement [of "Running sample_running" "as_account ''d'' sample_env" 5 sample_proposal re s']
    by (auto simp: as_account_def)
qed

text \<open>
  C15: no operation of the protocol panics. In a state that satisfies the invariant the index
  into the previous keyset, the \<open>unwrap\<close> of the first domain, of the leader and of the key
  event instance all succeed, whatever the arguments and the caller.
\<close>

theorem protocol_never_panics:
  assumes "protocol_inv s"
  shows "protocol_start_keygen_instance env kei t s \<noteq> Inl Panicked \<and>
    protocol_start_reshare_instance env kei t s \<noteq> Inl Panicked \<and>
    protocol_vote_pk env kei pk s \<noteq> Inl Panicked \<and>
    protocol_vote_reshared env kei s \<noteq> Inl Panicked \<and>
    protocol_vote_cancel_resharing env s \<noteq> Inl Panicked \<and>
    protocol_vote_new_parameters env e prop s \<noteq> Inl Panicked \<and>
    protocol_vote_add_domains env ds s \<noteq> Inl Panicked \<and>
    protocol_vote_abort_key_event_instance env kei s \<noteq> Inl Panicked \<and>
    protocol_vote_cancel_keygen env n s \<noteq> Inl Panicked"
  using assms
  by (cases s) (auto simp: protocol_inv_def and_then_eq_Inl running_not_panicked
      initializing_not_panicked resharing_not_panicked protocol_start_keygen_instance_def
      protocol_start_reshare_instance_def protocol_vote_pk_def protocol_vote_reshared_def
      protocol_vote_cancel_resharing_def protocol_vote_new_parameters_def protocol_vote_add_domains_def
      protocol_vote_abort_key_event_instance_def protocol_vote_cancel_keygen_def)

theorem protocol_never_panics_witness:
  "protocol_vote_new_parameters sample_env 5 sample_proposal (Running sample_running) \<noteq> Inl Panicked"
proof -
  have "protocol_inv (Running sample_running)"
    using sample_running_inv by (simp add: protocol_inv_def)
  then show ?thesis
    using protocol_never_panics [of "Running sample_running" sample_env sample_kei 0 sample_key 5 sample_proposal "[]" 0]
    by blast
qed

definition domains_vote_of :: "'pt running_state \<Rightarrow> participant_id \<Rightarrow> domain_config list option" where
  "domains_vote_of rs i = bt_get (adv_proposal_by_account (rs_add_domains_votes rs)) i"

text \<open>
  C18: domains are added only unanimously. When a vote of \<open>vote_add_domains\<close> leads to the
  initializing state, all domains have a scheme that fits their purpose, their identifiers
  continue the registry's counter, and every current participant has voted for exactly
  this list of domains; nothing but the new domains is added.
\<close>

theorem adding_domains_needs_everybody:
  assumes "running_inv rs" "running_vote_add_domains env ds rs = Inr (Some st, rs')"
  shows "\<exists>i. authenticated_participant_id env (rs_participants rs) = Inr i \<and>
    (\<forall>j \<in> set (ids (rs_participants rs)). j = i \<or> domains_vote_of rs j = Some ds) \<and>
    (\<forall>d \<in> set ds. is_valid_scheme_for_purpose (dc_purpose d) (dc_scheme d)) \<and>
    map dc_id ds = map (\<lambda>k. dr_next_domain_id (rs_domains rs) + of_nat k) [0 ..< length ds] \<and>
    dr_domains (is_domains st) = dr_domains (rs_domains rs) @ ds \<and>
    is_generated_keys st = ks_domains (rs_keyset rs)"
  using assms(2,1)
proof (rule running_vote_add_domains_Inr)
  fix i
  assume i: "authenticated_participant_id env (rs_participants rs) = Inr i"
    and valid: "\<forall>d \<in> set ds. is_valid_scheme_for_purpose (dc_purpose d) (dc_scheme d)"
    and rs': "rs' = rs\<lparr>rs_add_domains_votes := \<lparr>adv_proposal_by_account =
        bt_insert i ds (adv_proposal_by_account (rs_add_domains_votes rs))\<rparr>\<rparr>"
    and all: "Some st \<noteq> None \<longleftrightarrow> (\<forall>j \<in> set (ids (rs_participants rs)).
        bt_get (adv_proposal_by_account (rs_add_domains_votes rs')) j = Some ds)"
    and st: "\<And>y. Some st = Some y \<Longrightarrow> add_domains (rs_domains rs) ds = Inr (is_domains y) \<and>
        y = \<lparr>is_domains = is_domains y, is_epoch_id = ks_epoch_id (rs_keyset rs),
              is_generated_keys = ks_domains (rs_keyset rs),
              is_generating_key = key_event_new (ks_epoch_id (rs_keyset rs)) (hd ds) (rs_parameters rs),
              is_cancel_votes = {}\<rparr>"
  have "add_domains (rs_domains rs) ds = Inr (is_domains st)"
    "is_generated_keys st = ks_domains (rs_keyset rs)"
    using st [OF refl] by (blast, metis initializing_state.select_convs(3))
  then show ?thesis
    using i valid all rs'
    by (auto simp: domains_vote_of_def add_domains_Inr split: if_splits)
qed

definition sample_new_domain :: domain_config where
  "sample_new_domain = \<lparr>dc_id = 1, dc_scheme = Bls12381, dc_purpose = CKD\<rparr>"

definition sample_running_adding :: "unit running_state" where
  "sample_running_adding = sample_running\<lparr>rs_add_domains_votes := \<lparr>adv_proposal_by_account =
     [(0, [sample_new_domain]), (1, [sample_new_domain])]\<rparr>\<rparr>"

lemma sample_running_adding_inv: "running_inv sample_running_adding"
proof -
  have "{0, 1} \<subseteq> set (ids (rs_participants sample_running))"
    "bt_invar [(0 :: participant_id, [sample_new_domain]), (1, [sample_new_domain])]"
    by code_simp+
  then show ?thesis
    using sample_running_inv by (simp add: running_inv_def sample_running_adding_def)
qed

theorem adding_domains_needs_everybody_witness:
  "\<exists>i. authenticated_participant_id (as_account ''c'' sample_env) (rs_participants sample_running_adding) = Inr i \<and>
    (\<forall>j \<in> set (ids (rs_participants sample_running_adding)).
      j = i \<or> domains_vote_of sample_running_adding j = Some [sample_new_domain])"
proof -
  let ?r = "running_vote_add_domains (as_account ''c'' sample_env) [sample_new_domain] sample_running_adding"
  have "is_ok ?r" "fst (projr ?r) \<noteq> None"
    by code_simp+
  then obtain st rs' where "?r = Inr (Some st, rs')"
    by (auto simp: is_ok_iff)
  then show ?thesis
    using adding_domains_needs_everybody [OF sample_running_adding_inv] by blast
qed

text \<open>
  C16: resharing hands over every key. When the last vote of \<open>vote_reshared\<close> leads to the
  running state, that state has the same domains, the same public key for every domain, the
  proposed parameters and the prospective epoch, and satisfies the invariant; the
  public keys answered to clients do not change.
\<close>

theorem resharing_keeps_public_keys:
  assumes "resharing_inv re" "resharing_vote_reshared env kei re = Inr (Some rs, re')"
  shows "running_inv rs \<and> rs_domains rs = rs_domains (re_previous_running_state re) \<and>
    (\<forall>i. protocol_public_key (Running rs) i = protocol_public_key (Resharing re) i) \<and>
    rs_parameters rs = ke_parameters (re_resharing_key re) \<and>
    ks_epoch_id (rs_keyset rs) = resharing_prospective_epoch_id re"
  using resharing_vote_reshared_inv(2) [OF assms(2,1) refl]
  by (auto simp: protocol_public_key_def keyset_public_key_map_of)

definition sample_resharing :: "unit resharing_state" where
  "sample_resharing = \<lparr>re_previous_running_state =
       running_new (rs_domains sample_running) (rs_keyset sample_running) sample_params adv_default,
     re_reshared_keys = [],
     re_resharing_key = (key_event_new 5 sample_domain sample_proposal)
       \<lparr>ke_instance := Some \<lparr>kin_attempt_id = 0, kin_started_in = 90, kin_expires_on = 121,
          kin_completed = {0, 1, 2}, kin_public_key = Some sample_key\<rparr>, ke_next_attempt_id := 1\<rparr>,
     re_cancellation_requests = {}\<rparr>"

lemma sample_proposal_acceptable: "proposal_acceptable sample_params sample_proposal"
  by code_simp

lemma sample_resharing_inv: "resharing_inv sample_resharing"
proof -
  have "running_inv (re_previous_running_state sample_resharing)"
    using sample_params_wf unfolding sample_resharing_def resharing_state.simps
    by (intro running_inv_new) (simp_all add: sample_running_def sample_keys_def keyset_new_def
        adv_default_def sample_domain_def)
  moreover have "{0, 1, 2} \<subset> set (ids (tp_participants sample_proposal))"
    by code_simp
  ultimately show ?thesis
    using sample_proposal_acceptable sample_proposal_wf sample_params_wf
    by (simp add: resharing_inv_def sample_resharing_def key_event_inv_def key_event_new_def
        instance_inv_def running_new_def sample_running_def key_list_def parameters_wf_def)
qed

theorem resharing_keeps_public_keys_witness:
  "\<exists>rs. protocol_public_key (Running rs) 0 = protocol_public_key (Resharing sample_resharing) 0 \<and>
    rs_parameters rs = sample_proposal \<and> ks_epoch_id (rs_keyset rs) = 5"
proof -
  let ?r = "resharing_vote_reshared (as_account ''d'' sample_env) (key_event_id_new 5 0 0) sample_resharing"
  have "is_ok ?r" "fst (projr ?r) \<noteq> None"
    by code_simp+
  then obtain rs re' where "?r = Inr (Some rs, re')"
    by (auto simp: is_ok_iff)
  note facts = resharing_keeps_public_keys [OF sample_resharing_inv this]
  have "ke_parameters (re_resharing_key sample_resharing) = sample_proposal"
    "resharing_prospective_epoch_id sample_resharing = 5"
    by (simp_all add: sample_resharing_def key_event_new_def resharing_prospective_epoch_id_def)
  with facts show ?thesis by metis
qed

text \<open>
  C17: cancelling a resharing restores the running state it came from. It takes the
  threshold of the participants of that state; domains, keys and parameters are
  the ones before the resharing, and the next resharing is proposed under the epoch
  after the cancelled one.
\<close>

theorem cancelled_resharing_restores:
  assumes "resharing_inv re" "resharing_vote_cancel_resharing env re = Inr (Some rs, re')"
  shows "unat (tp_threshold (rs_parameters rs)) \<le>
      card {a \<in> set (accounts (rs_participants rs)).
        a = signer_account_id env \<or> a \<in> re_cancellation_requests re} \<and>
    running_inv rs \<and> known_keys (Running rs) = known_keys (Resharing re) \<and>
    rs_parameters rs = rs_parameters (re_previous_running_state re) \<and>
    rs_domains rs = rs_domains (re_previous_running_state re) \<and>
    prospective_epoch_id rs = resharing_prospective_epoch_id re + 1"
  using assms(2,1)
proof (rule resharing_vote_cancel_cases)
  let ?prev = "re_previous_running_state re"
  assume a: "signer_account_id env \<in> set (accounts (rs_participants ?prev))"
    and re': "re' = re\<lparr>re_cancellation_requests := insert (signer_account_id env) (re_cancellation_requests re)\<rparr>"
    and rs: "Some rs = (if unat (tp_threshold (rs_parameters ?prev)) \<le> card (re_cancellation_requests re')
      then Some (?prev\<lparr>rs_previously_cancelled_resharing_epoch_id := Some (resharing_prospective_epoch_id re)\<rparr>)
      else None)"
  have "{a \<in> set (accounts (rs_participants ?prev)).
      a = signer_account_id env \<or> a \<in> re_cancellation_requests re} = re_cancellation_requests re'"
    using a re' assms(1) by (auto simp: resharing_inv_def Let_def)
  then show ?thesis
    using rs assms(1) by (auto simp: known_keys_def previous_keyset_def prospective_epoch_id_def
        epoch_next_def resharing_inv_previous split: if_splits)
qed

theorem cancelled_resharing_restores_witness:
  "\<exists>rs. running_inv rs \<and> known_keys (Running rs) = known_keys (Resharing sample_resharing) \<and>
    rs_parameters rs = sample_params \<and> prospective_epoch_id rs = 6"
proof -
  let ?re = "sample_resharing\<lparr>re_cancellation_requests := {''b''}\<rparr>"
  let ?r = "resharing_vote_cancel_resharing sample_env ?re"
  have "is_ok ?r" "fst (projr ?r) \<noteq> None"
    by code_simp+
  then obtain rs re' where r: "?r = Inr (Some rs, re')"
    by (auto simp: is_ok_iff)
  have "''b'' \<in> set (accounts (rs_participants (re_previous_running_state sample_resharing)))"
    "1 < unat (tp_threshold (rs_parameters (re_previous_running_state sample_resharing)))"
    by code_simp+
  then have inv: "resharing_inv ?re"
    using sample_resharing_inv by (simp add: resharing_inv_def Let_def)
  have "rs_parameters (re_previous_running_state ?re) = sample_params"
    "resharing_prospective_epoch_id ?re + 1 = 6"
    "known_keys (Resharing ?re) = known_keys (Resharing sample_resharing)"
    by (simp_all add: sample_resharing_def key_event_new_def resharing_prospective_epoch_id_def
        running_new_def known_keys_def previous_keyset_def)
  then show ?thesis
    using cancelled_resharing_restores [OF inv r] by metis
qed

section \<open>Reuse of a cancelled epoch\<close>

text \<open>
  \<open>previously_cancelled_resharing_epoch_id\<close> exists so that a cancelled epoch is not proposed
  again. It is lost when the protocol passes through the initializing state:
  \<open>RunningContractState::new\<close> resets it. In the run below the resharing into epoch 5
  is cancelled (the next proposal would be for epoch 6), a domain is proposed and its key
  generation cancelled, and the next resharing is proposed for epoch 5 once more, with the
  key event identifier of the cancelled one.
\<close>

definition after_cancelled_resharing :: "unit protocol_state result" where
  "after_cancelled_resharing =
     and_then (protocol_vote_cancel_resharing sample_env (Resharing sample_resharing)) (\<lambda>r.
     and_then (protocol_vote_cancel_resharing (as_account ''b'' sample_env) (settle r)) (\<lambda>r.
     Inr (settle r)))"

definition after_cancelled_keygen :: "unit protocol_state result" where
  "after_cancelled_keygen =
     and_then after_cancelled_resharing (\<lambda>s.
     and_then (protocol_vote_add_domains sample_env [sample_new_domain] s) (\<lambda>r.
     and_then (protocol_vote_add_domains (as_account ''b'' sample_env) [sample_new_domain] (settle r)) (\<lambda>r.
     and_then (protocol_vote_add_domains (as_account ''c'' sample_env) [sample_new_domain] (settle r)) (\<lambda>r.
     and_then (protocol_vote_cancel_keygen sample_env 2 (settle r)) (\<lambda>r.
     and_then (protocol_vote_cancel_keygen (as_account ''b'' sample_env) 2 (settle r)) (\<lambda>r.
     Inr (settle r)))))))"

definition proposes_epoch :: "'pt protocol_state result \<Rightarrow> epoch_id \<Rightarrow> bool" where
  "proposes_epoch r e = (case r of Inr (Running rs) \<Rightarrow> prospective_epoch_id rs = e | _ \<Rightarrow> False)"

lemma cancelled_epoch_id_reused:
  "resharing_prospective_epoch_id sample_resharing = 5 \<and>
   proposes_epoch after_cancelled_resharing 6 \<and> proposes_epoch after_cancelled_keygen 5"
  by code_simp

end
