(* ===== verification/Attestation.thy ===== *)
theory Attestation
  imports Errors
begin

text \<open>
  Remote attestation: \<open>crates/attestation/src/attestation.rs\<close> (verification of a Dstack
  attestation), \<open>crates/mpc-attestation/src/attestation.rs\<close> (the checks on the MPC image
  and launcher hashes around it) and \<open>crates/mpc-attestation/src/report_data.rs\<close>.

  The record \<open>host\<close> holds the functions of third-party code the verification calls: the
  hash functions, the hex codec, the JSON parser of the app compose file and
  \<open>dcap_qvl::verify\<close>. A Rust string is the list of its UTF-8 bytes. Messages inside error
  values are dropped, their kind is kept.
\<close>

section \<open>Data\<close>

record app_compose =
  ac_manifest_version :: u32
  ac_name :: string
  ac_runner :: string
  ac_docker_compose_file :: string
  ac_kms_enabled :: bool
  ac_tproxy_enabled :: "bool option"
  ac_gateway_enabled :: "bool option"
  ac_public_logs :: bool
  ac_public_sysinfo :: bool
  ac_local_key_provider_enabled :: bool
  ac_key_provider_id :: "string option"
  ac_allowed_envs :: "string list"
  ac_no_instance_id :: bool
  ac_secure_time :: "bool option"
  ac_pre_launch_script :: "string option"

record event_log =
  ev_imr :: u32
  ev_event_type :: u32
  ev_digest :: bytes
  ev_event :: string
  ev_event_payload :: string

record tcb_info =
  tcb_mrtd :: bytes
  tcb_rtmr0 :: bytes
  tcb_rtmr1 :: bytes
  tcb_rtmr2 :: bytes
  tcb_rtmr3 :: bytes
  tcb_os_image_hash :: "bytes option"
  tcb_compose_hash :: bytes
  tcb_device_id :: bytes
  tcb_app_compose :: string
  tcb_event_log :: "event_log list"

record measurements =
  me_mrtd :: bytes
  me_rtmr0 :: bytes
  me_rtmr1 :: bytes
  me_rtmr2 :: bytes

record expected_measurements =
  em_rtmrs :: measurements
  em_key_provider_event_digest :: bytes

record 'col dstack_attestation =
  da_quote :: bytes
  da_collateral :: 'col
  da_tcb_info :: tcb_info

text \<open>The parts of \<open>dcap_qvl\<close>'s report that are read.\<close>

record td_report =
  td_report_data :: bytes
  td_mr_td :: bytes
  td_rt_mr0 :: bytes
  td_rt_mr1 :: bytes
  td_rt_mr2 :: bytes
  td_rt_mr3 :: bytes

record verified_report =
  vr_status :: string
  vr_advisory_ids :: "string list"
  vr_td10 :: "td_report option"

datatype verification_error =
    EmbeddedMeasurementsParsing
  | DcapVerification
  | ReportNotTd10
  | TcbStatusNotUpToDate string
  | NonEmptyAdvisoryIds "string list"
  | WrongHash string
  | InvalidEventType u32
  | EventDecoding bytes
  | AppComposeParsing
  | MissingEvent string
  | DuplicateEvent string
  | InvalidAppComposeConfig
  | AppComposeEventPayloadWrongSize nat
  | AppComposeEventPayloadNotHex string
  | ExpiredCertificate u64 u64
  | InvalidMockAttestation
  | CustomError

record 'col host =
  h_sha256 :: "bytes \<Rightarrow> bytes"
  h_sha384 :: "bytes \<Rightarrow> bytes"
  h_sha3_384 :: "bytes \<Rightarrow> bytes"
  h_hex_decode :: "string \<Rightarrow> bytes option"
  h_hex_encode :: "bytes \<Rightarrow> string"
  h_parse_app_compose :: "string \<Rightarrow> app_compose option"
  h_dcap_verify :: "bytes \<Rightarrow> 'col \<Rightarrow> u64 \<Rightarrow> verified_report option"

definition as_bytes :: "string \<Rightarrow> bytes" where
  "as_bytes s = map (\<lambda>c. of_char c) s"

text \<open>\<open>u32::to_ne_bytes\<close> on a little endian target.\<close>

definition u32_to_ne_bytes :: "u32 \<Rightarrow> bytes" where
  "u32_to_ne_bytes x = map (\<lambda>i. ucast (drop_bit (8 * i) x)) [0, 1, 2, 3]"

section \<open>Dstack attestation\<close>

definition EXPECTED_QUOTE_STATUS :: string where
  "EXPECTED_QUOTE_STATUS = ''UpToDate''"

definition DSTACK_EVENT_TYPE :: u32 where
  "DSTACK_EVENT_TYPE = 134217729"

definition COMPOSE_HASH_EVENT :: string where
  "COMPOSE_HASH_EVENT = ''compose-hash''"

definition KEY_PROVIDER_EVENT :: string where
  "KEY_PROVIDER_EVENT = ''key-provider''"

definition RTMR3_INDEX :: u32 where
  "RTMR3_INDEX = 3"

definition compare_hashes :: "string \<Rightarrow> bytes \<Rightarrow> bytes \<Rightarrow> verification_error + unit" where
  "compare_hashes name found expected = ensure (found = expected) (WrongHash name)"

definition compare_hex_hashes :: "string \<Rightarrow> string \<Rightarrow> string \<Rightarrow> verification_error + unit" where
  "compare_hex_hashes name found expected = ensure (found = expected) (WrongHash name)"

definition get_single_event :: "tcb_info \<Rightarrow> string \<Rightarrow> verification_error + event_log" where
  "get_single_event tcb event_name =
     (case filter (\<lambda>e. ev_event e = event_name \<and> ev_imr e = RTMR3_INDEX) (tcb_event_log tcb) of
        [] \<Rightarrow> Inl (MissingEvent event_name)
      | e # rest \<Rightarrow> if rest \<noteq> [] then Inl (DuplicateEvent event_name) else Inr e)"

definition event_digest :: "'col host \<Rightarrow> u32 \<Rightarrow> string \<Rightarrow> bytes \<Rightarrow> bytes" where
  "event_digest h event_type event payload =
     h_sha384 h (u32_to_ne_bytes event_type @ as_bytes '':'' @ as_bytes event @ as_bytes '':'' @ payload)"

fun replay_rtmr3 :: "'col host \<Rightarrow> event_log list \<Rightarrow> bytes \<Rightarrow> verification_error + bytes" where
  "replay_rtmr3 h [] digest = Inr digest"
| "replay_rtmr3 h (event # events) digest =
     (if ev_event_type event \<noteq> DSTACK_EVENT_TYPE
      then Inl (InvalidEventType (ev_event_type event))
      else case h_hex_decode h (ev_event_payload event) of
        None \<Rightarrow> Inl (EventDecoding (ev_digest event))
      | Some payload_bytes \<Rightarrow>
          and_then (compare_hashes ''event_digest'' (ev_digest event)
              (event_digest h (ev_event_type event) (ev_event event) payload_bytes)) (\<lambda>_.
            replay_rtmr3 h events (h_sha384 h (digest @ ev_digest event))))"

definition verify_event_log_rtmr3 ::
  "'col host \<Rightarrow> event_log list \<Rightarrow> bytes \<Rightarrow> verification_error + unit" where
  "verify_event_log_rtmr3 h log expected_digest =
     and_then (replay_rtmr3 h (filter (\<lambda>e. ev_imr e = RTMR3_INDEX) log) (replicate 48 0))
       (\<lambda>digest. compare_hashes ''event_log'' digest expected_digest)"

definition validate_app_compose_payload ::
  "'col host \<Rightarrow> string \<Rightarrow> string \<Rightarrow> verification_error + unit" where
  "validate_app_compose_payload h expected_hex app_compose =
     (case h_hex_decode h expected_hex of
        None \<Rightarrow> Inl (AppComposeEventPayloadNotHex expected_hex)
      | Some bs \<Rightarrow>
          if length bs \<noteq> 32 then Inl (AppComposeEventPayloadWrongSize (length bs))
          else compare_hashes ''app_compose_payload'' (h_sha256 h (as_bytes app_compose)) bs)"

definition verify_tcb_status :: "verified_report \<Rightarrow> verification_error + unit" where
  "verify_tcb_status r =
     and_then (ensure (vr_status r = EXPECTED_QUOTE_STATUS) (TcbStatusNotUpToDate (vr_status r))) (\<lambda>_.
     ensure (vr_advisory_ids r = []) (NonEmptyAdvisoryIds (vr_advisory_ids r)))"

definition verify_report_data :: "bytes \<Rightarrow> td_report \<Rightarrow> verification_error + unit" where
  "verify_report_data expected actual = compare_hashes ''report_data'' (td_report_data actual) expected"

definition verify_static_rtmrs ::
  "td_report \<Rightarrow> tcb_info \<Rightarrow> expected_measurements \<Rightarrow> verification_error + unit" where
  "verify_static_rtmrs td tcb expected =
     and_then (compare_hashes ''rtmr0_report_data'' (td_rt_mr0 td) (me_rtmr0 (em_rtmrs expected))) (\<lambda>_.
     and_then (compare_hashes ''rtmr1_report_data'' (td_rt_mr1 td) (me_rtmr1 (em_rtmrs expected))) (\<lambda>_.
     and_then (compare_hashes ''rtmr2_report_data'' (td_rt_mr2 td) (me_rtmr2 (em_rtmrs expected))) (\<lambda>_.
     and_then (compare_hashes ''mrtd_report_data'' (td_mr_td td) (me_mrtd (em_rtmrs expected))) (\<lambda>_.
     and_then (compare_hashes ''rtmr0_tcb_info'' (tcb_rtmr0 tcb) (me_rtmr0 (em_rtmrs expected))) (\<lambda>_.
     and_then (compare_hashes ''rtmr1_tcb_info'' (tcb_rtmr1 tcb) (me_rtmr1 (em_rtmrs expected))) (\<lambda>_.
     and_then (compare_hashes ''rtmr2_tcb_info'' (tcb_rtmr2 tcb) (me_rtmr2 (em_rtmrs expected))) (\<lambda>_.
     compare_hashes ''mtrd_tcb_info'' (tcb_mrtd tcb) (me_mrtd (em_rtmrs expected)))))))))"

definition verify_key_provider_digest :: "tcb_info \<Rightarrow> bytes \<Rightarrow> verification_error + unit" where
  "verify_key_provider_digest tcb expected_digest =
     and_then (get_single_event tcb KEY_PROVIDER_EVENT)
       (\<lambda>e. compare_hashes ''key_provider'' (ev_digest e) expected_digest)"

fun verify_any_measurements ::
  "td_report \<Rightarrow> tcb_info \<Rightarrow> expected_measurements list \<Rightarrow> verification_error + unit" where
  "verify_any_measurements td tcb [] = Inl (WrongHash ''expected_measurements'')"
| "verify_any_measurements td tcb (expected # accepted) =
     (if is_ok (verify_static_rtmrs td tcb expected)
         \<and> is_ok (verify_key_provider_digest tcb (em_key_provider_event_digest expected))
      then Inr () else verify_any_measurements td tcb accepted)"

definition verify_rtmr3 :: "'col host \<Rightarrow> td_report \<Rightarrow> tcb_info \<Rightarrow> verification_error + unit" where
  "verify_rtmr3 h td tcb =
     and_then (compare_hashes ''rtmr3'' (tcb_rtmr3 tcb) (td_rt_mr3 td)) (\<lambda>_.
     verify_event_log_rtmr3 h (tcb_event_log tcb) (td_rt_mr3 td))"

definition validate_app_compose_config :: "app_compose \<Rightarrow> bool" where
  "validate_app_compose_config ac \<longleftrightarrow>
     ac_manifest_version ac = 2 \<and>
     ac_runner ac = ''docker-compose'' \<and>
     \<not> ac_kms_enabled ac \<and>
     ac_gateway_enabled ac = Some False \<and>
     ac_public_logs ac \<and>
     ac_public_sysinfo ac \<and>
     ac_local_key_provider_enabled ac \<and>
     ac_allowed_envs ac = [] \<and>
     ac_no_instance_id ac \<and>
     ac_pre_launch_script ac = None"

definition verify_app_compose :: "'col host \<Rightarrow> tcb_info \<Rightarrow> verification_error + unit" where
  "verify_app_compose h tcb =
     and_then (ok_or (h_parse_app_compose h (tcb_app_compose tcb)) AppComposeParsing) (\<lambda>ac.
     and_then (ensure (validate_app_compose_config ac) InvalidAppComposeConfig) (\<lambda>_.
     and_then (get_single_event tcb COMPOSE_HASH_EVENT) (\<lambda>e.
     and_then (compare_hex_hashes ''app_compose_event_hash'' (ev_event_payload e)
         (h_hex_encode h (tcb_compose_hash tcb))) (\<lambda>_.
     validate_app_compose_payload h (ev_event_payload e) (tcb_app_compose tcb)))))"

definition dstack_verify ::
  "'col host \<Rightarrow> bytes \<Rightarrow> u64 \<Rightarrow> expected_measurements list \<Rightarrow> 'col dstack_attestation
    \<Rightarrow> verification_error + unit" where
  "dstack_verify h expected_report_data timestamp_seconds accepted da =
     and_then (ok_or (h_dcap_verify h (da_quote da) (da_collateral da) timestamp_seconds) DcapVerification) (\<lambda>r.
     and_then (ok_or (vr_td10 r) ReportNotTd10) (\<lambda>td.
     and_then (verify_tcb_status r) (\<lambda>_.
     and_then (verify_report_data expected_report_data td) (\<lambda>_.
     and_then (verify_rtmr3 h td (da_tcb_info da)) (\<lambda>_.
     and_then (verify_app_compose h (da_tcb_info da)) (\<lambda>_.
     verify_any_measurements td (da_tcb_info da) accepted))))))"

section \<open>Report data\<close>

text \<open>Version 1, big endian, then the hash of both keys, then zero padding to 64 bytes.\<close>

definition compute_public_keys_hash :: "'col host \<Rightarrow> bytes \<Rightarrow> bytes \<Rightarrow> bytes" where
  "compute_public_keys_hash h tls_public_key account_public_key =
     h_sha3_384 h (tls_public_key @ account_public_key)"

definition report_data_v1_to_bytes :: "'col host \<Rightarrow> bytes \<Rightarrow> bytes \<Rightarrow> bytes" where
  "report_data_v1_to_bytes h tls_public_key account_public_key =
     [0, 1] @ compute_public_keys_hash h tls_public_key account_public_key @ replicate 14 0"

definition report_data_v1_from_bytes :: "bytes \<Rightarrow> bytes" where
  "report_data_v1_from_bytes bs = take 48 (drop 2 bs)"

definition report_data_version_from_be_bytes :: "bytes \<Rightarrow> nat option" where
  "report_data_version_from_be_bytes bs = (if bs = [0, 1] then Some 1 else None)"

section \<open>MPC attestation\<close>

type_synonym docker_image_hash = bytes
type_synonym launcher_compose_hash = bytes

datatype mock_attestation =
    MockValid
  | MockInvalid
  | WithConstraints "docker_image_hash option" "launcher_compose_hash option" "u64 option"

datatype 'col attestation = Dstack "'col dstack_attestation" | Mock mock_attestation

record validated_dstack =
  vd_mpc_image_hash :: docker_image_hash
  vd_launcher_compose_hash :: launcher_compose_hash
  vd_expiry_timestamp_seconds :: u64

datatype verified_attestation = VerifiedDstack validated_dstack | VerifiedMock mock_attestation

definition MPC_IMAGE_HASH_EVENT :: string where
  "MPC_IMAGE_HASH_EVENT = ''mpc-image-digest''"

definition DEFAULT_EXPIRATION_DURATION_SECONDS :: u64 where
  "DEFAULT_EXPIRATION_DURATION_SECONDS = 60 * 60 * 24 * 7"

definition verify_mpc_hash :: "docker_image_hash \<Rightarrow> docker_image_hash list \<Rightarrow> verification_error + unit" where
  "verify_mpc_hash image_hash allowed_hashes =
     (if allowed_hashes = [] then Inl CustomError
      else if image_hash \<notin> set allowed_hashes then Inl CustomError else Inr ())"

definition verify_launcher_compose_hash ::
  "launcher_compose_hash \<Rightarrow> launcher_compose_hash list \<Rightarrow> verification_error + unit" where
  "verify_launcher_compose_hash compose_hash allowed_hashes =
     (if allowed_hashes = [] then Inl CustomError
      else if compose_hash \<notin> set allowed_hashes then Inl CustomError else Inr ())"

definition verify_mock_attestation ::
  "mock_attestation \<Rightarrow> docker_image_hash list \<Rightarrow> launcher_compose_hash list \<Rightarrow> u64
    \<Rightarrow> verification_error + unit" where
  "verify_mock_attestation mock allowed_images allowed_composes timestamp_seconds =
     (case mock of
        MockValid \<Rightarrow> Inr ()
      | MockInvalid \<Rightarrow> Inl InvalidMockAttestation
      | WithConstraints image_c compose_c expiry \<Rightarrow>
          and_then (case image_c of None \<Rightarrow> Inr ()
            | Some hash \<Rightarrow> if allowed_images = [] then Inl CustomError
                else ensure (hash \<in> set allowed_images) CustomError) (\<lambda>_.
          and_then (case compose_c of None \<Rightarrow> Inr ()
            | Some hash \<Rightarrow> if allowed_composes = [] then Inl CustomError
                else ensure (hash \<in> set allowed_composes) CustomError) (\<lambda>_.
          case expiry of None \<Rightarrow> Inr ()
            | Some t \<Rightarrow> ensure (timestamp_seconds < t) (ExpiredCertificate timestamp_seconds t))))"

definition re_verify ::
  "verified_attestation \<Rightarrow> u64 \<Rightarrow> docker_image_hash list \<Rightarrow> launcher_compose_hash list
    \<Rightarrow> verification_error + unit" where
  "re_verify va timestamp_seconds allowed_images allowed_composes =
     (case va of
        VerifiedDstack vd \<Rightarrow>
          if vd_expiry_timestamp_seconds vd < timestamp_seconds then Inl CustomError
          else and_then (verify_mpc_hash (vd_mpc_image_hash vd) allowed_images) (\<lambda>_.
            verify_launcher_compose_hash (vd_launcher_compose_hash vd) allowed_composes)
      | VerifiedMock mock \<Rightarrow>
          verify_mock_attestation mock allowed_images allowed_composes timestamp_seconds)"

definition attestation_verify ::
  "'col host \<Rightarrow> bytes \<Rightarrow> u64 \<Rightarrow> docker_image_hash list \<Rightarrow> launcher_compose_hash list
    \<Rightarrow> expected_measurements list \<Rightarrow> 'col attestation \<Rightarrow> verification_error + verified_attestation" where
  "attestation_verify h expected_report_data now allowed_images allowed_composes accepted a =
     (case a of
        Dstack da \<Rightarrow>
          and_then (get_single_event (da_tcb_info da) MPC_IMAGE_HASH_EVENT) (\<lambda>e.
          and_then (ok_or (h_hex_decode h (ev_event_payload e)) CustomError) (\<lambda>image_hash.
          and_then (ensure (length image_hash = 32) CustomError) (\<lambda>_.
          and_then (verify_mpc_hash image_hash allowed_images) (\<lambda>_.
          and_then (ok_or (h_parse_app_compose h (tcb_app_compose (da_tcb_info da))) AppComposeParsing) (\<lambda>ac.
          let compose_hash = h_sha256 h (as_bytes (ac_docker_compose_file ac)) in
          and_then (verify_launcher_compose_hash compose_hash allowed_composes) (\<lambda>_.
          and_then (dstack_verify h expected_report_data now accepted da) (\<lambda>_.
          Inr (VerifiedDstack \<lparr>vd_mpc_image_hash = image_hash, vd_launcher_compose_hash = compose_hash,
                 vd_expiry_timestamp_seconds = now + DEFAULT_EXPIRATION_DURATION_SECONDS\<rparr>))))))))
      | Mock mock \<Rightarrow>
          and_then (verify_mock_attestation mock allowed_images allowed_composes now)
            (\<lambda>_. Inr (VerifiedMock mock)))"

section \<open>What a successful verification establishes\<close>

lemmas compare_Inr = compare_hashes_def compare_hex_hashes_def ensure_eq_Inr

lemma verify_mpc_hash_Inr: "verify_mpc_hash x allowed = Inr () \<longleftrightarrow> x \<in> set allowed"
  by (auto simp: verify_mpc_hash_def)

lemma verify_launcher_compose_hash_Inr:
  "verify_launcher_compose_hash x allowed = Inr () \<longleftrightarrow> x \<in> set allowed"
  by (auto simp: verify_launcher_compose_hash_def)

lemma get_single_event_Inr:
  "get_single_event tcb name = Inr e \<longleftrightarrow>
    filter (\<lambda>e. ev_event e = name \<and> ev_imr e = RTMR3_INDEX) (tcb_event_log tcb) = [e]"
  by (auto simp: get_single_event_def split: list.splits)

text \<open>The register value a log of events extends to.\<close>

definition extend_register :: "'col host \<Rightarrow> bytes \<Rightarrow> event_log \<Rightarrow> bytes" where
  "extend_register h digest e = h_sha384 h (digest @ ev_digest e)"

definition measured_event :: "'col host \<Rightarrow> event_log \<Rightarrow> bool" where
  "measured_event h e \<longleftrightarrow> ev_event_type e = DSTACK_EVENT_TYPE \<and>
     (\<exists>payload. h_hex_decode h (ev_event_payload e) = Some payload \<and>
       ev_digest e = event_digest h (ev_event_type e) (ev_event e) payload)"

lemma replay_rtmr3_Inr:
  "replay_rtmr3 h es d = Inr d' \<longleftrightarrow>
    (\<forall>e \<in> set es. measured_event h e) \<and> d' = foldl (extend_register h) d es"
proof (induction h es d rule: replay_rtmr3.induct)
  case (2 h e es d)
  then show ?case
    by (cases "h_hex_decode h (ev_event_payload e)")
      (auto simp: compare_Inr and_then_eq_Inr measured_event_def extend_register_def)
qed auto

definition measurements_match :: "td_report \<Rightarrow> tcb_info \<Rightarrow> expected_measurements \<Rightarrow> bool" where
  "measurements_match td tcb m \<longleftrightarrow>
     (td_mr_td td, td_rt_mr0 td, td_rt_mr1 td, td_rt_mr2 td) =
       (me_mrtd (em_rtmrs m), me_rtmr0 (em_rtmrs m), me_rtmr1 (em_rtmrs m), me_rtmr2 (em_rtmrs m)) \<and>
     (tcb_mrtd tcb, tcb_rtmr0 tcb, tcb_rtmr1 tcb, tcb_rtmr2 tcb) =
       (me_mrtd (em_rtmrs m), me_rtmr0 (em_rtmrs m), me_rtmr1 (em_rtmrs m), me_rtmr2 (em_rtmrs m)) \<and>
     (\<exists>e. get_single_event tcb KEY_PROVIDER_EVENT = Inr e \<and> ev_digest e = em_key_provider_event_digest m)"

lemma verify_any_measurements_Inr:
  "verify_any_measurements td tcb ms = Inr () \<longleftrightarrow> (\<exists>m \<in> set ms. measurements_match td tcb m)"
proof (induction td tcb ms rule: verify_any_measurements.induct)
  case (2 td tcb m ms)
  have "is_ok (verify_static_rtmrs td tcb m) \<and>
      is_ok (verify_key_provider_digest tcb (em_key_provider_event_digest m)) \<longleftrightarrow> measurements_match td tcb m"
    by (auto simp: is_ok_iff verify_static_rtmrs_def verify_key_provider_digest_def and_then_eq_Inr
        compare_Inr measurements_match_def)
  then show ?case
    using 2 by auto
qed simp

text \<open>
  The launcher's app compose file is the one measured by the single compose hash event, and
  its configuration is the required one.
\<close>

definition compose_attested :: "'col host \<Rightarrow> tcb_info \<Rightarrow> app_compose \<Rightarrow> bool" where
  "compose_attested h tcb ac \<longleftrightarrow>
     h_parse_app_compose h (tcb_app_compose tcb) = Some ac \<and> validate_app_compose_config ac \<and>
     (\<exists>e. get_single_event tcb COMPOSE_HASH_EVENT = Inr e \<and>
        ev_event_payload e = h_hex_encode h (tcb_compose_hash tcb) \<and>
        h_hex_decode h (ev_event_payload e) = Some (h_sha256 h (as_bytes (tcb_app_compose tcb))) \<and>
        length (h_sha256 h (as_bytes (tcb_app_compose tcb))) = 32)"

lemma validate_app_compose_payload_Inr:
  "validate_app_compose_payload h x s = Inr () \<longleftrightarrow>
    h_hex_decode h x = Some (h_sha256 h (as_bytes s)) \<and> length (h_sha256 h (as_bytes s)) = 32"
  by (auto simp: validate_app_compose_payload_def compare_Inr split: option.splits)

lemma verify_app_compose_Inr:
  "verify_app_compose h tcb = Inr () \<longleftrightarrow> (\<exists>ac. compose_attested h tcb ac)"
  by (auto simp: verify_app_compose_def and_then_eq_Inr ok_or_eq_Inr compare_Inr compose_attested_def
      validate_app_compose_payload_Inr)

definition dstack_accepts ::
  "'col host \<Rightarrow> bytes \<Rightarrow> u64 \<Rightarrow> expected_measurements list \<Rightarrow> 'col dstack_attestation \<Rightarrow> bool" where
  "dstack_accepts h expected now accepted da \<longleftrightarrow>
     (\<exists>r td. h_dcap_verify h (da_quote da) (da_collateral da) now = Some r \<and> vr_td10 r = Some td \<and>
        vr_status r = ''UpToDate'' \<and> vr_advisory_ids r = [] \<and> td_report_data td = expected \<and>
        tcb_rtmr3 (da_tcb_info da) = td_rt_mr3 td \<and>
        (let log = filter (\<lambda>e. ev_imr e = RTMR3_INDEX) (tcb_event_log (da_tcb_info da)) in
          (\<forall>e \<in> set log. measured_event h e) \<and>
          td_rt_mr3 td = foldl (extend_register h) (replicate 48 0) log) \<and>
        (\<exists>ac. compose_attested h (da_tcb_info da) ac) \<and>
        (\<exists>m \<in> set accepted. measurements_match td (da_tcb_info da) m))"

lemma dstack_verify_Inr:
  "dstack_verify h expected now accepted da = Inr () \<longleftrightarrow> dstack_accepts h expected now accepted da"
  by (auto simp: dstack_verify_def and_then_eq_Inr ok_or_eq_Inr verify_tcb_status_def ensure_eq_Inr
      verify_report_data_def verify_rtmr3_def verify_event_log_rtmr3_def compare_Inr replay_rtmr3_Inr
      verify_app_compose_Inr verify_any_measurements_Inr dstack_accepts_def EXPECTED_QUOTE_STATUS_def
      Let_def)

lemma attestation_verify_Dstack_Inr:
  "attestation_verify h rd now images composes accepted (Dstack da) = Inr v \<longleftrightarrow>
    (\<exists>e image_hash ac. get_single_event (da_tcb_info da) MPC_IMAGE_HASH_EVENT = Inr e \<and>
       h_hex_decode h (ev_event_payload e) = Some image_hash \<and> length image_hash = 32 \<and>
       image_hash \<in> set images \<and> compose_attested h (da_tcb_info da) ac \<and>
       h_sha256 h (as_bytes (ac_docker_compose_file ac)) \<in> set composes \<and>
       dstack_accepts h rd now accepted da \<and>
       v = VerifiedDstack \<lparr>vd_mpc_image_hash = image_hash,
         vd_launcher_compose_hash = h_sha256 h (as_bytes (ac_docker_compose_file ac)),
         vd_expiry_timestamp_seconds = now + DEFAULT_EXPIRATION_DURATION_SECONDS\<rparr>)"
proof -
  have "dstack_accepts h rd now accepted da \<Longrightarrow>
      h_parse_app_compose h (tcb_app_compose (da_tcb_info da)) = Some ac \<longleftrightarrow>
      compose_attested h (da_tcb_info da) ac" for ac
    by (auto simp: dstack_accepts_def compose_attested_def)
  then show ?thesis
    by (simp add: attestation_verify_def and_then_eq_Inr ok_or_eq_Inr ensure_eq_Inr verify_mpc_hash_Inr
        verify_launcher_compose_hash_Inr dstack_verify_Inr Let_def) blast
qed

lemma re_verify_Dstack_Inr:
  "re_verify (VerifiedDstack vd) t images composes = Inr () \<longleftrightarrow>
    t \<le> vd_expiry_timestamp_seconds vd \<and> vd_mpc_image_hash vd \<in> set images \<and>
    vd_launcher_compose_hash vd \<in> set composes"
  by (auto simp: re_verify_def and_then_eq_Inr verify_mpc_hash_Inr verify_launcher_compose_hash_Inr)

lemma unat_expiry:
  "unat now + 604800 < 2 ^ 64 \<Longrightarrow>
    unat (now + DEFAULT_EXPIRATION_DURATION_SECONDS) = unat now + 604800"
  by (simp add: DEFAULT_EXPIRATION_DURATION_SECONDS_def unat_word_ariths)

section \<open>Properties\<close>

text \<open>
  C20: what an accepted Dstack attestation establishes. \<open>Attestation::verify\<close> accepts
  exactly when the quote is verified with status \<open>UpToDate\<close> and no advisories, the quoted
  report data is the expected one, the quoted RTMR3 is the replay of the RTMR3 events of the
  log, each of which carries the digest of its own type, name and payload, the static
  registers and the key provider event match one of the accepted measurements, the app
  compose file has the required configuration and the hash of the single compose hash event,
  and the payload of the single image event and the hash of the docker compose file are
  in the allowed lists; the image hash so attested is one of the replayed events.
\<close>

theorem accepted_attestation_is_measured:
  "attestation_verify h rd now images composes accepted (Dstack da) = Inr v \<longleftrightarrow>
    (\<exists>e image_hash ac. get_single_event (da_tcb_info da) MPC_IMAGE_HASH_EVENT = Inr e \<and>
       e \<in> set (filter (\<lambda>e. ev_imr e = RTMR3_INDEX) (tcb_event_log (da_tcb_info da))) \<and>
       measured_event h e \<and>
       h_hex_decode h (ev_event_payload e) = Some image_hash \<and> length image_hash = 32 \<and>
       image_hash \<in> set images \<and> compose_attested h (da_tcb_info da) ac \<and>
       h_sha256 h (as_bytes (ac_docker_compose_file ac)) \<in> set composes \<and>
       dstack_accepts h rd now accepted da \<and>
       v = VerifiedDstack \<lparr>vd_mpc_image_hash = image_hash,
         vd_launcher_compose_hash = h_sha256 h (as_bytes (ac_docker_compose_file ac)),
         vd_expiry_timestamp_seconds = now + DEFAULT_EXPIRATION_DURATION_SECONDS\<rparr>)"
proof -
  have "e \<in> set (filter (\<lambda>e. ev_imr e = RTMR3_INDEX) (tcb_event_log (da_tcb_info da)))"
    if "get_single_event (da_tcb_info da) MPC_IMAGE_HASH_EVENT = Inr e" for e
    using that by (auto simp: get_single_event_Inr filter_eq_Cons_iff)
  moreover have "measured_event h e"
    if "dstack_accepts h rd now accepted da"
      "e \<in> set (filter (\<lambda>e. ev_imr e = RTMR3_INDEX) (tcb_event_log (da_tcb_info da)))" for e
    using that by (auto simp: dstack_accepts_def Let_def)
  ultimately show ?thesis
    unfolding attestation_verify_Dstack_Inr by blast
qed


definition sample_compose :: app_compose where
  "sample_compose = \<lparr>ac_manifest_version = 2, ac_name = ''n'', ac_runner = ''docker-compose'',
     ac_docker_compose_file = ''f'', ac_kms_enabled = False, ac_tproxy_enabled = None,
     ac_gateway_enabled = Some False, ac_public_logs = True, ac_public_sysinfo = True,
     ac_local_key_provider_enabled = True, ac_key_provider_id = None, ac_allowed_envs = [],
     ac_no_instance_id = True, ac_secure_time = None, ac_pre_launch_script = None\<rparr>"

definition sample_event_log :: "string \<Rightarrow> event_log" where
  "sample_event_log name = \<lparr>ev_imr = 3, ev_event_type = DSTACK_EVENT_TYPE, ev_digest = replicate 48 0,
     ev_event = name, ev_event_payload = ''0''\<rparr>"

definition sample_tcb :: tcb_info where
  "sample_tcb = \<lparr>tcb_mrtd = [], tcb_rtmr0 = [], tcb_rtmr1 = [], tcb_rtmr2 = [],
     tcb_rtmr3 = replicate 48 0, tcb_os_image_hash = None, tcb_compose_hash = replicate 32 0,
     tcb_device_id = [], tcb_app_compose = ''c'',
     tcb_event_log = map sample_event_log [COMPOSE_HASH_EVENT, KEY_PROVIDER_EVENT, MPC_IMAGE_HASH_EVENT]\<rparr>"

definition sample_host :: "unit host" where
  "sample_host = \<lparr>h_sha256 = (\<lambda>_. replicate 32 0), h_sha384 = (\<lambda>_. replicate 48 0),
     h_sha3_384 = (\<lambda>_. replicate 48 0), h_hex_decode = (\<lambda>_. Some (replicate 32 0)),
     h_hex_encode = (\<lambda>_. ''0''), h_parse_app_compose = (\<lambda>_. Some sample_compose),
     h_dcap_verify = (\<lambda>_ _ _. Some \<lparr>vr_status = ''UpToDate'', vr_advisory_ids = [],
       vr_td10 = Some \<lparr>td_report_data = [], td_mr_td = [], td_rt_mr0 = [], td_rt_mr1 = [],
         td_rt_mr2 = [], td_rt_mr3 = replicate 48 0\<rparr>\<rparr>)\<rparr>"

definition sample_dstack :: "unit dstack_attestation" where
  "sample_dstack = \<lparr>da_quote = [], da_collateral = (), da_tcb_info = sample_tcb\<rparr>"

definition sample_measurements :: expected_measurements where
  "sample_measurements = \<lparr>em_rtmrs = \<lparr>me_mrtd = [], me_rtmr0 = [], me_rtmr1 = [], me_rtmr2 = []\<rparr>,
     em_key_provider_event_digest = replicate 48 0\<rparr>"


text \<open>
  At the very second of the expiry a Dstack attestation is still valid while a mock
  attestation with the same expiry is not.
\<close>

lemma expiry_boundary:
  "re_verify (VerifiedDstack \<lparr>vd_mpc_image_hash = i, vd_launcher_compose_hash = c,
     vd_expiry_timestamp_seconds = t\<rparr>) t [i] [c] = Inr ()"
  "re_verify (VerifiedMock (WithConstraints (Some i) (Some c) (Some t))) t [i] [c] =
     Inl (ExpiredCertificate t t)"
  by (simp_all add: re_verify_Dstack_Inr) (simp add: re_verify_def verify_mock_attestation_def)

end
