(* ===== verification/Tee.thy ===== *)
theory Tee
  imports Crypto_Keys Attestation Participants "HOL-Library.Sublist"
begin

text \<open>
  The TEE part of the contract: \<open>crates/contract/src/primitives/time.rs\<close>,
  \<open>crates/contract/src/tee/proposal.rs\<close> (votes on docker image hashes and the list of
  allowed ones, with its grace periods) and \<open>crates/contract/src/tee/tee_state.rs\<close> (the
  attestations of the nodes).
\<close>

section \<open>Time\<close>

text \<open>
  A \<open>Duration\<close> is its number of nanoseconds; it overflows at \<open>2^64\<close> seconds. A
  \<open>Timestamp\<close> is the duration since the Unix epoch.
\<close>

type_synonym duration = int
type_synonym timestamp = duration

definition nanos_per_sec :: int where
  "nanos_per_sec = 1000000000"

definition duration_checked_add :: "duration \<Rightarrow> duration \<Rightarrow> duration option" where
  "duration_checked_add a b = (if a + b < 2 ^ 64 * nanos_per_sec then Some (a + b) else None)"

definition duration_from_secs :: "u64 \<Rightarrow> duration" where
  "duration_from_secs s = uint s * nanos_per_sec"

definition duration_as_secs :: "duration \<Rightarrow> u64" where
  "duration_as_secs d = of_int (d div nanos_per_sec)"

definition timestamp_now :: "env \<Rightarrow> timestamp" where
  "timestamp_now env = uint (block_timestamp env)"

definition timestamp_checked_add :: "timestamp \<Rightarrow> duration \<Rightarrow> timestamp option" where
  "timestamp_checked_add t d = duration_checked_add t d"

text \<open>\<open>u64::to_be_bytes\<close> and \<open>u64::from_be_bytes\<close>.\<close>

definition u64_to_be_bytes :: "u64 \<Rightarrow> bytes" where
  "u64_to_be_bytes x = map (\<lambda>i. of_int (uint x div 256 ^ i)) [7, 6, 5, 4, 3, 2, 1, 0]"

definition u64_from_be_bytes :: "bytes \<Rightarrow> u64" where
  "u64_from_be_bytes bs = of_int (foldl (\<lambda>n b. n * 256 + uint b) 0 bs)"

definition timestamp_serialize :: "timestamp \<Rightarrow> bytes" where
  "timestamp_serialize t = u64_to_be_bytes (duration_as_secs t)"

definition timestamp_deserialize :: "bytes \<Rightarrow> timestamp option" where
  "timestamp_deserialize bs =
     (if 8 \<le> length bs then Some (duration_from_secs (u64_from_be_bytes (take 8 bs))) else None)"

section \<open>Votes on docker images\<close>

type_synonym code_hashes_votes = "(participant_id, docker_image_hash) btree_map"

definition count_votes :: "docker_image_hash \<Rightarrow> code_hashes_votes \<Rightarrow> u64" where
  "count_votes proposal votes = of_nat (length (filter (\<lambda>e. snd e = proposal) votes))"

definition code_hashes_vote ::
  "docker_image_hash \<Rightarrow> participant_id \<Rightarrow> code_hashes_votes \<Rightarrow> u64 \<times> code_hashes_votes" where
  "code_hashes_vote proposal participant votes =
     (let votes' = bt_insert participant proposal votes in (count_votes proposal votes', votes'))"

definition clear_votes :: "code_hashes_votes \<Rightarrow> code_hashes_votes" where
  "clear_votes votes = []"

section \<open>Allowed docker images\<close>

record allowed_image =
  ai_image_hash :: docker_image_hash
  ai_docker_compose_hash :: launcher_compose_hash
  ai_added :: timestamp

definition LAUNCHER_DOCKER_COMPOSE_YAML_TEMPLATE :: string where
  "LAUNCHER_DOCKER_COMPOSE_YAML_TEMPLATE = concat (map (\<lambda>line. line @ [CHR 0x0A])
    [''version: '' @ [CHR 0x27] @ ''3.8'' @ [CHR 0x27],
     [],
     ''services:'',
     ''  launcher:'',
     ''    image: nearone/mpc-launcher@sha256:e28cb0425db06255fe5fc7aadb79534ac63c94c7a721f75c1af1e934d2eb0701'',
     [],
     ''    container_name: launcher'',
     [],
     ''    environment:'',
     ''      - PLATFORM=TEE'',
     ''      - DOCKER_CONTENT_TRUST=1'',
     ''      - DEFAULT_IMAGE_DIGEST=sha256:{{DEFAULT_IMAGE_DIGEST_HASH}}'',
     [],
     ''    volumes:'',
     ''      - /var/run/docker.sock:/var/run/docker.sock'',
     ''      - /var/run/dstack.sock:/var/run/dstack.sock'',
     ''      - /tapp:/tapp:ro'',
     ''      - shared-volume:/mnt/shared:ro'',
     [],
     ''    security_opt:'',
     ''      - no-new-privileges:true'',
     [],
     ''    read_only: true'',
     [],
     ''    tmpfs:'',
     ''      - /tmp'',
     [],
     ''volumes:'',
     ''  shared-volume:'',
     ''    name: shared-volume''])"

text \<open>\<open>str::replace\<close>, for a pattern that is not empty.\<close>

function str_replace :: "string \<Rightarrow> string \<Rightarrow> string \<Rightarrow> string" where
  "str_replace pat rep s =
     (if s = [] \<or> pat = [] then s
      else if take (length pat) s = pat then rep @ str_replace pat rep (drop (length pat) s)
      else hd s # str_replace pat rep (tl s))"
  by pat_completeness auto

termination
  by (relation "measure (\<lambda>(pat, rep, s). length s)") auto

declare str_replace.simps [simp del]

definition get_docker_compose_hash :: "'col host \<Rightarrow> docker_image_hash \<Rightarrow> launcher_compose_hash result" where
  "get_docker_compose_hash h image_hash =
     (let filled_yaml = str_replace ''{{DEFAULT_IMAGE_DIGEST_HASH}}'' (h_hex_encode h image_hash)
            LAUNCHER_DOCKER_COMPOSE_YAML_TEMPLATE;
          hash = h_sha256 h (as_bytes filled_yaml) in
      if length hash = 32 then Inr hash else Inl Panicked)"

definition grace_period_over :: "env \<Rightarrow> duration \<Rightarrow> allowed_image \<Rightarrow> bool" where
  "grace_period_over env deadline_duration ai =
     (case timestamp_checked_add (ai_added ai) deadline_duration of
        None \<Rightarrow> True
      | Some grace_period_deadline \<Rightarrow> grace_period_deadline < timestamp_now env)"

definition valid_entries :: "env \<Rightarrow> duration \<Rightarrow> allowed_image list \<Rightarrow> allowed_image list" where
  "valid_entries env deadline_duration allowed =
     (let cutoff_index = (case rposition (grace_period_over env deadline_duration) allowed of
          Some i \<Rightarrow> i | None \<Rightarrow> 0)
      in drop cutoff_index allowed)"

definition cleanup_expired_hashes :: "env \<Rightarrow> duration \<Rightarrow> allowed_image list \<Rightarrow> allowed_image list" where
  "cleanup_expired_hashes env deadline_duration allowed = valid_entries env deadline_duration allowed"

definition allowed_insert ::
  "env \<Rightarrow> 'col host \<Rightarrow> docker_image_hash \<Rightarrow> duration \<Rightarrow> allowed_image list \<Rightarrow> allowed_image list result" where
  "allowed_insert env h code_hash deadline_duration allowed0 =
     (let allowed1 = cleanup_expired_hashes env deadline_duration allowed0;
          allowed2 = (case position (\<lambda>e. ai_image_hash e = code_hash) allowed1 of
            Some pos \<Rightarrow> vec_remove pos allowed1 | None \<Rightarrow> allowed1) in
      and_then (get_docker_compose_hash h code_hash) (\<lambda>docker_compose_hash.
        let new_entry = \<lparr>ai_image_hash = code_hash, ai_docker_compose_hash = docker_compose_hash,
              ai_added = timestamp_now env\<rparr>;
            insert_index = (case rposition (\<lambda>e. ai_added new_entry < ai_added e) allowed2 of
              Some i \<Rightarrow> i | None \<Rightarrow> length allowed2) in
        Inr (vec_insert insert_index new_entry allowed2)))"

definition allowed_get :: "env \<Rightarrow> duration \<Rightarrow> allowed_image list \<Rightarrow> allowed_image list" where
  "allowed_get env deadline_duration allowed = valid_entries env deadline_duration allowed"

section \<open>Attestations of the nodes\<close>

record node_id =
  ni_account_id :: account_id
  ni_tls_public_key :: near_public_key
  ni_account_public_key :: "near_public_key option"

text \<open>\<open>NodeId\<close> implements \<open>PartialEq\<close> without the account's public key.\<close>

definition node_id_eq :: "node_id \<Rightarrow> node_id \<Rightarrow> bool" where
  "node_id_eq a b \<longleftrightarrow> ni_account_id a = ni_account_id b \<and> ni_tls_public_key a = ni_tls_public_key b"

datatype tee_quote_status = TeeValid | TeeInvalid "verification_error option"

datatype attestation_submission_error = InvalidAttestation verification_error | InvalidTlsKey

datatype participant_insertion = NewlyInsertedParticipant | UpdatedExistingParticipant

datatype tee_validation_result = TeeFull | TeePartial participants

record node_attestation =
  na_node_id :: node_id
  na_verified_attestation :: verified_attestation

record tee_state =
  ts_allowed_docker_image_hashes :: "allowed_image list"
  ts_allowed_launcher_compose_hashes :: "launcher_compose_hash list"
  ts_votes :: code_hashes_votes
  ts_stored_attestations :: "(near_public_key, node_attestation) btree_map"

definition tee_state_default :: tee_state where
  "tee_state_default = \<lparr>ts_allowed_docker_image_hashes = [], ts_allowed_launcher_compose_hashes = [],
     ts_votes = [], ts_stored_attestations = []\<rparr>"

definition with_mocked_participant_attestations :: "participants \<Rightarrow> tee_state" where
  "with_mocked_participant_attestations ps =
     tee_state_default\<lparr>ts_stored_attestations :=
       fold (\<lambda>(account_id, _, info). bt_insert (pi_sign_pk info)
         \<lparr>na_node_id = \<lparr>ni_account_id = account_id, ni_tls_public_key = pi_sign_pk info,
             ni_account_public_key = None\<rparr>,
          na_verified_attestation = VerifiedMock MockValid\<rparr>) (ps_participants ps) []\<rparr>"

definition current_time_seconds :: "env \<Rightarrow> u64" where
  "current_time_seconds env = block_timestamp env div 1000000 div 1000"

definition get_allowed_mpc_docker_images :: "env \<Rightarrow> duration \<Rightarrow> tee_state \<Rightarrow> allowed_image list" where
  "get_allowed_mpc_docker_images env d ts = allowed_get env d (ts_allowed_docker_image_hashes ts)"

definition get_allowed_mpc_docker_image_hashes ::
  "env \<Rightarrow> duration \<Rightarrow> tee_state \<Rightarrow> docker_image_hash list" where
  "get_allowed_mpc_docker_image_hashes env d ts =
     map ai_image_hash (get_allowed_mpc_docker_images env d ts)"

definition add_participant ::
  "env \<Rightarrow> 'col host \<Rightarrow> expected_measurements list \<Rightarrow> node_id \<Rightarrow> 'col attestation \<Rightarrow> duration \<Rightarrow> tee_state
    \<Rightarrow> attestation_submission_error failure + (participant_insertion \<times> tee_state)" where
  "add_participant env h default_measurements node attestation d ts =
     and_then (case ed25519_try_from_near (ni_tls_public_key node) of
         Inr k \<Rightarrow> Inr k | Inl Panic \<Rightarrow> Inl Panic | Inl (Failed _) \<Rightarrow> Inl (Failed InvalidTlsKey))
       (\<lambda>tls_public_key.
     and_then (case ni_account_public_key node of
         None \<Rightarrow> Inr None
       | Some pk \<Rightarrow> (case ed25519_try_from_near pk of
             Inr k \<Rightarrow> Inr (Some k) | Inl Panic \<Rightarrow> Inl Panic | Inl (Failed _) \<Rightarrow> Inr None))
       (\<lambda>account_public_key.
     let account_key_bytes = (case account_public_key of Some k \<Rightarrow> k | None \<Rightarrow> replicate 32 0);
         expected_report_data = report_data_v1_to_bytes h tls_public_key account_key_bytes in
     and_then (case attestation_verify h expected_report_data (current_time_seconds env)
           (get_allowed_mpc_docker_image_hashes env d ts) (ts_allowed_launcher_compose_hashes ts)
           default_measurements attestation of
         Inr v \<Rightarrow> Inr v | Inl e \<Rightarrow> Inl (Failed (InvalidAttestation e)))
       (\<lambda>verified.
     Inr (case bt_get (ts_stored_attestations ts) (ni_tls_public_key node) of
            Some _ \<Rightarrow> UpdatedExistingParticipant | None \<Rightarrow> NewlyInsertedParticipant,
          ts\<lparr>ts_stored_attestations := bt_insert (ni_tls_public_key node)
            \<lparr>na_node_id = node, na_verified_attestation = verified\<rparr> (ts_stored_attestations ts)\<rparr>))))"

definition reverify_participants :: "env \<Rightarrow> node_id \<Rightarrow> duration \<Rightarrow> tee_state \<Rightarrow> tee_quote_status" where
  "reverify_participants env node d ts =
     (case bt_get (ts_stored_attestations ts) (ni_tls_public_key node) of
        None \<Rightarrow> TeeInvalid None
      | Some na \<Rightarrow>
          (case re_verify (na_verified_attestation na) (current_time_seconds env)
             (get_allowed_mpc_docker_image_hashes env d ts) (ts_allowed_launcher_compose_hashes ts) of
             Inr _ \<Rightarrow> TeeValid | Inl err \<Rightarrow> TeeInvalid (Some err)))"

definition find_node_id_by_tls_key :: "tee_state \<Rightarrow> near_public_key \<Rightarrow> node_id option" where
  "find_node_id_by_tls_key ts tls_public_key =
     map_option na_node_id (bt_get (ts_stored_attestations ts) tls_public_key)"

definition reverify_and_cleanup_participants ::
  "env \<Rightarrow> participants \<Rightarrow> duration \<Rightarrow> tee_state \<Rightarrow> tee_validation_result \<times> tee_state" where
  "reverify_and_cleanup_participants env ps d ts0 =
     (let ts = ts0\<lparr>ts_allowed_docker_image_hashes :=
            cleanup_expired_hashes env d (ts_allowed_docker_image_hashes ts0)\<rparr>;
          valid = filter (\<lambda>(account_id, _, info).
            let tls_public_key = pi_sign_pk info;
                node = \<lparr>ni_account_id = account_id, ni_tls_public_key = tls_public_key,
                  ni_account_public_key =
                    Option.bind (find_node_id_by_tls_key ts tls_public_key) ni_account_public_key\<rparr>
            in reverify_participants env node d ts = TeeValid) (ps_participants ps) in
      (if length valid \<noteq> participants_len ps
       then TeePartial (participants_init (ps_next_id ps) valid) else TeeFull, ts))"

definition tee_vote :: "docker_image_hash \<Rightarrow> participant_id \<Rightarrow> tee_state \<Rightarrow> u64 \<times> tee_state" where
  "tee_vote code_hash participant ts =
     (let (n, votes) = code_hashes_vote code_hash participant (ts_votes ts) in (n, ts\<lparr>ts_votes := votes\<rparr>))"

definition whitelist_tee_proposal ::
  "env \<Rightarrow> 'col host \<Rightarrow> docker_image_hash \<Rightarrow> duration \<Rightarrow> tee_state \<Rightarrow> tee_state result" where
  "whitelist_tee_proposal env h tee_proposal d ts =
     and_then (get_docker_compose_hash h tee_proposal) (\<lambda>compose.
     and_then (allowed_insert env h tee_proposal d (ts_allowed_docker_image_hashes ts)) (\<lambda>allowed.
     Inr (ts\<lparr>ts_votes := clear_votes (ts_votes ts),
             ts_allowed_launcher_compose_hashes := ts_allowed_launcher_compose_hashes ts @ [compose],
             ts_allowed_docker_image_hashes := allowed\<rparr>)))"

definition clean_non_participants :: "participants \<Rightarrow> tee_state \<Rightarrow> tee_state" where
  "clean_non_participants ps ts =
     (let active_tls_keys = set (map (\<lambda>(_, _, info). pi_sign_pk info) (ps_participants ps));
          stale_keys = filter (\<lambda>k. k \<notin> active_tls_keys) (map fst (ts_stored_attestations ts)) in
      ts\<lparr>ts_stored_attestations := fold bt_remove stale_keys (ts_stored_attestations ts)\<rparr>)"

definition get_tee_accounts :: "tee_state \<Rightarrow> node_id list" where
  "get_tee_accounts ts = map (\<lambda>(_, na). na_node_id na) (ts_stored_attestations ts)"

datatype attestation_check_error =
    CallerNotParticipant | AttestationNotFound | AttestationOwnerMismatch | AttestationKeyMismatch

definition is_caller_an_attested_participant ::
  "env \<Rightarrow> participants \<Rightarrow> tee_state \<Rightarrow> attestation_check_error + unit" where
  "is_caller_an_attested_participant env ps ts =
     and_then (ok_or (participants_info ps (signer_account_id env)) CallerNotParticipant) (\<lambda>info.
     and_then (ok_or (bt_get (ts_stored_attestations ts) (pi_sign_pk info)) AttestationNotFound) (\<lambda>att.
     if ni_account_id (na_node_id att) \<noteq> signer_account_id env then Inl AttestationOwnerMismatch
     else case ni_account_public_key (na_node_id att) of
       Some node_pk \<Rightarrow>
         if node_pk \<noteq> signer_account_pk env then Inl AttestationKeyMismatch else Inr ()
     | None \<Rightarrow> Inr ()))"

section \<open>Big-endian encoding and stored timestamps\<close>

lemma u64_be_step: "n div 256 * 256 + n mod 256 = n" for n :: int
  by simp

lemma length_u64_to_be_bytes [simp]: "length (u64_to_be_bytes x) = 8"
  by (simp add: u64_to_be_bytes_def)

lemma foldl_digits:
  fixes q :: "nat \<Rightarrow> int"
  assumes "\<And>i. q (Suc i) * b + r i = q i"
  shows "foldl (\<lambda>m i. m * b + r i) (q k) (rev [0 ..< k]) = q 0"
  by (induction k) (simp_all add: assms)

lemma u64_be_horner:
  fixes n :: int
  assumes "0 \<le> n" "n < 256 ^ 8"
  shows "foldl (\<lambda>m i. m * 256 + n div 256 ^ i mod 256) 0 [7, 6, 5, 4, 3, 2, 1, 0 :: nat] = n"
proof -
  have step: "n div 256 ^ Suc i * 256 + n div 256 ^ i mod 256 = n div 256 ^ i" for i
  proof -
    have "n div 256 ^ Suc i = n div (256 ^ i * 256)"
      by (simp add: mult.commute)
    also have "\<dots> = n div 256 ^ i div 256"
      by (rule zdiv_zmult2_eq) simp
    finally show ?thesis by simp
  qed
  have "rev [0 ..< 8] = [7, 6, 5, 4, 3, 2, 1, 0 :: nat]"
    by code_simp
  moreover have "n div 256 ^ 8 = 0"
    using assms by (rule div_pos_pos_trivial)
  ultimately show ?thesis
    using foldl_digits [of "\<lambda>i. n div 256 ^ i" 256 "\<lambda>i. n div 256 ^ i mod 256" 8, OF step]
    by (simp only: power_0 div_by_1)
qed

lemma u64_be_roundtrip [simp]: "u64_from_be_bytes (u64_to_be_bytes x) = x"
proof -
  have "uint x < 256 ^ 8"
    using uint_bounded [of x] by simp
  then have "foldl (\<lambda>m i. m * 256 + uint x div 256 ^ i mod 256) 0 [7, 6, 5, 4, 3, 2, 1, 0 :: nat] = uint x"
    by (intro u64_be_horner) simp_all
  moreover have "uint (of_int k :: 8 word) = k mod 256" for k
    by (simp add: uint_word_of_int)
  ultimately have "foldl (\<lambda>n b. n * 256 + uint b) 0 (u64_to_be_bytes x) = uint x"
    by (simp only: u64_to_be_bytes_def list.map foldl.simps)
  then show ?thesis
    by (simp add: u64_from_be_bytes_def)
qed

text \<open>What a stored timestamp is read back as: the whole seconds of it.\<close>

definition whole_seconds :: "timestamp \<Rightarrow> timestamp" where
  "whole_seconds t = t div nanos_per_sec * nanos_per_sec"

lemma whole_seconds_mono: "s \<le> t \<Longrightarrow> whole_seconds s \<le> whole_seconds t"
  by (simp add: whole_seconds_def nanos_per_sec_def zdiv_mono1)

lemma whole_seconds_le: "whole_seconds t \<le> t" "t < whole_seconds t + nanos_per_sec"
  using pos_mod_bound [of nanos_per_sec t] pos_mod_sign [of nanos_per_sec t] div_mult_mod_eq [of t nanos_per_sec]
  by (auto simp: whole_seconds_def nanos_per_sec_def)

lemma duration_secs_roundtrip:
  assumes "0 \<le> t" "t < 2 ^ 64 * nanos_per_sec"
  shows "duration_from_secs (duration_as_secs t) = whole_seconds t"
proof -
  have "t div nanos_per_sec < 2 ^ 64" "0 \<le> t div nanos_per_sec"
    using assms by (simp_all add: nanos_per_sec_def)
  then show ?thesis
    by (simp add: duration_from_secs_def duration_as_secs_def whole_seconds_def uint_word_of_int)
qed



section \<open>The list of allowed images\<close>

definition allowed_sorted :: "allowed_image list \<Rightarrow> bool" where
  "allowed_sorted allowed \<longleftrightarrow> sorted (map ai_added allowed)"

lemma valid_entries_drop:
  "\<exists>k. valid_entries env d allowed = drop k allowed
     \<and> (\<forall>j < length allowed. k \<le> j \<longleftrightarrow> (\<forall>m < length allowed. j < m \<longrightarrow> \<not> grace_period_over env d (allowed ! m)))"
proof (cases "rposition (grace_period_over env d) allowed")
  case None
  then have "valid_entries env d allowed = drop 0 allowed"
    by (simp add: valid_entries_def)
  moreover have "\<forall>m < length allowed. \<not> grace_period_over env d (allowed ! m)"
    using None by (simp add: rposition_None)
  ultimately show ?thesis by (intro exI [of _ 0]) simp
next
  case (Some i)
  note i = rposition_Some [OF Some]
  have "valid_entries env d allowed = drop i allowed"
    using Some by (simp add: valid_entries_def)
  moreover have "i \<le> j \<longleftrightarrow> (\<forall>m < length allowed. j < m \<longrightarrow> \<not> grace_period_over env d (allowed ! m))"
    if "j < length allowed" for j
    using i that by (meson le_less_trans not_le)
  ultimately show ?thesis by blast
qed

lemma valid_entries_last:
  assumes "allowed \<noteq> []"
  shows "valid_entries env d allowed \<noteq> []" "last (valid_entries env d allowed) = last allowed"
proof -
  obtain k where k: "valid_entries env d allowed = drop k allowed"
    "\<forall>j < length allowed. k \<le> j \<longleftrightarrow> (\<forall>m < length allowed. j < m \<longrightarrow> \<not> grace_period_over env d (allowed ! m))"
    using valid_entries_drop by blast
  have "length allowed - 1 < length allowed"
    using assms by simp
  moreover from this have "k \<le> length allowed - 1"
    using k(2) by auto
  ultimately have "k < length allowed" by simp
  then show "valid_entries env d allowed \<noteq> []" "last (valid_entries env d allowed) = last allowed"
    by (simp_all add: k(1) last_drop)
qed

lemma grace_period_over_earlier:
  assumes "ai_added e \<le> ai_added e'" "grace_period_over env d e'"
    "ai_added e' + d < 2 ^ 64 * nanos_per_sec"
  shows "grace_period_over env d e"
  using assms by (auto simp: grace_period_over_def timestamp_checked_add_def duration_checked_add_def)

text \<open>
  C24: the grace period of a docker image. In a list of allowed images in the order they
  were voted in, the images served form a suffix: an image is allowed exactly as long as it
  is the newest one, or the next newer image was added no longer than the grace period ago.
  The newest image never expires.
\<close>

theorem image_allowed_until_next_is_old:
  assumes "allowed_sorted allowed" "\<forall>e \<in> set allowed. ai_added e + d < 2 ^ 64 * nanos_per_sec"
  shows "\<exists>k. allowed_get env d allowed = drop k allowed
    \<and> (\<forall>j < length allowed. k \<le> j \<longleftrightarrow>
        Suc j = length allowed \<or> timestamp_now env \<le> ai_added (allowed ! Suc j) + d)"
proof -
  obtain k where k: "valid_entries env d allowed = drop k allowed"
    "\<forall>j < length allowed. k \<le> j \<longleftrightarrow> (\<forall>m < length allowed. j < m \<longrightarrow> \<not> grace_period_over env d (allowed ! m))"
    using valid_entries_drop by blast
  have over: "grace_period_over env d (allowed ! m) \<longleftrightarrow> ai_added (allowed ! m) + d < timestamp_now env"
    if "m < length allowed" for m
    using that assms(2) nth_mem [OF that]
    by (auto simp: grace_period_over_def timestamp_checked_add_def duration_checked_add_def)
  have sorted: "ai_added (allowed ! i) \<le> ai_added (allowed ! j)" if "i \<le> j" "j < length allowed" for i j
    using assms(1) that sorted_nth_mono [of "map ai_added allowed" i j] by (simp add: allowed_sorted_def)
  have "(\<forall>m < length allowed. j < m \<longrightarrow> \<not> grace_period_over env d (allowed ! m)) \<longleftrightarrow>
      Suc j = length allowed \<or> timestamp_now env \<le> ai_added (allowed ! Suc j) + d"
    if j: "j < length allowed" for j
  proof
    assume "\<forall>m < length allowed. j < m \<longrightarrow> \<not> grace_period_over env d (allowed ! m)"
    then show "Suc j = length allowed \<or> timestamp_now env \<le> ai_added (allowed ! Suc j) + d"
      using j over [of "Suc j"] by (cases "Suc j = length allowed") auto
  next
    assume R: "Suc j = length allowed \<or> timestamp_now env \<le> ai_added (allowed ! Suc j) + d"
    show "\<forall>m < length allowed. j < m \<longrightarrow> \<not> grace_period_over env d (allowed ! m)"
    proof (intro allI impI)
      fix m assume m: "m < length allowed" "j < m"
      then show "\<not> grace_period_over env d (allowed ! m)"
        using R over [OF m(1)] sorted [of "Suc j" m] by auto
    qed
  qed
  with k show ?thesis
    unfolding allowed_get_def by metis
qed

definition sample_allowed :: "allowed_image list" where
  "sample_allowed =
     [\<lparr>ai_image_hash = [1], ai_docker_compose_hash = [1], ai_added = 1000\<rparr>,
      \<lparr>ai_image_hash = [2], ai_docker_compose_hash = [2], ai_added = 5000\<rparr>,
      \<lparr>ai_image_hash = [3], ai_docker_compose_hash = [3], ai_added = 9000\<rparr>]"

definition sample_tee_env :: env where
  "sample_tee_env = \<lparr>signer_account_id = ''a'', predecessor_account_id = ''a'',
     signer_account_pk = NearPublicKey (0 # replicate 32 1), current_account_id = ''mpc'',
     block_height = 100, block_timestamp = 10500, prepaid_gas = 0, attached_deposit = 0,
     storage_byte_cost = 1, storage_usage_before = 0, storage_usage_after = 0, yield_data_id = []\<rparr>"

theorem image_allowed_until_next_is_old_witness:
  "allowed_sorted sample_allowed \<and> map ai_image_hash (allowed_get sample_tee_env 5000 sample_allowed) = [[2], [3]]
   \<and> (\<exists>k. allowed_get sample_tee_env 5000 sample_allowed = drop k sample_allowed
    \<and> (\<forall>j < length sample_allowed. k \<le> j \<longleftrightarrow>
        Suc j = length sample_allowed \<or> timestamp_now sample_tee_env \<le> ai_added (sample_allowed ! Suc j) + 5000))"
proof -
  have "allowed_sorted sample_allowed" by code_simp
  moreover have "\<forall>e \<in> set sample_allowed. ai_added e + 5000 < 2 ^ 64 * nanos_per_sec"
    by (simp add: sample_allowed_def nanos_per_sec_def)
  moreover have "map ai_image_hash (allowed_get sample_tee_env 5000 sample_allowed) = [[2], [3]]"
    by code_simp
  ultimately show ?thesis
    using image_allowed_until_next_is_old [of sample_allowed 5000 sample_tee_env] by blast
qed

text \<open>
  The list as \<open>AllowedDockerImageHashes\<close> documents it: in the order of insertion, one entry per
  image, nothing from the future.
\<close>

definition allowed_inv :: "env \<Rightarrow> allowed_image list \<Rightarrow> bool" where
  "allowed_inv env allowed \<longleftrightarrow> allowed_sorted allowed \<and> distinct (map ai_image_hash allowed)
     \<and> (\<forall>e \<in> set allowed. ai_added e \<le> timestamp_now env)"

lemma allowed_inv_drop: "allowed_inv env allowed \<Longrightarrow> allowed_inv env (drop k allowed)"
  by (auto simp: allowed_inv_def allowed_sorted_def drop_map [symmetric] sorted_wrt_drop
      dest: in_set_dropD)

lemma allowed_inv_filter: "allowed_inv env allowed \<Longrightarrow> allowed_inv env (filter p allowed)"
  by (auto simp: allowed_inv_def allowed_sorted_def sorted_filter distinct_map_filter)

lemma allowed_inv_valid_entries: "allowed_inv env allowed \<Longrightarrow> allowed_inv env (valid_entries env' d allowed)"
  by (simp add: valid_entries_def Let_def allowed_inv_drop)

lemma allowed_inv_snoc:
  "allowed_inv env (allowed @ [e]) \<longleftrightarrow> allowed_inv env allowed \<and> ai_image_hash e \<notin> ai_image_hash ` set allowed
    \<and> (\<forall>e' \<in> set allowed. ai_added e' \<le> ai_added e) \<and> ai_added e \<le> timestamp_now env"
  by (auto simp: allowed_inv_def allowed_sorted_def sorted_append)

lemma allowed_inv_later:
  "allowed_inv env allowed \<Longrightarrow> timestamp_now env \<le> timestamp_now env' \<Longrightarrow> allowed_inv env' allowed"
  by (auto simp: allowed_inv_def)

lemma distinct_position_remove:
  assumes "distinct (map f xs)"
  shows "(case position (\<lambda>x. f x = y) xs of Some i \<Rightarrow> vec_remove i xs | None \<Rightarrow> xs) = filter (\<lambda>x. f x \<noteq> y) xs"
  using assms
proof (induction xs)
  case (Cons x xs)
  show ?case
  proof (cases "f x = y")
    case True
    then have "filter (\<lambda>x. f x \<noteq> y) xs = xs"
      using Cons.prems by (auto simp: filter_id_conv) (metis image_eqI)
    with True show ?thesis by (simp add: vec_remove_def)
  next
    case False
    then show ?thesis
      using Cons by (auto simp: vec_remove_def split: option.splits)
  qed
qed simp

lemma allowed_insert_shape:
  assumes "allowed_inv env allowed" "allowed_insert env h code_hash d allowed = Inr allowed'"
  shows "\<exists>c. get_docker_compose_hash h code_hash = Inr c \<and>
    allowed' = filter (\<lambda>e. ai_image_hash e \<noteq> code_hash) (valid_entries env d allowed)
      @ [\<lparr>ai_image_hash = code_hash, ai_docker_compose_hash = c, ai_added = timestamp_now env\<rparr>]"
proof -
  let ?v = "filter (\<lambda>e. ai_image_hash e \<noteq> code_hash) (valid_entries env d allowed)"
  have "allowed_inv env (valid_entries env d allowed)"
    using assms(1) by (rule allowed_inv_valid_entries)
  then have rem: "(case position (\<lambda>e. ai_image_hash e = code_hash) (valid_entries env d allowed) of
      Some pos \<Rightarrow> vec_remove pos (valid_entries env d allowed) | None \<Rightarrow> valid_entries env d allowed) = ?v"
    by (intro distinct_position_remove) (simp add: allowed_inv_def)
  have "rposition (\<lambda>e. timestamp_now env < ai_added e) ?v = None"
    using allowed_inv_valid_entries [OF assms(1), of env d]
    by (auto simp: rposition_None allowed_inv_def not_less)
  then show ?thesis
    using assms(2)
    by (auto simp: allowed_insert_def cleanup_expired_hashes_def rem Let_def and_then_eq_Inr vec_insert_def)
qed

lemma get_docker_compose_hash_ok:
  "(\<And>x. length (h_sha256 h x) = 32) \<Longrightarrow> \<exists>c. get_docker_compose_hash h code_hash = Inr c"
  by (simp add: get_docker_compose_hash_def)


lemma whitelist_tee_proposal_shape:
  assumes "allowed_inv env0 (ts_allowed_docker_image_hashes ts)" "timestamp_now env0 \<le> timestamp_now env"
    "whitelist_tee_proposal env h code_hash d ts = Inr ts'"
  obtains c where "ts' = ts\<lparr>ts_votes := [],
      ts_allowed_launcher_compose_hashes := ts_allowed_launcher_compose_hashes ts @ [c],
      ts_allowed_docker_image_hashes :=
        filter (\<lambda>e. ai_image_hash e \<noteq> code_hash) (valid_entries env d (ts_allowed_docker_image_hashes ts))
        @ [\<lparr>ai_image_hash = code_hash, ai_docker_compose_hash = c, ai_added = timestamp_now env\<rparr>]\<rparr>"
proof -
  have inv: "allowed_inv env (ts_allowed_docker_image_hashes ts)"
    using assms(1,2) by (rule allowed_inv_later)
  obtain c allowed where c: "get_docker_compose_hash h code_hash = Inr c"
    and allowed: "allowed_insert env h code_hash d (ts_allowed_docker_image_hashes ts) = Inr allowed"
    and ts': "ts' = ts\<lparr>ts_votes := [], ts_allowed_launcher_compose_hashes :=
        ts_allowed_launcher_compose_hashes ts @ [c], ts_allowed_docker_image_hashes := allowed\<rparr>"
    using assms(3) by (auto simp: whitelist_tee_proposal_def and_then_eq_Inr clear_votes_def)
  show thesis
    using allowed_insert_shape [OF inv allowed] c ts' that by auto
qed

text \<open>
  Voting in an image keeps the list of allowed images in order. Under a clock that does
  not run backwards, \<open>whitelist_tee_proposal\<close> leaves the list in insertion order with one entry
  per image; the voted image is allowed and is the newest, every other image that is still
  within its grace period stays, no other image appears, the launcher hash of the image is
  allowed, and the votes are cleared.
\<close>

theorem whitelisting_keeps_order:
  assumes "allowed_inv env0 (ts_allowed_docker_image_hashes ts)" "timestamp_now env0 \<le> timestamp_now env"
    "whitelist_tee_proposal env h code_hash d ts = Inr ts'"
  shows "allowed_inv env (ts_allowed_docker_image_hashes ts')
    \<and> ai_image_hash (last (ts_allowed_docker_image_hashes ts')) = code_hash
    \<and> ai_image_hash ` set (ts_allowed_docker_image_hashes ts') =
        insert code_hash (set (get_allowed_mpc_docker_image_hashes env d ts))
    \<and> set (ts_allowed_launcher_compose_hashes ts') = insert
        (ai_docker_compose_hash (last (ts_allowed_docker_image_hashes ts'))) (set (ts_allowed_launcher_compose_hashes ts))
    \<and> ts_votes ts' = []"
proof -
  let ?v = "filter (\<lambda>e. ai_image_hash e \<noteq> code_hash) (valid_entries env d (ts_allowed_docker_image_hashes ts))"
  obtain c where ts': "ts' = ts\<lparr>ts_votes := [],
      ts_allowed_launcher_compose_hashes := ts_allowed_launcher_compose_hashes ts @ [c],
      ts_allowed_docker_image_hashes := ?v
        @ [\<lparr>ai_image_hash = code_hash, ai_docker_compose_hash = c, ai_added = timestamp_now env\<rparr>]\<rparr>"
    using assms by (rule whitelist_tee_proposal_shape)
  have v: "allowed_inv env ?v"
    using allowed_inv_later [OF assms(1,2)] by (intro allowed_inv_filter allowed_inv_valid_entries)
  then have "\<forall>e \<in> set ?v. ai_added e \<le> timestamp_now env"
    unfolding allowed_inv_def by blast
  then have "allowed_inv env (ts_allowed_docker_image_hashes ts')"
    using v by (auto simp: ts' allowed_inv_snoc)
  moreover have "ai_image_hash ` set (ts_allowed_docker_image_hashes ts') =
      insert code_hash (set (get_allowed_mpc_docker_image_hashes env d ts))"
    by (auto simp: ts' get_allowed_mpc_docker_image_hashes_def get_allowed_mpc_docker_images_def
        allowed_get_def)
  ultimately show ?thesis
    by (simp add: ts')
qed

definition sample_tee :: tee_state where
  "sample_tee = tee_state_default\<lparr>ts_allowed_docker_image_hashes := sample_allowed, ts_votes := [(0, [1])]\<rparr>"

lemma sample_tee_inv: "allowed_inv sample_tee_env (ts_allowed_docker_image_hashes sample_tee)"
  by code_simp

theorem whitelisting_keeps_order_witness:
  "\<exists>ts'. whitelist_tee_proposal sample_tee_env sample_host [2] 5000 sample_tee = Inr ts'
    \<and> allowed_inv sample_tee_env (ts_allowed_docker_image_hashes ts') \<and> ts_votes ts' = []
    \<and> ai_image_hash ` set (ts_allowed_docker_image_hashes ts') = {[2], [3]}"
proof -
  have "\<exists>c. get_docker_compose_hash sample_host [2] = Inr c"
    by (rule get_docker_compose_hash_ok) (simp add: sample_host_def)
  then obtain ts' where ts': "whitelist_tee_proposal sample_tee_env sample_host [2] 5000 sample_tee = Inr ts'"
    by (auto simp: whitelist_tee_proposal_def allowed_insert_def Let_def)
  moreover have "set (get_allowed_mpc_docker_image_hashes sample_tee_env 5000 sample_tee) = {[2], [3]}"
    by code_simp
  ultimately show ?thesis
    using whitelisting_keeps_order [OF sample_tee_inv order_refl ts'] by simp
qed

section \<open>Stored attestations\<close>

lemma re_verify_of_verify:
  assumes "attestation_verify h rd now images composes ms a = Inr v"
    "unat now + 604800 < 2 ^ 64"
  shows "re_verify v now images composes = Inr ()"
proof (cases a)
  case (Dstack da)
  have "now \<le> now + DEFAULT_EXPIRATION_DURATION_SECONDS"
    using unat_expiry [OF assms(2)] by (simp add: word_le_nat_alt)
  with assms(1) Dstack show ?thesis
    by (auto simp: attestation_verify_Dstack_Inr re_verify_Dstack_Inr)
next
  case (Mock m)
  with assms(1) show ?thesis
    by (auto simp: attestation_verify_def re_verify_def and_then_eq_Inr)
qed

text \<open>The account key a report commits to: zeros when it is missing or not an Ed25519 key.\<close>

definition attested_account_key :: "node_id \<Rightarrow> bytes" where
  "attested_account_key node =
     (case ni_account_public_key node of None \<Rightarrow> replicate 32 0
      | Some pk \<Rightarrow> (case ed25519_try_from_near pk of Inr b \<Rightarrow> b | Inl _ \<Rightarrow> replicate 32 0))"

lemma add_participant_Inr:
  assumes "add_participant env h ms node a d ts = Inr (r, ts')"
  obtains v k where "ed25519_try_from_near (ni_tls_public_key node) = Inr k"
    "attestation_verify h (report_data_v1_to_bytes h k
        (attested_account_key node))
      (current_time_seconds env) (get_allowed_mpc_docker_image_hashes env d ts)
      (ts_allowed_launcher_compose_hashes ts) ms a = Inr v"
    "ts' = ts\<lparr>ts_stored_attestations := bt_insert (ni_tls_public_key node)
       \<lparr>na_node_id = node, na_verified_attestation = v\<rparr> (ts_stored_attestations ts)\<rparr>"
  using assms
  unfolding add_participant_def Let_def
  by (elim and_then_InrE) (auto simp: attested_account_key_def split: sum.splits failure.splits option.splits)

lemma current_time_seconds_bound: "unat (current_time_seconds env) + 604800 < 2 ^ 64"
proof -
  have "unat (current_time_seconds env) = unat (block_timestamp env) div 1000000 div 1000"
    by (simp add: current_time_seconds_def unat_div)
  also have "\<dots> \<le> 2 ^ 64 div 1000000 div 1000"
    using unsigned_less [of "block_timestamp env", where 'a = nat] by (intro div_le_mono) simp
  finally show ?thesis by simp
qed

lemma reverify_stored:
  "bt_get (ts_stored_attestations ts) (ni_tls_public_key node) = Some na \<Longrightarrow>
   reverify_participants env node d ts = TeeValid \<longleftrightarrow>
     re_verify (na_verified_attestation na) (current_time_seconds env)
       (get_allowed_mpc_docker_image_hashes env d ts) (ts_allowed_launcher_compose_hashes ts) = Inr ()"
  by (auto simp: reverify_participants_def split: sum.splits)

text \<open>
  C21: a submitted attestation is bound to its node. When \<open>add_participant\<close> accepts, the TLS
  key is an Ed25519 key, the attestation was verified against report data that commits to
  the node's TLS key and account key, the stored entry for that TLS key names the submitting
  node, the entry passes the re-verification at the same block, and no other entry changes.
\<close>

theorem submitted_attestation_is_bound:
  assumes "add_participant env h ms node a d ts = Inr (r, ts')"
  shows "\<exists>k v. ed25519_try_from_near (ni_tls_public_key node) = Inr k
    \<and> attestation_verify h (report_data_v1_to_bytes h k
        (attested_account_key node))
        (current_time_seconds env) (get_allowed_mpc_docker_image_hashes env d ts)
        (ts_allowed_launcher_compose_hashes ts) ms a = Inr v
    \<and> bt_get (ts_stored_attestations ts') = (bt_get (ts_stored_attestations ts))
        (ni_tls_public_key node \<mapsto> \<lparr>na_node_id = node, na_verified_attestation = v\<rparr>)
    \<and> reverify_participants env node d ts' = TeeValid
    \<and> (r = NewlyInsertedParticipant \<longleftrightarrow> bt_get (ts_stored_attestations ts) (ni_tls_public_key node) = None)"
proof -
  obtain v k where k: "ed25519_try_from_near (ni_tls_public_key node) = Inr k"
    and v: "attestation_verify h (report_data_v1_to_bytes h k
        (attested_account_key node))
        (current_time_seconds env) (get_allowed_mpc_docker_image_hashes env d ts)
        (ts_allowed_launcher_compose_hashes ts) ms a = Inr v"
    and ts': "ts' = ts\<lparr>ts_stored_attestations := bt_insert (ni_tls_public_key node)
       \<lparr>na_node_id = node, na_verified_attestation = v\<rparr> (ts_stored_attestations ts)\<rparr>"
    using assms by (rule add_participant_Inr)
  have get: "bt_get (ts_stored_attestations ts') = (bt_get (ts_stored_attestations ts))
        (ni_tls_public_key node \<mapsto> \<lparr>na_node_id = node, na_verified_attestation = v\<rparr>)"
    by (simp add: ts')
  have "reverify_participants env node d ts' = TeeValid"
    using re_verify_of_verify [OF v current_time_seconds_bound]
    by (subst reverify_stored [of _ _ "\<lparr>na_node_id = node, na_verified_attestation = v\<rparr>"])
      (simp_all add: ts' get_allowed_mpc_docker_image_hashes_def get_allowed_mpc_docker_images_def)
  moreover have "r = NewlyInsertedParticipant \<longleftrightarrow>
      bt_get (ts_stored_attestations ts) (ni_tls_public_key node) = None"
    using assms k v unfolding add_participant_def Let_def
    by (elim and_then_InrE) (auto split: option.splits)
  ultimately show ?thesis
    by (intro exI [of _ k] exI [of _ v] conjI k v get)
qed

definition sample_node :: node_id where
  "sample_node = \<lparr>ni_account_id = ''a'', ni_tls_public_key = NearPublicKey (0 # replicate 32 1),
     ni_account_public_key = None\<rparr>"

theorem submitted_attestation_is_bound_witness:
  "\<exists>r ts'. add_participant sample_tee_env sample_host [] sample_node (Mock MockValid) 5000 sample_tee = Inr (r, ts')
    \<and> reverify_participants sample_tee_env sample_node 5000 ts' = TeeValid"
proof -
  have "is_ok (add_participant sample_tee_env sample_host [] sample_node (Mock MockValid) 5000 sample_tee)"
    by code_simp
  then obtain r ts' where "add_participant sample_tee_env sample_host [] sample_node (Mock MockValid) 5000 sample_tee = Inr (r, ts')"
    by (auto simp: is_ok_iff)
  then show ?thesis
    using submitted_attestation_is_bound [of sample_tee_env sample_host "[]" sample_node "Mock MockValid" 5000 sample_tee r ts']
    by blast
qed

text \<open>The stored attestation of a participant, looked up by its TLS key, is valid now.\<close>

definition attested_now :: "env \<Rightarrow> duration \<Rightarrow> tee_state \<Rightarrow> participant_info \<Rightarrow> bool" where
  "attested_now env d ts info \<longleftrightarrow>
     (case bt_get (ts_stored_attestations ts) (pi_sign_pk info) of
        None \<Rightarrow> False
      | Some na \<Rightarrow> re_verify (na_verified_attestation na) (current_time_seconds env)
          (get_allowed_mpc_docker_image_hashes env d ts) (ts_allowed_launcher_compose_hashes ts) = Inr ())"

lemma reverify_participants_attested:
  "reverify_participants env \<lparr>ni_account_id = a, ni_tls_public_key = pi_sign_pk info, ni_account_public_key = pk\<rparr> d ts
     = TeeValid \<longleftrightarrow> attested_now env d ts info"
  by (auto simp: reverify_participants_def attested_now_def split: option.splits sum.splits)

lemma rposition_drop_None:
  "rposition p xs = Some i \<Longrightarrow> rposition p (drop i xs) = Some 0"
proof (induction xs arbitrary: i)
  case (Cons x xs)
  show ?case
  proof (cases "rposition p xs")
    case None
    with Cons.prems show ?thesis by (auto split: if_splits)
  next
    case (Some j)
    with Cons show ?thesis by auto
  qed
qed simp

lemma valid_entries_idem: "valid_entries env d (valid_entries env d allowed) = valid_entries env d allowed"
  using rposition_drop_None [of "grace_period_over env d" allowed]
  by (cases "rposition (grace_period_over env d) allowed") (auto simp: valid_entries_def)

lemma attested_now_cleanup:
  "attested_now env d (ts\<lparr>ts_allowed_docker_image_hashes :=
     cleanup_expired_hashes env d (ts_allowed_docker_image_hashes ts)\<rparr>) info = attested_now env d ts info"
  by (simp add: attested_now_def get_allowed_mpc_docker_image_hashes_def get_allowed_mpc_docker_images_def
      allowed_get_def cleanup_expired_hashes_def valid_entries_idem split: option.splits)

lemma reverify_and_cleanup_eq:
  "reverify_and_cleanup_participants env ps d ts =
     (if \<forall>e \<in> set (ps_participants ps). attested_now env d ts (entry_info e) then TeeFull
      else TeePartial \<lparr>ps_next_id = ps_next_id ps, ps_participants =
        filter (\<lambda>e. attested_now env d ts (entry_info e)) (ps_participants ps)\<rparr>,
      ts\<lparr>ts_allowed_docker_image_hashes := valid_entries env d (ts_allowed_docker_image_hashes ts)\<rparr>)"
proof -
  have "(\<lambda>(account_id, x :: participant_id, info). reverify_participants env
      \<lparr>ni_account_id = account_id, ni_tls_public_key = pi_sign_pk info, ni_account_public_key = g info\<rparr> d ts' = TeeValid)
    = (\<lambda>e. attested_now env d ts' (entry_info e))" for g ts'
    by (auto simp: fun_eq_iff reverify_participants_attested)
  then show ?thesis
    by (simp add: reverify_and_cleanup_participants_def Let_def attested_now_cleanup participants_len_def
        participants_init_def filter_same_length cleanup_expired_hashes_def
        attested_now_cleanup [unfolded cleanup_expired_hashes_def])
qed

lemma participants_wf_filter:
  assumes "participants_wf ps"
  shows "participants_wf \<lparr>ps_next_id = ps_next_id ps, ps_participants = filter p (ps_participants ps)\<rparr>"
  using assms by (auto simp: participants_wf_def accounts_def ids_def distinct_map_filter)

lemma bt_get_fold_remove: "bt_get (fold bt_remove ks m) k = (if k \<in> set ks then None else bt_get m k)"
  by (induction ks arbitrary: m) auto

text \<open>
  \<open>clean_non_participants\<close> keeps exactly the attestations whose TLS key is the key of a
  participant, unchanged.
\<close>

theorem clean_non_participants_lookup:
  "bt_get (ts_stored_attestations (clean_non_participants ps ts)) k =
     (if k \<in> (\<lambda>e. pi_sign_pk (entry_info e)) ` set (ps_participants ps)
      then bt_get (ts_stored_attestations ts) k else None)"
proof -
  have "(\<lambda>(a :: account_id, b :: participant_id, info). pi_sign_pk info) = (\<lambda>e. pi_sign_pk (entry_info e))"
    by auto
  moreover have "bt_get (ts_stored_attestations ts) k = None" if "k \<notin> fst ` set (ts_stored_attestations ts)"
    using that dom_bt_get [of "ts_stored_attestations ts"] by blast
  ultimately show ?thesis
    by (auto simp: clean_non_participants_def Let_def bt_get_fold_remove)
qed

lemma find_ex: "x \<in> set xs \<Longrightarrow> p x \<Longrightarrow> \<exists>y. List.find p xs = Some y"
  by (induction xs) auto

lemma with_mocked_lookup_aux:
  assumes "distinct (map (\<lambda>e. pi_sign_pk (entry_info e)) es)"
  shows "bt_get (fold (\<lambda>(account_id, _, info). bt_insert (pi_sign_pk info) (f account_id info)) es m) k =
    (case List.find (\<lambda>e. pi_sign_pk (entry_info e) = k) es of
       Some e \<Rightarrow> Some (f (entry_account e) (entry_info e)) | None \<Rightarrow> bt_get m k)"
  using assms
proof (induction es arbitrary: m)
  case (Cons e es)
  show ?case
  proof (cases "pi_sign_pk (entry_info e) = k")
    case True
    then have "List.find (\<lambda>e. pi_sign_pk (entry_info e) = k) es = None"
      using Cons.prems by (auto simp: find_None_iff image_iff)
    with True Cons show ?thesis by (simp add: case_prod_beta)
  qed (use Cons in \<open>simp add: case_prod_beta split: option.split\<close>)
qed simp


text \<open>
  The attestations the contract starts with are usable. After \<open>init\<close> every participant
  whose TLS key is not shared with another one counts as attested, passes the caller check
  when it signs with any key, and a full re-verification finds everybody valid.
\<close>

theorem mocked_attestations_cover_participants:
  assumes "participants_wf ps" "distinct (map (\<lambda>e. pi_sign_pk (entry_info e)) (ps_participants ps))"
  shows "fst (reverify_and_cleanup_participants env ps d (with_mocked_participant_attestations ps)) = TeeFull
    \<and> (is_participant_given_account_id ps (signer_account_id env) \<longrightarrow>
        is_caller_an_attested_participant env ps (with_mocked_participant_attestations ps) = Inr ())"
proof -
  let ?ts = "with_mocked_participant_attestations ps"
  have get: "bt_get (ts_stored_attestations ?ts) (pi_sign_pk (entry_info e)) =
      Some \<lparr>na_node_id = \<lparr>ni_account_id = entry_account e, ni_tls_public_key = pi_sign_pk (entry_info e),
             ni_account_public_key = None\<rparr>, na_verified_attestation = VerifiedMock MockValid\<rparr>"
    if e: "e \<in> set (ps_participants ps)" for e
  proof -
    obtain e' where e': "List.find (\<lambda>x. pi_sign_pk (entry_info x) = pi_sign_pk (entry_info e)) (ps_participants ps) = Some e'"
      using find_ex [OF e, of "\<lambda>x. pi_sign_pk (entry_info x) = pi_sign_pk (entry_info e)"] by blast
    then have "e' = e"
      using assms(2) e find_Some_in [OF e'] by (auto simp: distinct_map dest: inj_onD)
    with e' show ?thesis
      by (simp add: with_mocked_participant_attestations_def with_mocked_lookup_aux [OF assms(2)])
  qed
  have "attested_now env d ?ts (entry_info e)" if "e \<in> set (ps_participants ps)" for e
    using get [OF that] by (simp add: attested_now_def re_verify_def verify_mock_attestation_def)
  moreover have "is_caller_an_attested_participant env ps ?ts = Inr ()"
    if caller: "is_participant_given_account_id ps (signer_account_id env)"
  proof -
    obtain e where e: "List.find (\<lambda>(a_id, _, _). a_id = signer_account_id env) (ps_participants ps) = Some e"
      using caller by (cases "List.find (\<lambda>(a_id, _, _). a_id = signer_account_id env) (ps_participants ps)")
        (auto simp: find_None_iff is_participant_given_account_id_def list_ex_iff)
    then have "e \<in> set (ps_participants ps)" "entry_account e = signer_account_id env"
      using find_Some_in [OF e] by auto
    with e show ?thesis
      using get [of e] by (simp add: is_caller_an_attested_participant_def participants_info_def case_prod_beta)
  qed
  ultimately show ?thesis
    by (simp add: reverify_and_cleanup_eq)
qed

lemma is_caller_attested_Inr:
  assumes "is_caller_an_attested_participant env ps ts = Inr ()"
  shows "\<exists>info na. participants_info ps (signer_account_id env) = Some info
    \<and> bt_get (ts_stored_attestations ts) (pi_sign_pk info) = Some na
    \<and> ni_account_id (na_node_id na) = signer_account_id env
    \<and> ni_account_public_key (na_node_id na) \<in> {None, Some (signer_account_pk env)}"
  using assms
  by (auto simp: is_caller_an_attested_participant_def and_then_eq_Inr ok_or_eq_Inr split: if_splits option.splits)

definition sample_nodes :: participants where
  "sample_nodes = \<lparr>ps_next_id = 2, ps_participants =
     [(''a'', 0, \<lparr>pi_url = ''u'', pi_sign_pk = NearPublicKey (0 # replicate 32 1)\<rparr>),
      (''b'', 1, \<lparr>pi_url = ''v'', pi_sign_pk = NearPublicKey (0 # replicate 32 2)\<rparr>)]\<rparr>"

theorem mocked_attestations_cover_participants_witness:
  "is_caller_an_attested_participant sample_tee_env sample_nodes (with_mocked_participant_attestations sample_nodes)
     = Inr ()"
proof -
  have "participants_wf sample_nodes"
    "distinct (map (\<lambda>e. pi_sign_pk (entry_info e)) (ps_participants sample_nodes))"
    "is_participant_given_account_id sample_nodes (signer_account_id sample_tee_env)"
    by code_simp+
  then show ?thesis
    using mocked_attestations_cover_participants [of sample_nodes sample_tee_env 0] by blast
qed

end
