(* ===== verification/Borsh.thy ===== *)
theory Borsh
  imports Prelude
begin

text \<open>
  The Borsh encoding of the types that the repository derives \<open>BorshSerialize\<close> and
  \<open>BorshDeserialize\<close> for, as the Borsh specification fixes it: integers in little-endian
  order, byte arrays as they are, a vector or a string as its 32-bit length followed by the
  elements, a struct as its fields in order and an enum as one byte for the variant followed
  by its fields.

  The locale \<open>borsh_codec\<close> is the contract between a serialiser and its deserialiser: reading
  back what was written, followed by anything, gives the value and what followed. Injectivity,
  prefix freedom and the codec of vectors are proved once inside it; every encoded type
  interprets it.
\<close>

text \<open>Round trips of the encoded types, for the types built from them.\<close>

named_theorems borsh_roundtrips

section \<open>Reading\<close>

type_synonym 'a reader = "bytes \<Rightarrow> ('a \<times> bytes) option"

definition de_bind :: "'a reader \<Rightarrow> ('a \<Rightarrow> 'b reader) \<Rightarrow> 'b reader" where
  "de_bind d f bs = (case d bs of None \<Rightarrow> None | Some (x, rest) \<Rightarrow> f x rest)"

definition de_return :: "'a \<Rightarrow> 'a reader" where
  "de_return x bs = Some (x, bs)"

definition de_fail :: "'a reader" where
  "de_fail bs = None"

lemma de_bind_Some [simp]: "d bs = Some (x, rest) \<Longrightarrow> de_bind d f bs = f x rest"
  by (simp add: de_bind_def)

lemma de_return_apply [simp]: "de_return x bs = Some (x, bs)"
  by (simp add: de_return_def)

section \<open>The contract of a codec\<close>

fun de_times :: "nat \<Rightarrow> 'a reader \<Rightarrow> 'a list reader" where
  "de_times 0 d = de_return []"
| "de_times (Suc n) d = de_bind d (\<lambda>x. de_bind (de_times n d) (\<lambda>xs. de_return (x # xs)))"

definition le_bytes :: "nat \<Rightarrow> int \<Rightarrow> bytes" where
  "le_bytes k n = map (\<lambda>i. of_int (n div 256 ^ i)) [0 ..< k]"

definition le_value :: "bytes \<Rightarrow> int" where
  "le_value bs = foldr (\<lambda>b n. uint b + 256 * n) bs 0"

definition de_fixed :: "nat \<Rightarrow> bytes reader" where
  "de_fixed k bs = (if k \<le> length bs then Some (take k bs, drop k bs) else None)"

definition ser_u32 :: "u32 \<Rightarrow> bytes" where
  "ser_u32 x = le_bytes 4 (uint x)"

definition de_u32 :: "u32 reader" where
  "de_u32 = de_bind (de_fixed 4) (\<lambda>bs. de_return (of_int (le_value bs)))"

definition ser_vec :: "('a \<Rightarrow> bytes) \<Rightarrow> 'a list \<Rightarrow> bytes" where
  "ser_vec ser xs = ser_u32 (of_nat (length xs)) @ concat (map ser xs)"

definition de_vec :: "'a reader \<Rightarrow> 'a list reader" where
  "de_vec d = de_bind de_u32 (\<lambda>n. de_times (unat n) d)"

definition ok_vec :: "('a \<Rightarrow> bool) \<Rightarrow> 'a list \<Rightarrow> bool" where
  "ok_vec ok xs \<longleftrightarrow> length xs < 2 ^ 32 \<and> (\<forall>x \<in> set xs. ok x)"

lemma length_le_bytes [simp]: "length (le_bytes k n) = k"
  by (simp add: le_bytes_def)

lemma uint_of_int_u8: "uint (of_int k :: u8) = k mod 256"
  by (simp add: uint_word_of_int)

lemma le_value_digits:
  "foldr (\<lambda>b n. uint b + 256 * n) (map (\<lambda>i. of_int (n div 256 ^ i) :: u8) [j ..< j + k]) (n div 256 ^ (j + k))
    = n div 256 ^ j"
proof (induction k)
  case (Suc k)
  have "n div 256 ^ Suc (j + k) = n div (256 ^ (j + k) * 256)"
    by (simp add: mult.commute)
  also have "\<dots> = n div 256 ^ (j + k) div 256"
    by (rule zdiv_zmult2_eq) simp
  finally have "n div 256 ^ (j + k) mod 256 + 256 * (n div 256 ^ Suc (j + k)) = n div 256 ^ (j + k)"
    by simp
  then show ?case
    using Suc.IH by (simp add: uint_of_int_u8 del: power_Suc)
qed simp

lemma le_value_le_bytes:
  assumes "0 \<le> n" "n < 256 ^ k"
  shows "le_value (le_bytes k n) = n"
proof -
  have "n div 256 ^ k = 0"
    using assms by (rule div_pos_pos_trivial)
  then show ?thesis
    using le_value_digits [of n 0 k] by (simp add: le_value_def le_bytes_def)
qed

lemma de_fixed_append [simp]: "length xs = k \<Longrightarrow> de_fixed k (xs @ rest) = Some (xs, rest)"
  by (simp add: de_fixed_def)

lemma u32_roundtrip [borsh_roundtrips]: "de_u32 (ser_u32 x @ rest) = Some (x, rest)"
proof -
  have "uint x < 256 ^ 4"
    using uint_bounded [of x] by simp
  then have "le_value (le_bytes 4 (uint x)) = uint x"
    by (intro le_value_le_bytes) simp_all
  then show ?thesis
    by (simp add: de_u32_def ser_u32_def)
qed

locale borsh_codec =
  fixes ser :: "'a \<Rightarrow> bytes" and de :: "'a reader" and ok :: "'a \<Rightarrow> bool"
  assumes roundtrip: "ok x \<Longrightarrow> de (ser x @ rest) = Some (x, rest)"
begin

lemma prefix_free: "ok x \<Longrightarrow> ok y \<Longrightarrow> ser x @ r = ser y @ s \<Longrightarrow> x = y \<and> r = s"
  by (metis roundtrip option.inject prod.inject)

lemma injective: "ok x \<Longrightarrow> ok y \<Longrightarrow> ser x = ser y \<Longrightarrow> x = y"
  using prefix_free [of x y "[]" "[]"] by simp

lemma times_roundtrip:
  "\<forall>x \<in> set xs. ok x \<Longrightarrow> de_times (length xs) de (concat (map ser xs) @ rest) = Some (xs, rest)"
  by (induction xs) (simp_all add: roundtrip)

lemma vec_roundtrip: "ok_vec ok xs \<Longrightarrow> de_vec de (ser_vec ser xs @ rest) = Some (xs, rest)"
  by (simp add: ok_vec_def ser_vec_def de_vec_def u32_roundtrip times_roundtrip unat_of_nat)

end

section \<open>Primitive types\<close>

definition ser_u64 :: "u64 \<Rightarrow> bytes" where
  "ser_u64 x = le_bytes 8 (uint x)"

definition de_u64 :: "u64 reader" where
  "de_u64 = de_bind (de_fixed 8) (\<lambda>bs. de_return (of_int (le_value bs)))"

definition de_u8 :: "u8 reader" where
  "de_u8 bs = (case bs of [] \<Rightarrow> None | b # rest \<Rightarrow> Some (b, rest))"

definition ser_bool :: "bool \<Rightarrow> bytes" where
  "ser_bool b = [if b then 1 else 0]"

definition de_bool :: "bool reader" where
  "de_bool = de_bind de_u8 (\<lambda>b. if b = 1 then de_return True else if b = 0 then de_return False else de_fail)"

text \<open>A string is the vector of its bytes.\<close>

definition ser_string :: "string \<Rightarrow> bytes" where
  "ser_string s = ser_vec (\<lambda>b. [b]) (map (\<lambda>c. of_nat (of_char c)) s)"

definition de_string :: "string reader" where
  "de_string = de_bind (de_vec de_u8) (\<lambda>bs. de_return (map (\<lambda>b. char_of (unat b)) bs))"

lemma de_u8_Cons [simp]: "de_u8 (b # rest) = Some (b, rest)"
  by (simp add: de_u8_def)

lemma u64_roundtrip [borsh_roundtrips]: "de_u64 (ser_u64 x @ rest) = Some (x, rest)"
proof -
  have "uint x < 256 ^ 8"
    using uint_bounded [of x] by simp
  then have "le_value (le_bytes 8 (uint x)) = uint x"
    by (intro le_value_le_bytes) simp_all
  then show ?thesis
    by (simp add: de_u64_def ser_u64_def)
qed

lemma bool_roundtrip [borsh_roundtrips]: "de_bool (ser_bool b @ rest) = Some (b, rest)"
  by (simp add: de_bool_def ser_bool_def)

interpretation borsh_u32: borsh_codec ser_u32 de_u32 "\<lambda>_. True"
  by unfold_locales (rule u32_roundtrip)

interpretation borsh_u64: borsh_codec ser_u64 de_u64 "\<lambda>_. True"
  by unfold_locales (rule u64_roundtrip)

interpretation borsh_bool: borsh_codec ser_bool de_bool "\<lambda>_. True"
  by unfold_locales (rule bool_roundtrip)

interpretation borsh_u8: borsh_codec "\<lambda>b. [b]" de_u8 "\<lambda>_. True"
  by unfold_locales simp

lemma char_of_of_char_u8: "char_of (unat (of_nat (of_char c) :: u8)) = c"
  by (simp add: unat_of_nat nat_of_char_less_256)

lemma string_roundtrip [borsh_roundtrips]:
  "length s < 2 ^ 32 \<Longrightarrow> de_string (ser_string s @ rest) = Some (s, rest)"
  using borsh_u8.vec_roundtrip [of "map (\<lambda>c. of_nat (of_char c)) s" rest]
  by (simp add: ok_vec_def ser_string_def de_string_def char_of_of_char_u8 o_def)

end
