(* ===== verification/Foreign_Chain.thy ===== *)
theory Foreign_Chain
  imports Errors Borsh
begin

text \<open>
  \<open>crates/contract-interface/src/types/foreign_chain.rs\<close>: requests to verify a transaction of
  a foreign chain, the values extracted from it, the policy of the chains that may be
  requested, and the payload the network signs. The signed hash is the SHA-256 of the Borsh
  encoding of the payload; the codecs below show that the encoding determines the payload, so
  that a signature is for one request and one list of values only.
\<close>

section \<open>Requests, values and policy\<close>

datatype evm_finality = EvmLatest | EvmSafe | EvmFinalized

datatype solana_finality = SolanaProcessed | SolanaConfirmed | SolanaFinalized

datatype starknet_finality = AcceptedOnL2 | AcceptedOnL1

datatype evm_extractor = EvmBlockHash | EvmLogAt u64

record evm_log =
  el_removed :: bool
  el_log_index :: u64
  el_transaction_index :: u64
  el_transaction_hash :: bytes
  el_block_hash :: bytes
  el_block_number :: u64
  el_address :: bytes
  el_data :: string
  el_topics :: "bytes list"

datatype solana_extractor = SolanaProgramIdIndex u32 | SolanaDataHash u32

datatype bitcoin_extractor = BitcoinBlockHash

datatype starknet_extractor = StarknetBlockHash | StarknetLogAt u64

record starknet_log =
  sl_block_hash :: bytes
  sl_block_number :: u64
  sl_data :: "bytes list"
  sl_from_address :: bytes
  sl_keys :: "bytes list"

datatype evm_extracted_value = EvmBlockHashValue bytes | EvmLogValue evm_log

datatype bitcoin_extracted_value = BitcoinBlockHashValue bytes

datatype starknet_extracted_value = StarknetBlockHashValue bytes | StarknetLogValue starknet_log

datatype extracted_value =
    BitcoinExtractedValue bitcoin_extracted_value
  | EvmExtractedValue evm_extracted_value
  | StarknetExtractedValue starknet_extracted_value

record evm_rpc_request =
  evm_tx_id :: bytes
  evm_extractors :: "evm_extractor list"
  evm_finality :: evm_finality

record solana_rpc_request =
  sol_tx_id :: bytes
  sol_finality :: solana_finality
  sol_extractors :: "solana_extractor list"

record bitcoin_rpc_request =
  btc_tx_id :: bytes
  btc_confirmations :: u64
  btc_extractors :: "bitcoin_extractor list"

record starknet_rpc_request =
  stk_tx_id :: bytes
  stk_finality :: starknet_finality
  stk_extractors :: "starknet_extractor list"

datatype foreign_chain_rpc_request =
    AbstractRequest evm_rpc_request
  | EthereumRequest evm_rpc_request
  | SolanaRequest solana_rpc_request
  | BitcoinRequest bitcoin_rpc_request
  | StarknetRequest starknet_rpc_request

definition request_chain :: "foreign_chain_rpc_request \<Rightarrow> foreign_chain" where
  "request_chain r =
     (case r of
        AbstractRequest _ \<Rightarrow> Abstract
      | EthereumRequest _ \<Rightarrow> Ethereum
      | SolanaRequest _ \<Rightarrow> Solana
      | BitcoinRequest _ \<Rightarrow> Bitcoin
      | StarknetRequest _ \<Rightarrow> Starknet)"

datatype foreign_tx_payload_version = PayloadVersionV1

record verify_foreign_tx_request =
  vf_request :: foreign_chain_rpc_request
  vf_domain_id :: domain_id
  vf_payload_version :: foreign_tx_payload_version

record foreign_tx_sign_payload_v1 =
  fp_request :: foreign_chain_rpc_request
  fp_values :: "extracted_value list"

datatype foreign_tx_sign_payload = PayloadV1 foreign_tx_sign_payload_v1

record rpc_provider =
  rp_rpc_url :: string

text \<open>
  A policy maps chains to non-empty sets of providers; the \<open>BTreeMap\<close> is looked up and compared
  as a whole only, so it is a map.
\<close>

record foreign_chain_policy =
  fcp_chains :: "foreign_chain \<rightharpoonup> rpc_provider set"

definition foreign_chain_policy_default :: foreign_chain_policy where
  "foreign_chain_policy_default = \<lparr>fcp_chains = Map.empty\<rparr>"

text \<open>The chains are finitely many, so that policies are compared by evaluation.\<close>

instantiation foreign_chain :: enum
begin

definition enum_foreign_chain :: "foreign_chain list" where
  "enum_foreign_chain = [Solana, Bitcoin, Ethereum, Base, Bnb, Arbitrum, Abstract, Starknet]"

definition enum_all_foreign_chain :: "(foreign_chain \<Rightarrow> bool) \<Rightarrow> bool" where
  "enum_all_foreign_chain P \<longleftrightarrow> list_all P enum_class.enum"

definition enum_ex_foreign_chain :: "(foreign_chain \<Rightarrow> bool) \<Rightarrow> bool" where
  "enum_ex_foreign_chain P \<longleftrightarrow> list_ex P enum_class.enum"

instance
proof
  have all: "c \<in> set enum_class.enum" for c :: foreign_chain
    by (cases c) (simp_all add: enum_foreign_chain_def)
  then show "(UNIV :: foreign_chain set) = set enum_class.enum"
    by blast
  show "distinct (enum_class.enum :: foreign_chain list)"
    by (simp add: enum_foreign_chain_def)
  show "enum_class.enum_all P = Ball UNIV P" "enum_class.enum_ex P = Bex UNIV P" for P :: "foreign_chain \<Rightarrow> bool"
    using all by (auto simp: enum_all_foreign_chain_def enum_ex_foreign_chain_def list_all_iff list_ex_iff)
qed

end

section \<open>The Borsh encoding of a payload\<close>

text \<open>A fixed-size byte array is written without a length.\<close>

definition ok_bytes :: "nat \<Rightarrow> bytes \<Rightarrow> bool" where
  "ok_bytes n bs \<longleftrightarrow> length bs = n"

interpretation borsh_bytes: borsh_codec "\<lambda>bs. bs" "de_fixed n" "ok_bytes n" for n
  by unfold_locales (simp add: ok_bytes_def)

lemmas bytes_roundtrip [borsh_roundtrips] = borsh_bytes.roundtrip
lemmas bytes_vec_roundtrip [borsh_roundtrips] = borsh_bytes.vec_roundtrip

definition ser_evm_finality :: "evm_finality \<Rightarrow> bytes" where
  "ser_evm_finality x = (case x of
      EvmLatest \<Rightarrow> [0]
   | EvmSafe \<Rightarrow> [1]
   | EvmFinalized \<Rightarrow> [2])"

definition de_evm_finality :: "evm_finality reader" where
  "de_evm_finality = de_bind de_u8 (\<lambda>tag.
     if tag = 0 then de_return EvmLatest
     else if tag = 1 then de_return EvmSafe
     else if tag = 2 then de_return EvmFinalized
     else de_fail)"

interpretation borsh_evm_finality: borsh_codec ser_evm_finality de_evm_finality "\<lambda>_. True"
  by unfold_locales (simp add: ser_evm_finality_def de_evm_finality_def borsh_roundtrips split: evm_finality.splits)

lemmas evm_finality_roundtrip [borsh_roundtrips] = borsh_evm_finality.roundtrip [OF TrueI]

definition ser_solana_finality :: "solana_finality \<Rightarrow> bytes" where
  "ser_solana_finality x = (case x of
      SolanaProcessed \<Rightarrow> [0]
   | SolanaConfirmed \<Rightarrow> [1]
   | SolanaFinalized \<Rightarrow> [2])"

definition de_solana_finality :: "solana_finality reader" where
  "de_solana_finality = de_bind de_u8 (\<lambda>tag.
     if tag = 0 then de_return SolanaProcessed
     else if tag = 1 then de_return SolanaConfirmed
     else if tag = 2 then de_return SolanaFinalized
     else de_fail)"

interpretation borsh_solana_finality: borsh_codec ser_solana_finality de_solana_finality "\<lambda>_. True"
  by unfold_locales (simp add: ser_solana_finality_def de_solana_finality_def borsh_roundtrips split: solana_finality.splits)

lemmas solana_finality_roundtrip [borsh_roundtrips] = borsh_solana_finality.roundtrip [OF TrueI]

definition ser_starknet_finality :: "starknet_finality \<Rightarrow> bytes" where
  "ser_starknet_finality x = (case x of
      AcceptedOnL2 \<Rightarrow> [0]
   | AcceptedOnL1 \<Rightarrow> [1])"

definition de_starknet_finality :: "starknet_finality reader" where
  "de_starknet_finality = de_bind de_u8 (\<lambda>tag.
     if tag = 0 then de_return AcceptedOnL2
     else if tag = 1 then de_return AcceptedOnL1
     else de_fail)"

interpretation borsh_starknet_finality: borsh_codec ser_starknet_finality de_starknet_finality "\<lambda>_. True"
  by unfold_locales (simp add: ser_starknet_finality_def de_starknet_finality_def borsh_roundtrips split: starknet_finality.splits)

lemmas starknet_finality_roundtrip [borsh_roundtrips] = borsh_starknet_finality.roundtrip [OF TrueI]

definition ser_evm_extractor :: "evm_extractor \<Rightarrow> bytes" where
  "ser_evm_extractor x = (case x of
      EvmBlockHash \<Rightarrow> [0]
   | EvmLogAt y \<Rightarrow> 1 # ser_u64 y)"

definition de_evm_extractor :: "evm_extractor reader" where
  "de_evm_extractor = de_bind de_u8 (\<lambda>tag.
     if tag = 0 then de_return EvmBlockHash
     else if tag = 1 then de_bind de_u64 (\<lambda>y. de_return (EvmLogAt y))
     else de_fail)"

interpretation borsh_evm_extractor: borsh_codec ser_evm_extractor de_evm_extractor "\<lambda>_. True"
  by unfold_locales (simp add: ser_evm_extractor_def de_evm_extractor_def borsh_roundtrips split: evm_extractor.splits)

lemmas evm_extractor_roundtrip [borsh_roundtrips] = borsh_evm_extractor.roundtrip [OF TrueI]
lemmas evm_extractor_vec_roundtrip [borsh_roundtrips] = borsh_evm_extractor.vec_roundtrip

definition ser_solana_extractor :: "solana_extractor \<Rightarrow> bytes" where
  "ser_solana_extractor x = (case x of
      SolanaProgramIdIndex y \<Rightarrow> 0 # ser_u32 y
   | SolanaDataHash y \<Rightarrow> 1 # ser_u32 y)"

definition de_solana_extractor :: "solana_extractor reader" where
  "de_solana_extractor = de_bind de_u8 (\<lambda>tag.
     if tag = 0 then de_bind de_u32 (\<lambda>y. de_return (SolanaProgramIdIndex y))
     else if tag = 1 then de_bind de_u32 (\<lambda>y. de_return (SolanaDataHash y))
     else de_fail)"

interpretation borsh_solana_extractor: borsh_codec ser_solana_extractor de_solana_extractor "\<lambda>_. True"
  by unfold_locales (simp add: ser_solana_extractor_def de_solana_extractor_def borsh_roundtrips split: solana_extractor.splits)

lemmas solana_extractor_roundtrip [borsh_roundtrips] = borsh_solana_extractor.roundtrip [OF TrueI]
lemmas solana_extractor_vec_roundtrip [borsh_roundtrips] = borsh_solana_extractor.vec_roundtrip

definition ser_bitcoin_extractor :: "bitcoin_extractor \<Rightarrow> bytes" where
  "ser_bitcoin_extractor x = (case x of
      BitcoinBlockHash \<Rightarrow> [0])"

definition de_bitcoin_extractor :: "bitcoin_extractor reader" where
  "de_bitcoin_extractor = de_bind de_u8 (\<lambda>tag.
     if tag = 0 then de_return BitcoinBlockHash
     else de_fail)"

interpretation borsh_bitcoin_extractor: borsh_codec ser_bitcoin_extractor de_bitcoin_extractor "\<lambda>_. True"
  by unfold_locales (simp add: ser_bitcoin_extractor_def de_bitcoin_extractor_def borsh_roundtrips split: bitcoin_extractor.splits)

lemmas bitcoin_extractor_roundtrip [borsh_roundtrips] = borsh_bitcoin_extractor.roundtrip [OF TrueI]
lemmas bitcoin_extractor_vec_roundtrip [borsh_roundtrips] = borsh_bitcoin_extractor.vec_roundtrip

definition ser_starknet_extractor :: "starknet_extractor \<Rightarrow> bytes" where
  "ser_starknet_extractor x = (case x of
      StarknetBlockHash \<Rightarrow> [0]
   | StarknetLogAt y \<Rightarrow> 1 # ser_u64 y)"

definition de_starknet_extractor :: "starknet_extractor reader" where
  "de_starknet_extractor = de_bind de_u8 (\<lambda>tag.
     if tag = 0 then de_return StarknetBlockHash
     else if tag = 1 then de_bind de_u64 (\<lambda>y. de_return (StarknetLogAt y))
     else de_fail)"

interpretation borsh_starknet_extractor: borsh_codec ser_starknet_extractor de_starknet_extractor "\<lambda>_. True"
  by unfold_locales (simp add: ser_starknet_extractor_def de_starknet_extractor_def borsh_roundtrips split: starknet_extractor.splits)

lemmas starknet_extractor_roundtrip [borsh_roundtrips] = borsh_starknet_extractor.roundtrip [OF TrueI]
lemmas starknet_extractor_vec_roundtrip [borsh_roundtrips] = borsh_starknet_extractor.vec_roundtrip

definition ser_evm_log :: "evm_log \<Rightarrow> bytes" where
  "ser_evm_log x =
     ser_bool (el_removed x) @ ser_u64 (el_log_index x) @ ser_u64 (el_transaction_index x) @ el_transaction_hash x @ el_block_hash x @ ser_u64 (el_block_number x) @ el_address x @ ser_string (el_data x) @ ser_vec (\<lambda>bs. bs) (el_topics x)"

definition de_evm_log :: "evm_log reader" where
  "de_evm_log =
     de_bind de_bool (\<lambda>f0.
     de_bind de_u64 (\<lambda>f1.
     de_bind de_u64 (\<lambda>f2.
     de_bind (de_fixed 32) (\<lambda>f3.
     de_bind (de_fixed 32) (\<lambda>f4.
     de_bind de_u64 (\<lambda>f5.
     de_bind (de_fixed 20) (\<lambda>f6.
     de_bind de_string (\<lambda>f7.
     de_bind (de_vec (de_fixed 32)) (\<lambda>f8.
     de_return \<lparr>el_removed = f0, el_log_index = f1, el_transaction_index = f2, el_transaction_hash = f3, el_block_hash = f4, el_block_number = f5, el_address = f6, el_data = f7, el_topics = f8\<rparr>)))))))))"

definition ok_evm_log :: "evm_log \<Rightarrow> bool" where
  "ok_evm_log x \<longleftrightarrow> ok_bytes 32 (el_transaction_hash x) \<and> ok_bytes 32 (el_block_hash x) \<and> ok_bytes 20 (el_address x) \<and> length (el_data x) < 2 ^ 32 \<and> ok_vec (ok_bytes 32) (el_topics x)"

interpretation borsh_evm_log: borsh_codec ser_evm_log de_evm_log ok_evm_log
  by unfold_locales (simp add: ser_evm_log_def de_evm_log_def ok_evm_log_def borsh_roundtrips)

lemmas evm_log_roundtrip [borsh_roundtrips] = borsh_evm_log.roundtrip

definition ser_starknet_log :: "starknet_log \<Rightarrow> bytes" where
  "ser_starknet_log x =
     sl_block_hash x @ ser_u64 (sl_block_number x) @ ser_vec (\<lambda>bs. bs) (sl_data x) @ sl_from_address x @ ser_vec (\<lambda>bs. bs) (sl_keys x)"

definition de_starknet_log :: "starknet_log reader" where
  "de_starknet_log =
     de_bind (de_fixed 32) (\<lambda>f0.
     de_bind de_u64 (\<lambda>f1.
     de_bind (de_vec (de_fixed 32)) (\<lambda>f2.
     de_bind (de_fixed 32) (\<lambda>f3.
     de_bind (de_vec (de_fixed 32)) (\<lambda>f4.
     de_return \<lparr>sl_block_hash = f0, sl_block_number = f1, sl_data = f2, sl_from_address = f3, sl_keys = f4\<rparr>)))))"

definition ok_starknet_log :: "starknet_log \<Rightarrow> bool" where
  "ok_starknet_log x \<longleftrightarrow> ok_bytes 32 (sl_block_hash x) \<and> ok_vec (ok_bytes 32) (sl_data x) \<and> ok_bytes 32 (sl_from_address x) \<and> ok_vec (ok_bytes 32) (sl_keys x)"

interpretation borsh_starknet_log: borsh_codec ser_starknet_log de_starknet_log ok_starknet_log
  by unfold_locales (simp add: ser_starknet_log_def de_starknet_log_def ok_starknet_log_def borsh_roundtrips)

lemmas starknet_log_roundtrip [borsh_roundtrips] = borsh_starknet_log.roundtrip

definition ser_evm_extracted_value :: "evm_extracted_value \<Rightarrow> bytes" where
  "ser_evm_extracted_value x = (case x of
      EvmBlockHashValue y \<Rightarrow> 0 # (\<lambda>bs. bs) y
   | EvmLogValue y \<Rightarrow> 1 # ser_evm_log y)"

definition de_evm_extracted_value :: "evm_extracted_value reader" where
  "de_evm_extracted_value = de_bind de_u8 (\<lambda>tag.
     if tag = 0 then de_bind (de_fixed 32) (\<lambda>y. de_return (EvmBlockHashValue y))
     else if tag = 1 then de_bind de_evm_log (\<lambda>y. de_return (EvmLogValue y))
     else de_fail)"

definition ok_evm_extracted_value :: "evm_extracted_value \<Rightarrow> bool" where
  "ok_evm_extracted_value x \<longleftrightarrow> (case x of EvmBlockHashValue y \<Rightarrow> ok_bytes 32 y | EvmLogValue y \<Rightarrow> ok_evm_log y)"

interpretation borsh_evm_extracted_value: borsh_codec ser_evm_extracted_value de_evm_extracted_value ok_evm_extracted_value
  by unfold_locales (simp add: ser_evm_extracted_value_def de_evm_extracted_value_def ok_evm_extracted_value_def borsh_roundtrips split: evm_extracted_value.splits)

lemmas evm_extracted_value_roundtrip [borsh_roundtrips] = borsh_evm_extracted_value.roundtrip

definition ser_bitcoin_extracted_value :: "bitcoin_extracted_value \<Rightarrow> bytes" where
  "ser_bitcoin_extracted_value x = (case x of
      BitcoinBlockHashValue y \<Rightarrow> 0 # (\<lambda>bs. bs) y)"

definition de_bitcoin_extracted_value :: "bitcoin_extracted_value reader" where
  "de_bitcoin_extracted_value = de_bind de_u8 (\<lambda>tag.
     if tag = 0 then de_bind (de_fixed 32) (\<lambda>y. de_return (BitcoinBlockHashValue y))
     else de_fail)"

definition ok_bitcoin_extracted_value :: "bitcoin_extracted_value \<Rightarrow> bool" where
  "ok_bitcoin_extracted_value x \<longleftrightarrow> (case x of BitcoinBlockHashValue y \<Rightarrow> ok_bytes 32 y)"

interpretation borsh_bitcoin_extracted_value: borsh_codec ser_bitcoin_extracted_value de_bitcoin_extracted_value ok_bitcoin_extracted_value
  by unfold_locales (simp add: ser_bitcoin_extracted_value_def de_bitcoin_extracted_value_def ok_bitcoin_extracted_value_def borsh_roundtrips split: bitcoin_extracted_value.splits)

lemmas bitcoin_extracted_value_roundtrip [borsh_roundtrips] = borsh_bitcoin_extracted_value.roundtrip

definition ser_starknet_extracted_value :: "starknet_extracted_value \<Rightarrow> bytes" where
  "ser_starknet_extracted_value x = (case x of
      StarknetBlockHashValue y \<Rightarrow> 0 # (\<lambda>bs. bs) y
   | StarknetLogValue y \<Rightarrow> 1 # ser_starknet_log y)"

definition de_starknet_extracted_value :: "starknet_extracted_value reader" where
  "de_starknet_extracted_value = de_bind de_u8 (\<lambda>tag.
     if tag = 0 then de_bind (de_fixed 32) (\<lambda>y. de_return (StarknetBlockHashValue y))
     else if tag = 1 then de_bind de_starknet_log (\<lambda>y. de_return (StarknetLogValue y))
     else de_fail)"

definition ok_starknet_extracted_value :: "starknet_extracted_value \<Rightarrow> bool" where
  "ok_starknet_extracted_value x \<longleftrightarrow> (case x of StarknetBlockHashValue y \<Rightarrow> ok_bytes 32 y | StarknetLogValue y \<Rightarrow> ok_starknet_log y)"

interpretation borsh_starknet_extracted_value: borsh_codec ser_starknet_extracted_value de_starknet_extracted_value ok_starknet_extracted_value
  by unfold_locales (simp add: ser_starknet_extracted_value_def de_starknet_extracted_value_def ok_starknet_extracted_value_def borsh_roundtrips split: starknet_extracted_value.splits)

lemmas starknet_extracted_value_roundtrip [borsh_roundtrips] = borsh_starknet_extracted_value.roundtrip

definition ser_extracted_value :: "extracted_value \<Rightarrow> bytes" where
  "ser_extracted_value x = (case x of
      BitcoinExtractedValue y \<Rightarrow> 0 # ser_bitcoin_extracted_value y
   | EvmExtractedValue y \<Rightarrow> 1 # ser_evm_extracted_value y
   | StarknetExtractedValue y \<Rightarrow> 2 # ser_starknet_extracted_value y)"

definition de_extracted_value :: "extracted_value reader" where
  "de_extracted_value = de_bind de_u8 (\<lambda>tag.
     if tag = 0 then de_bind de_bitcoin_extracted_value (\<lambda>y. de_return (BitcoinExtractedValue y))
     else if tag = 1 then de_bind de_evm_extracted_value (\<lambda>y. de_return (EvmExtractedValue y))
     else if tag = 2 then de_bind de_starknet_extracted_value (\<lambda>y. de_return (StarknetExtractedValue y))
     else de_fail)"

definition ok_extracted_value :: "extracted_value \<Rightarrow> bool" where
  "ok_extracted_value x \<longleftrightarrow> (case x of BitcoinExtractedValue y \<Rightarrow> ok_bitcoin_extracted_value y | EvmExtractedValue y \<Rightarrow> ok_evm_extracted_value y | StarknetExtractedValue y \<Rightarrow> ok_starknet_extracted_value y)"

interpretation borsh_extracted_value: borsh_codec ser_extracted_value de_extracted_value ok_extracted_value
  by unfold_locales (simp add: ser_extracted_value_def de_extracted_value_def ok_extracted_value_def borsh_roundtrips split: extracted_value.splits)

lemmas extracted_value_roundtrip [borsh_roundtrips] = borsh_extracted_value.roundtrip
lemmas extracted_value_vec_roundtrip [borsh_roundtrips] = borsh_extracted_value.vec_roundtrip

definition ser_evm_rpc_request :: "evm_rpc_request \<Rightarrow> bytes" where
  "ser_evm_rpc_request x =
     evm_tx_id x @ ser_vec ser_evm_extractor (evm_extractors x) @ ser_evm_finality (evm_finality x)"

definition de_evm_rpc_request :: "evm_rpc_request reader" where
  "de_evm_rpc_request =
     de_bind (de_fixed 32) (\<lambda>f0.
     de_bind (de_vec de_evm_extractor) (\<lambda>f1.
     de_bind de_evm_finality (\<lambda>f2.
     de_return \<lparr>evm_tx_id = f0, evm_extractors = f1, evm_finality = f2\<rparr>)))"

definition ok_evm_rpc_request :: "evm_rpc_request \<Rightarrow> bool" where
  "ok_evm_rpc_request x \<longleftrightarrow> ok_bytes 32 (evm_tx_id x) \<and> ok_vec (\<lambda>_. True) (evm_extractors x)"

interpretation borsh_evm_rpc_request: borsh_codec ser_evm_rpc_request de_evm_rpc_request ok_evm_rpc_request
  by unfold_locales (simp add: ser_evm_rpc_request_def de_evm_rpc_request_def ok_evm_rpc_request_def borsh_roundtrips)

lemmas evm_rpc_request_roundtrip [borsh_roundtrips] = borsh_evm_rpc_request.roundtrip

definition ser_solana_rpc_request :: "solana_rpc_request \<Rightarrow> bytes" where
  "ser_solana_rpc_request x =
     sol_tx_id x @ ser_solana_finality (sol_finality x) @ ser_vec ser_solana_extractor (sol_extractors x)"

definition de_solana_rpc_request :: "solana_rpc_request reader" where
  "de_solana_rpc_request =
     de_bind (de_fixed 64) (\<lambda>f0.
     de_bind de_solana_finality (\<lambda>f1.
     de_bind (de_vec de_solana_extractor) (\<lambda>f2.
     de_return \<lparr>sol_tx_id = f0, sol_finality = f1, sol_extractors = f2\<rparr>)))"

definition ok_solana_rpc_request :: "solana_rpc_request \<Rightarrow> bool" where
  "ok_solana_rpc_request x \<longleftrightarrow> ok_bytes 64 (sol_tx_id x) \<and> ok_vec (\<lambda>_. True) (sol_extractors x)"

interpretation borsh_solana_rpc_request: borsh_codec ser_solana_rpc_request de_solana_rpc_request ok_solana_rpc_request
  by unfold_locales (simp add: ser_solana_rpc_request_def de_solana_rpc_request_def ok_solana_rpc_request_def borsh_roundtrips)

lemmas solana_rpc_request_roundtrip [borsh_roundtrips] = borsh_solana_rpc_request.roundtrip

definition ser_bitcoin_rpc_request :: "bitcoin_rpc_request \<Rightarrow> bytes" where
  "ser_bitcoin_rpc_request x =
     btc_tx_id x @ ser_u64 (btc_confirmations x) @ ser_vec ser_bitcoin_extractor (btc_extractors x)"

definition de_bitcoin_rpc_request :: "bitcoin_rpc_request reader" where
  "de_bitcoin_rpc_request =
     de_bind (de_fixed 32) (\<lambda>f0.
     de_bind de_u64 (\<lambda>f1.
     de_bind (de_vec de_bitcoin_extractor) (\<lambda>f2.
     de_return \<lparr>btc_tx_id = f0, btc_confirmations = f1, btc_extractors = f2\<rparr>)))"

definition ok_bitcoin_rpc_request :: "bitcoin_rpc_request \<Rightarrow> bool" where
  "ok_bitcoin_rpc_request x \<longleftrightarrow> ok_bytes 32 (btc_tx_id x) \<and> ok_vec (\<lambda>_. True) (btc_extractors x)"

interpretation borsh_bitcoin_rpc_request: borsh_codec ser_bitcoin_rpc_request de_bitcoin_rpc_request ok_bitcoin_rpc_request
  by unfold_locales (simp add: ser_bitcoin_rpc_request_def de_bitcoin_rpc_request_def ok_bitcoin_rpc_request_def borsh_roundtrips)

lemmas bitcoin_rpc_request_roundtrip [borsh_roundtrips] = borsh_bitcoin_rpc_request.roundtrip

definition ser_starknet_rpc_request :: "starknet_rpc_request \<Rightarrow> bytes" where
  "ser_starknet_rpc_request x =
     stk_tx_id x @ ser_starknet_finality (stk_finality x) @ ser_vec ser_starknet_extractor (stk_extractors x)"

definition de_starknet_rpc_request :: "starknet_rpc_request reader" where
  "de_starknet_rpc_request =
     de_bind (de_fixed 32) (\<lambda>f0.
     de_bind de_starknet_finality (\<lambda>f1.
     de_bind (de_vec de_starknet_extractor) (\<lambda>f2.
     de_return \<lparr>stk_tx_id = f0, stk_finality = f1, stk_extractors = f2\<rparr>)))"

definition ok_starknet_rpc_request :: "starknet_rpc_request \<Rightarrow> bool" where
  "ok_starknet_rpc_request x \<longleftrightarrow> ok_bytes 32 (stk_tx_id x) \<and> ok_vec (\<lambda>_. True) (stk_extractors x)"

interpretation borsh_starknet_rpc_request: borsh_codec ser_starknet_rpc_request de_starknet_rpc_request ok_starknet_rpc_request
  by unfold_locales (simp add: ser_starknet_rpc_request_def de_starknet_rpc_request_def ok_starknet_rpc_request_def borsh_roundtrips)

lemmas starknet_rpc_request_roundtrip [borsh_roundtrips] = borsh_starknet_rpc_request.roundtrip

definition ser_rpc_request :: "foreign_chain_rpc_request \<Rightarrow> bytes" where
  "ser_rpc_request x = (case x of
      AbstractRequest y \<Rightarrow> 0 # ser_evm_rpc_request y
   | EthereumRequest y \<Rightarrow> 1 # ser_evm_rpc_request y
   | SolanaRequest y \<Rightarrow> 2 # ser_solana_rpc_request y
   | BitcoinRequest y \<Rightarrow> 3 # ser_bitcoin_rpc_request y
   | StarknetRequest y \<Rightarrow> 4 # ser_starknet_rpc_request y)"

definition de_rpc_request :: "foreign_chain_rpc_request reader" where
  "de_rpc_request = de_bind de_u8 (\<lambda>tag.
     if tag = 0 then de_bind de_evm_rpc_request (\<lambda>y. de_return (AbstractRequest y))
     else if tag = 1 then de_bind de_evm_rpc_request (\<lambda>y. de_return (EthereumRequest y))
     else if tag = 2 then de_bind de_solana_rpc_request (\<lambda>y. de_return (SolanaRequest y))
     else if tag = 3 then de_bind de_bitcoin_rpc_request (\<lambda>y. de_return (BitcoinRequest y))
     else if tag = 4 then de_bind de_starknet_rpc_request (\<lambda>y. de_return (StarknetRequest y))
     else de_fail)"

definition ok_rpc_request :: "foreign_chain_rpc_request \<Rightarrow> bool" where
  "ok_rpc_request x \<longleftrightarrow> (case x of AbstractRequest y \<Rightarrow> ok_evm_rpc_request y | EthereumRequest y \<Rightarrow> ok_evm_rpc_request y | SolanaRequest y \<Rightarrow> ok_solana_rpc_request y | BitcoinRequest y \<Rightarrow> ok_bitcoin_rpc_request y | StarknetRequest y \<Rightarrow> ok_starknet_rpc_request y)"

interpretation borsh_rpc_request: borsh_codec ser_rpc_request de_rpc_request ok_rpc_request
  by unfold_locales (simp add: ser_rpc_request_def de_rpc_request_def ok_rpc_request_def borsh_roundtrips split: foreign_chain_rpc_request.splits)

lemmas rpc_request_roundtrip [borsh_roundtrips] = borsh_rpc_request.roundtrip

definition ser_payload_v1 :: "foreign_tx_sign_payload_v1 \<Rightarrow> bytes" where
  "ser_payload_v1 x =
     ser_rpc_request (fp_request x) @ ser_vec ser_extracted_value (fp_values x)"

definition de_payload_v1 :: "foreign_tx_sign_payload_v1 reader" where
  "de_payload_v1 =
     de_bind de_rpc_request (\<lambda>f0.
     de_bind (de_vec de_extracted_value) (\<lambda>f1.
     de_return \<lparr>fp_request = f0, fp_values = f1\<rparr>))"

definition ok_payload_v1 :: "foreign_tx_sign_payload_v1 \<Rightarrow> bool" where
  "ok_payload_v1 x \<longleftrightarrow> ok_rpc_request (fp_request x) \<and> ok_vec ok_extracted_value (fp_values x)"

interpretation borsh_payload_v1: borsh_codec ser_payload_v1 de_payload_v1 ok_payload_v1
  by unfold_locales (simp add: ser_payload_v1_def de_payload_v1_def ok_payload_v1_def borsh_roundtrips)

lemmas payload_v1_roundtrip [borsh_roundtrips] = borsh_payload_v1.roundtrip

definition ser_sign_payload :: "foreign_tx_sign_payload \<Rightarrow> bytes" where
  "ser_sign_payload x = (case x of
      PayloadV1 y \<Rightarrow> 0 # ser_payload_v1 y)"

definition de_sign_payload :: "foreign_tx_sign_payload reader" where
  "de_sign_payload = de_bind de_u8 (\<lambda>tag.
     if tag = 0 then de_bind de_payload_v1 (\<lambda>y. de_return (PayloadV1 y))
     else de_fail)"

definition ok_sign_payload :: "foreign_tx_sign_payload \<Rightarrow> bool" where
  "ok_sign_payload x \<longleftrightarrow> (case x of PayloadV1 y \<Rightarrow> ok_payload_v1 y)"

interpretation borsh_sign_payload: borsh_codec ser_sign_payload de_sign_payload ok_sign_payload
  by unfold_locales (simp add: ser_sign_payload_def de_sign_payload_def ok_sign_payload_def borsh_roundtrips split: foreign_tx_sign_payload.splits)

lemmas sign_payload_roundtrip [borsh_roundtrips] = borsh_sign_payload.roundtrip

definition ser_payload_version :: "foreign_tx_payload_version \<Rightarrow> bytes" where
  "ser_payload_version x = (case x of
      PayloadVersionV1 \<Rightarrow> [1])"

definition de_payload_version :: "foreign_tx_payload_version reader" where
  "de_payload_version = de_bind de_u8 (\<lambda>tag.
     if tag = 1 then de_return PayloadVersionV1
     else de_fail)"

interpretation borsh_payload_version: borsh_codec ser_payload_version de_payload_version "\<lambda>_. True"
  by unfold_locales (simp add: ser_payload_version_def de_payload_version_def borsh_roundtrips split: foreign_tx_payload_version.splits)

lemmas payload_version_roundtrip [borsh_roundtrips] = borsh_payload_version.roundtrip [OF TrueI]

definition compute_msg_hash :: "(bytes \<Rightarrow> bytes) \<Rightarrow> foreign_tx_sign_payload \<Rightarrow> bytes" where
  "compute_msg_hash sha256 p = sha256 (ser_sign_payload p)"

text \<open>
  C25: the signed hash determines what was verified. Reading the Borsh encoding of a payload
  back, whatever follows it, gives the payload, so no encoding is a prefix of another one;
  two different payloads, for any difference in the request or in the extracted values, have
  the same signed hash only if their encodings are a SHA-256 collision.
\<close>

theorem sign_payload_encoding_determines:
  assumes "ok_sign_payload p" "ok_sign_payload q"
  shows "de_sign_payload (ser_sign_payload p @ rest) = Some (p, rest)
    \<and> (ser_sign_payload p @ rest = ser_sign_payload q @ rest' \<longrightarrow> p = q \<and> rest = rest')
    \<and> (p \<noteq> q \<and> compute_msg_hash sha256 p = compute_msg_hash sha256 q \<longrightarrow>
        ser_sign_payload p \<noteq> ser_sign_payload q \<and> sha256 (ser_sign_payload p) = sha256 (ser_sign_payload q))"
  using borsh_sign_payload.roundtrip [OF assms(1)] borsh_sign_payload.prefix_free [OF assms]
    borsh_sign_payload.injective [OF assms]
  by (auto simp: compute_msg_hash_def)

definition sample_payload :: "u64 \<Rightarrow> foreign_tx_sign_payload" where
  "sample_payload i = PayloadV1 \<lparr>fp_request = EthereumRequest \<lparr>evm_tx_id = replicate 32 7,
       evm_extractors = [EvmBlockHash, EvmLogAt i], evm_finality = EvmFinalized\<rparr>,
     fp_values = [EvmExtractedValue (EvmBlockHashValue (replicate 32 3))]\<rparr>"

lemma sample_payload_ok: "ok_sign_payload (sample_payload i)"
  by (simp add: sample_payload_def ok_sign_payload_def ok_payload_v1_def ok_rpc_request_def
      ok_evm_rpc_request_def ok_vec_def ok_bytes_def ok_extracted_value_def ok_evm_extracted_value_def)

theorem sign_payload_encoding_determines_witness:
  "de_sign_payload (ser_sign_payload (sample_payload 1) @ [5]) = Some (sample_payload 1, [5])
   \<and> sample_payload 1 \<noteq> sample_payload 2
   \<and> ser_sign_payload (sample_payload 1) \<noteq> ser_sign_payload (sample_payload 2)"
proof -
  have "sample_payload 1 \<noteq> sample_payload 2"
    by (simp add: sample_payload_def)
  then show ?thesis
    using sign_payload_encoding_determines [OF sample_payload_ok [of 1] sample_payload_ok [of 2], of "[5]" "[5]"] by auto
qed

end
