(* ===== verification/Requests.thy ===== *)
theory Requests
  imports Foreign_Chain Crypto_Keys Domains Attestation
begin

text \<open>
  What users ask the contract for: \<open>crates/contract/src/primitives/signature.rs\<close>,
  \<open>crates/contract/src/primitives/ckd.rs\<close>, the key derivation of
  \<open>crates/contract/src/crypto_shared/kdf.rs\<close>, the checks of signatures in
  \<open>crates/signature-verifier/src/lib.rs\<close>, the conversions of
  \<open>crates/crypto-types/src/conversions/k256.rs\<close> they rest on, and the contract's configuration
  (\<open>crates/contract/src/config.rs\<close>, \<open>crates/contract-interface/src/types/config.rs\<close>).
\<close>

section \<open>Cryptography the contract calls\<close>

text \<open>
  The functions of the crates \<open>k256\<close>, \<open>curve25519-dalek\<close> and \<open>sha3\<close> and of the NEAR host that the
  contract calls, over Edwards points \<open>'pt\<close> and secp256k1 points \<open>'af\<close>; scalars are integers.
\<close>

record ('pt, 'af) curves =
  c_sha3_256 :: "bytes \<Rightarrow> bytes"
  c_decompress :: "bytes \<Rightarrow> 'pt option"
  c_compress :: "'pt \<Rightarrow> bytes"
  c_ed_scalar :: "bytes \<Rightarrow> int"
  c_ed_mul_base :: "int \<Rightarrow> 'pt"
  c_ed_add :: "'pt \<Rightarrow> 'pt \<Rightarrow> 'pt"
  c_k256_scalar :: "bytes \<Rightarrow> int option"
  c_k256_mul_base :: "int \<Rightarrow> 'af"
  c_k256_add :: "'af \<Rightarrow> 'af \<Rightarrow> 'af"
  c_k256_is_identity :: "'af \<Rightarrow> bool"
  c_k256_encode :: "'af \<Rightarrow> bytes"
  c_k256_decode :: "bytes \<Rightarrow> 'af option"
  c_ecrecover :: "bytes \<Rightarrow> bytes \<Rightarrow> u8 \<Rightarrow> bool \<Rightarrow> bytes option"
  c_ed25519_verify :: "bytes \<Rightarrow> bytes \<Rightarrow> bytes \<Rightarrow> bool"

text \<open>\<open>k256::PublicKey\<close> is a point that is not the identity.\<close>

definition k256_public_key_try_from :: "('pt, 'af) curves \<Rightarrow> 'af \<Rightarrow> 'af option" where
  "k256_public_key_try_from C p = (if c_k256_is_identity C p then None else Some p)"

definition secp256k1_from_k256 :: "('pt, 'af) curves \<Rightarrow> 'af \<Rightarrow> crypto_conversion_error failure + bytes" where
  "secp256k1_from_k256 C pk = copy_from_slice 64 (tl (c_k256_encode C pk))"

definition k256_try_from_secp256k1 ::
  "('pt, 'af) curves \<Rightarrow> bytes \<Rightarrow> crypto_conversion_error failure + 'af" where
  "k256_try_from_secp256k1 C dto =
     and_then (copy_from_slice 64 dto) (\<lambda>bs.
     ok_or (c_k256_decode C (4 # bs)) (Failed InvalidPublicKey))"

section \<open>Key derivation\<close>

definition TWEAK_DERIVATION_PREFIX :: string where
  "TWEAK_DERIVATION_PREFIX = ''near-mpc-recovery v0.1.0 epsilon derivation:''"

definition APP_ID_DERIVATION_PREFIX :: string where
  "APP_ID_DERIVATION_PREFIX = ''near-mpc v0.1.0 app_id derivation:''"

definition derivation_path :: "string \<Rightarrow> account_id \<Rightarrow> string \<Rightarrow> string" where
  "derivation_path derivation_prefix predecessor_id path = derivation_prefix @ predecessor_id @ '','' @ path"

definition derive_from_path :: "('pt, 'af) curves \<Rightarrow> string \<Rightarrow> account_id \<Rightarrow> string \<Rightarrow> bytes" where
  "derive_from_path C derivation_prefix predecessor_id path =
     c_sha3_256 C (as_bytes (derivation_path derivation_prefix predecessor_id path))"

definition derive_tweak :: "('pt, 'af) curves \<Rightarrow> account_id \<Rightarrow> string \<Rightarrow> bytes" where
  "derive_tweak C predecessor_id path = derive_from_path C TWEAK_DERIVATION_PREFIX predecessor_id path"

definition derive_app_id :: "('pt, 'af) curves \<Rightarrow> account_id \<Rightarrow> string \<Rightarrow> bytes" where
  "derive_app_id C predecessor_id path = derive_from_path C APP_ID_DERIVATION_PREFIX predecessor_id path"

definition derive_key_secp256k1 ::
  "('pt, 'af) curves \<Rightarrow> 'af \<Rightarrow> bytes \<Rightarrow> unit failure + bytes" where
  "derive_key_secp256k1 C public_key tweak =
     and_then (ok_or (c_k256_scalar C tweak) (Failed ())) (\<lambda>t.
     let derived = c_k256_add C (c_k256_mul_base C t) public_key in
     and_then (ok_or (k256_public_key_try_from C derived) (Failed ())) (\<lambda>pk.
     case secp256k1_from_k256 C pk of Inr bs \<Rightarrow> Inr bs | Inl _ \<Rightarrow> Inl Panic))"

definition derive_public_key_edwards_point_ed25519 :: "('pt, 'af) curves \<Rightarrow> 'pt \<Rightarrow> bytes \<Rightarrow> 'pt" where
  "derive_public_key_edwards_point_ed25519 C public_key_edwards_point tweak =
     c_ed_add C public_key_edwards_point (c_ed_mul_base C (c_ed_scalar C tweak))"

section \<open>Signatures\<close>

record k256_signature =
  sig_big_r :: bytes
  sig_s :: bytes
  sig_recovery_id :: u8

datatype signature_response = SigSecp256k1 k256_signature | SigEd25519 bytes

datatype signature_verification_error =
  SigInvalid | FailedToRecoverSignature | RecoveredPkDoesNotMatchExpectedKey

definition to_ecrecover_bytes :: "k256_signature \<Rightarrow> bytes" where
  "to_ecrecover_bytes sig = tl (sig_big_r sig) @ sig_s sig"

definition verify_ecdsa_signature ::
  "('pt, 'af) curves \<Rightarrow> k256_signature \<Rightarrow> bytes \<Rightarrow> bytes \<Rightarrow> signature_verification_error + unit" where
  "verify_ecdsa_signature C sig message public_key =
     and_then (ok_or (c_ecrecover C message (to_ecrecover_bytes sig) (sig_recovery_id sig) True)
         FailedToRecoverSignature) (\<lambda>recovered.
     if recovered \<noteq> public_key then Inl RecoveredPkDoesNotMatchExpectedKey else Inr ())"

definition verify_eddsa_signature ::
  "('pt, 'af) curves \<Rightarrow> bytes \<Rightarrow> bytes \<Rightarrow> bytes \<Rightarrow> signature_verification_error + unit" where
  "verify_eddsa_signature C signature message public_key =
     (if c_ed25519_verify C signature message public_key then Inr () else Inl SigInvalid)"

section \<open>Requests\<close>

definition ECDSA_PAYLOAD_SIZE_BYTES :: nat where
  "ECDSA_PAYLOAD_SIZE_BYTES = 32"

definition EDDSA_PAYLOAD_SIZE_LOWER_BOUND_BYTES :: nat where
  "EDDSA_PAYLOAD_SIZE_LOWER_BOUND_BYTES = 32"

definition EDDSA_PAYLOAD_SIZE_UPPER_BOUND_BYTES :: nat where
  "EDDSA_PAYLOAD_SIZE_UPPER_BOUND_BYTES = 1232"

datatype payload = Ecdsa bytes | Eddsa bytes

definition bytes_new :: "nat \<Rightarrow> nat \<Rightarrow> bytes \<Rightarrow> bytes result" where
  "bytes_new min_len max_len bs =
     (if length bs < min_len \<or> max_len < length bs then Inl (ParamsErr MalformedPayload) else Inr bs)"

definition as_fixed_bytes :: "nat \<Rightarrow> bytes \<Rightarrow> bytes result" where
  "as_fixed_bytes n bs = (if length bs = n then Inr bs else Inl Panicked)"

definition from_legacy_ecdsa :: "bytes \<Rightarrow> payload result" where
  "from_legacy_ecdsa bs =
     (case bytes_new ECDSA_PAYLOAD_SIZE_BYTES ECDSA_PAYLOAD_SIZE_BYTES bs of
        Inr b \<Rightarrow> Inr (Ecdsa b) | Inl _ \<Rightarrow> Inl Panicked)"

definition as_ecdsa :: "payload \<Rightarrow> bytes option result" where
  "as_ecdsa p =
     (case p of Ecdsa bs \<Rightarrow> and_then (as_fixed_bytes ECDSA_PAYLOAD_SIZE_BYTES bs) (\<lambda>b. Inr (Some b))
      | Eddsa _ \<Rightarrow> Inr None)"

definition as_eddsa :: "payload \<Rightarrow> bytes option" where
  "as_eddsa p = (case p of Eddsa bs \<Rightarrow> Some bs | Ecdsa _ \<Rightarrow> None)"

text \<open>\<open>Bytes::deserialize\<close>: a hex string, then the length check.\<close>

definition bytes_deserialize :: "'col host \<Rightarrow> nat \<Rightarrow> nat \<Rightarrow> string \<Rightarrow> bytes option" where
  "bytes_deserialize h min_len max_len s =
     (case h_hex_decode h s of None \<Rightarrow> None
      | Some bs \<Rightarrow> (case bytes_new min_len max_len bs of Inr b \<Rightarrow> Some b | Inl _ \<Rightarrow> None))"

record signature_request =
  sr_tweak :: bytes
  sr_payload :: payload
  sr_domain_id :: domain_id

definition signature_request_new ::
  "('pt, 'af) curves \<Rightarrow> domain_id \<Rightarrow> payload \<Rightarrow> account_id \<Rightarrow> string \<Rightarrow> signature_request" where
  "signature_request_new C domain pl predecessor_id path =
     \<lparr>sr_tweak = derive_tweak C predecessor_id path, sr_payload = pl, sr_domain_id = domain\<rparr>"

record sign_request_args =
  sa_path :: string
  sa_payload_v2 :: "payload option"
  sa_deprecated_payload :: "bytes option"
  sa_domain_id :: "domain_id option"
  sa_deprecated_key_version :: "u32 option"

record sign_request =
  sq_payload :: payload
  sq_path :: string
  sq_domain_id :: domain_id

definition sign_request_try_from :: "sign_request_args \<Rightarrow> sign_request result" where
  "sign_request_try_from args =
     and_then (case (sa_payload_v2 args, sa_deprecated_payload args) of
         (Some p, None) \<Rightarrow> Inr p
       | (None, Some p) \<Rightarrow> from_legacy_ecdsa p
       | _ \<Rightarrow> Inl (ParamsErr MalformedPayload)) (\<lambda>pl.
     and_then (case (sa_domain_id args, sa_deprecated_key_version args) of
         (Some d, None) \<Rightarrow> Inr d
       | (None, Some key_version) \<Rightarrow> Inr (ucast key_version)
       | _ \<Rightarrow> Inl (ParamsErr InvalidDomainId)) (\<lambda>d.
     Inr \<lparr>sq_payload = pl, sq_path = sa_path args, sq_domain_id = d\<rparr>))"

record ckd_request_args =
  ca_derivation_path :: string
  ca_app_public_key :: bytes
  ca_domain_id :: domain_id

record ckd_request =
  cr_app_public_key :: bytes
  cr_app_id :: bytes
  cr_domain_id :: domain_id

definition ckd_request_new ::
  "('pt, 'af) curves \<Rightarrow> bytes \<Rightarrow> domain_id \<Rightarrow> account_id \<Rightarrow> string \<Rightarrow> ckd_request" where
  "ckd_request_new C app_public_key d predecessor_id path =
     \<lparr>cr_app_public_key = app_public_key, cr_app_id = derive_app_id C predecessor_id path, cr_domain_id = d\<rparr>"

text \<open>\<open>VerifyForeignTransactionRequestArgs\<close> has the fields of \<open>VerifyForeignTransactionRequest\<close>.\<close>

record verify_foreign_tx_request_args =
  va_request :: foreign_chain_rpc_request
  va_domain_id :: domain_id
  va_payload_version :: foreign_tx_payload_version

definition args_into_verify_foreign_tx_request ::
  "verify_foreign_tx_request_args \<Rightarrow> verify_foreign_tx_request" where
  "args_into_verify_foreign_tx_request args =
     \<lparr>vf_request = va_request args, vf_domain_id = va_domain_id args,
      vf_payload_version = va_payload_version args\<rparr>"

record verify_foreign_tx_response =
  vr_payload_hash :: bytes
  vr_signature :: signature_response

section \<open>Configuration\<close>

record config =
  cfg_key_event_timeout_blocks :: u64
  cfg_tee_upgrade_deadline_duration_seconds :: u64
  cfg_contract_upgrade_deposit_tera_gas :: u64
  cfg_sign_call_gas_attachment_requirement_tera_gas :: u64
  cfg_ckd_call_gas_attachment_requirement_tera_gas :: u64
  cfg_return_signature_and_clean_state_on_success_call_tera_gas :: u64
  cfg_return_ck_and_clean_state_on_success_call_tera_gas :: u64
  cfg_fail_on_timeout_tera_gas :: u64
  cfg_clean_tee_status_tera_gas :: u64
  cfg_cleanup_orphaned_node_migrations_tera_gas :: u64
  cfg_remove_non_participant_update_votes_tera_gas :: u64

definition config_default :: config where
  "config_default =
     \<lparr>cfg_key_event_timeout_blocks = 30,
      cfg_tee_upgrade_deadline_duration_seconds = 7 * 24 * 60 * 60,
      cfg_contract_upgrade_deposit_tera_gas = 50,
      cfg_sign_call_gas_attachment_requirement_tera_gas = 15,
      cfg_ckd_call_gas_attachment_requirement_tera_gas = 15,
      cfg_return_signature_and_clean_state_on_success_call_tera_gas = 7,
      cfg_return_ck_and_clean_state_on_success_call_tera_gas = 7,
      cfg_fail_on_timeout_tera_gas = 2,
      cfg_clean_tee_status_tera_gas = 10,
      cfg_cleanup_orphaned_node_migrations_tera_gas = 3,
      cfg_remove_non_participant_update_votes_tera_gas = 5\<rparr>"

record init_config =
  ic_key_event_timeout_blocks :: "u64 option"
  ic_tee_upgrade_deadline_duration_seconds :: "u64 option"
  ic_contract_upgrade_deposit_tera_gas :: "u64 option"
  ic_sign_call_gas_attachment_requirement_tera_gas :: "u64 option"
  ic_ckd_call_gas_attachment_requirement_tera_gas :: "u64 option"
  ic_return_signature_and_clean_state_on_success_call_tera_gas :: "u64 option"
  ic_return_ck_and_clean_state_on_success_call_tera_gas :: "u64 option"
  ic_fail_on_timeout_tera_gas :: "u64 option"
  ic_clean_tee_status_tera_gas :: "u64 option"
  ic_cleanup_orphaned_node_migrations_tera_gas :: "u64 option"
  ic_remove_non_participant_update_votes_tera_gas :: "u64 option"

abbreviation given :: "u64 option \<Rightarrow> u64 \<Rightarrow> u64" where
  "given v d \<equiv> (case v of Some x \<Rightarrow> x | None \<Rightarrow> d)"

definition config_from_init :: "init_config \<Rightarrow> config" where
  "config_from_init ic = (let d = config_default in
     \<lparr>cfg_key_event_timeout_blocks = given (ic_key_event_timeout_blocks ic) (cfg_key_event_timeout_blocks d),
      cfg_tee_upgrade_deadline_duration_seconds =
        given (ic_tee_upgrade_deadline_duration_seconds ic) (cfg_tee_upgrade_deadline_duration_seconds d),
      cfg_contract_upgrade_deposit_tera_gas =
        given (ic_contract_upgrade_deposit_tera_gas ic) (cfg_contract_upgrade_deposit_tera_gas d),
      cfg_sign_call_gas_attachment_requirement_tera_gas =
        given (ic_sign_call_gas_attachment_requirement_tera_gas ic)
          (cfg_sign_call_gas_attachment_requirement_tera_gas d),
      cfg_ckd_call_gas_attachment_requirement_tera_gas =
        given (ic_ckd_call_gas_attachment_requirement_tera_gas ic)
          (cfg_ckd_call_gas_attachment_requirement_tera_gas d),
      cfg_return_signature_and_clean_state_on_success_call_tera_gas =
        given (ic_return_signature_and_clean_state_on_success_call_tera_gas ic)
          (cfg_return_signature_and_clean_state_on_success_call_tera_gas d),
      cfg_return_ck_and_clean_state_on_success_call_tera_gas =
        given (ic_return_ck_and_clean_state_on_success_call_tera_gas ic)
          (cfg_return_ck_and_clean_state_on_success_call_tera_gas d),
      cfg_fail_on_timeout_tera_gas = given (ic_fail_on_timeout_tera_gas ic) (cfg_fail_on_timeout_tera_gas d),
      cfg_clean_tee_status_tera_gas = given (ic_clean_tee_status_tera_gas ic) (cfg_clean_tee_status_tera_gas d),
      cfg_cleanup_orphaned_node_migrations_tera_gas =
        given (ic_cleanup_orphaned_node_migrations_tera_gas ic) (cfg_cleanup_orphaned_node_migrations_tera_gas d),
      cfg_remove_non_participant_update_votes_tera_gas =
        given (ic_remove_non_participant_update_votes_tera_gas ic)
          (cfg_remove_non_participant_update_votes_tera_gas d)\<rparr>)"

section \<open>Derivation paths\<close>

lemma append_separator_inj:
  assumes "s @ c # t = s' @ c # t'" "c \<notin> set s" "c \<notin> set s'"
  shows "s = s' \<and> t = t'"
  using assms
proof (induction s arbitrary: s')
  case Nil
  then show ?case by (cases s') auto
next
  case (Cons x s)
  then show ?case by (cases s') auto
qed

lemma prefixes_differ: "TWEAK_DERIVATION_PREFIX @ x \<noteq> APP_ID_DERIVATION_PREFIX @ y"
  by (simp add: TWEAK_DERIVATION_PREFIX_def APP_ID_DERIVATION_PREFIX_def)

lemma derivation_path_inj:
  assumes "CHR '','' \<notin> set a" "CHR '','' \<notin> set b" "derivation_path p a s = derivation_path p b t"
  shows "a = b \<and> s = t"
  using append_separator_inj [of a "CHR '',''" s b t] assms by (simp add: derivation_path_def)

text \<open>
  C26: requests of different users never share a derivation path. As an account identifier
  contains no comma, the string hashed into a tweak or an application identifier determines
  the account and the path, and the strings hashed for signing are never hashed for
  confidential key derivation.
\<close>

theorem derivation_paths_are_separated:
  assumes "CHR '','' \<notin> set a" "CHR '','' \<notin> set b"
  shows "derivation_path TWEAK_DERIVATION_PREFIX a s \<noteq> derivation_path APP_ID_DERIVATION_PREFIX b t
    \<and> (derivation_path APP_ID_DERIVATION_PREFIX a s = derivation_path APP_ID_DERIVATION_PREFIX b t
        \<longleftrightarrow> a = b \<and> s = t)
    \<and> (derivation_path TWEAK_DERIVATION_PREFIX a s = derivation_path TWEAK_DERIVATION_PREFIX b t
        \<longleftrightarrow> a = b \<and> s = t)"
  using derivation_path_inj [OF assms] prefixes_differ by (auto simp: derivation_path_def)

theorem derivation_paths_are_separated_witness:
  "derivation_path TWEAK_DERIVATION_PREFIX ''a'' ''b,c'' \<noteq> derivation_path TWEAK_DERIVATION_PREFIX ''a.near'' ''c''"
proof -
  have "CHR '','' \<notin> set ''a''" "CHR '','' \<notin> set ''a.near''" by simp_all
  then show ?thesis
    using derivation_paths_are_separated [of "''a''" "''a.near''"] by fastforce
qed

end
