(* ===== verification/Updates.thy ===== *)
theory Updates
  imports Requests Participants
begin

text \<open>
  \<open>crates/contract/src/update.rs\<close>: proposals to update the contract's code or configuration and
  the votes on them, with the promises an accepted update schedules.
\<close>

section \<open>Promises\<close>

text \<open>
  A promise is the account it runs on and its actions; a call schedules a list of them. The
  payload of a scheduled method call is kept where the contract passes one.
\<close>

datatype promise_action =
    TransferAction u128
  | DeployContract bytes
  | FunctionCall string "config option" u64

type_synonym promise = "account_id \<times> promise_action list"

section \<open>Updates\<close>

type_synonym update_id = u64

datatype update = ContractUpdate bytes | ConfigUpdate config

record propose_update_args =
  pa_code :: "bytes option"
  pa_config :: "config option"

definition update_try_from :: "propose_update_args \<Rightarrow> update result" where
  "update_try_from args =
     (case (pa_code args, pa_config args) of
        (Some contract, None) \<Rightarrow> Inr (ContractUpdate contract)
      | (None, Some config) \<Rightarrow> Inr (ConfigUpdate config)
      | (Some _, Some _) \<Rightarrow> Inl (ConversionErr DataConversion)
      | (None, None) \<Rightarrow> Inl (ConversionErr DataConversion))"

text \<open>
  The sizes of the two Rust types in memory, which the compiler fixes, and \<open>serde_json::to_vec\<close>
  on a configuration.
\<close>

record update_sizes =
  us_size_of_update_entry :: u128
  us_size_of_account_id :: u128
  us_config_to_vec :: "config \<Rightarrow> bytes"

record update_entry =
  ue_update :: update
  ue_bytes_used :: u128

record proposed_updates =
  pu_vote_by_participant :: "(account_id, update_id) iterable_map"
  pu_entries :: "(update_id, update_entry) iterable_map"
  pu_id :: update_id

definition proposed_updates_default :: proposed_updates where
  "proposed_updates_default = \<lparr>pu_vote_by_participant = [], pu_entries = [], pu_id = 0\<rparr>"

definition bytes_used :: "update_sizes \<Rightarrow> update \<Rightarrow> u128" where
  "bytes_used us u =
     us_size_of_update_entry us + 128 * us_size_of_account_id us +
       (case u of ContractUpdate code \<Rightarrow> of_nat (length code)
        | ConfigUpdate config \<Rightarrow> of_nat (length (us_config_to_vec us config)))"

definition required_deposit :: "env \<Rightarrow> u128 \<Rightarrow> u128" where
  "required_deposit env used = token_saturating_mul (storage_byte_cost env) used"

definition update_required_deposit :: "env \<Rightarrow> update_sizes \<Rightarrow> update \<Rightarrow> u128" where
  "update_required_deposit env us u = required_deposit env (bytes_used us u)"

definition update_id_generate :: "update_id \<Rightarrow> update_id \<times> update_id" where
  "update_id_generate i = (i, i + 1)"

definition propose :: "update_sizes \<Rightarrow> update \<Rightarrow> proposed_updates \<Rightarrow> update_id \<times> proposed_updates" where
  "propose us u pu =
     (let used = bytes_used us u; (i, next_id) = update_id_generate (pu_id pu) in
      (i, pu\<lparr>pu_id := next_id,
             pu_entries := im_insert i \<lparr>ue_update = u, ue_bytes_used = used\<rparr> (pu_entries pu)\<rparr>))"

definition remove_vote :: "account_id \<Rightarrow> proposed_updates \<Rightarrow> proposed_updates" where
  "remove_vote voter pu = pu\<lparr>pu_vote_by_participant := im_remove voter (pu_vote_by_participant pu)\<rparr>"

definition update_vote :: "update_id \<Rightarrow> account_id \<Rightarrow> proposed_updates \<Rightarrow> unit option \<times> proposed_updates" where
  "update_vote i voter pu0 =
     (let pu = remove_vote voter pu0 in
      if im_get (pu_entries pu) i = None then (None, pu)
      else (Some (), pu\<lparr>pu_vote_by_participant := im_insert voter i (pu_vote_by_participant pu)\<rparr>))"

definition do_update ::
  "env \<Rightarrow> update_id \<Rightarrow> u64 \<Rightarrow> proposed_updates \<Rightarrow> (promise \<times> proposed_updates) option" where
  "do_update env i gas pu =
     (case im_get (pu_entries pu) i of
        None \<Rightarrow> None
      | Some entry \<Rightarrow>
          let cleared = pu\<lparr>pu_entries := [], pu_vote_by_participant := []\<rparr>;
              actions = (case ue_update entry of
                ContractUpdate code \<Rightarrow> [DeployContract code, FunctionCall ''migrate'' None gas]
              | ConfigUpdate config \<Rightarrow>
                  [FunctionCall ''update_config'' (Some config)
                     (gas_from_tgas (cfg_contract_upgrade_deposit_tera_gas config))])
          in Some ((current_account_id env, actions), cleared))"

definition remove_votes :: "account_id list \<Rightarrow> proposed_updates \<Rightarrow> proposed_updates" where
  "remove_votes accounts_to_remove pu = fold remove_vote accounts_to_remove pu"

definition remove_non_participant_votes :: "participants \<Rightarrow> proposed_updates \<Rightarrow> proposed_updates" where
  "remove_non_participant_votes ps pu =
     (let non_participants = filter (\<lambda>voter. \<not> is_participant_given_account_id ps voter)
            (im_keys (pu_vote_by_participant pu)) in
      remove_votes non_participants pu)"

datatype update_hash = CodeHash bytes | ConfigHash bytes

definition update_hash_of :: "'col host \<Rightarrow> update_sizes \<Rightarrow> update \<Rightarrow> update_hash" where
  "update_hash_of h us u =
     (case u of ContractUpdate code \<Rightarrow> CodeHash (h_sha256 h code)
      | ConfigUpdate config \<Rightarrow> ConfigHash (h_sha256 h (us_config_to_vec us config)))"

definition all_updates ::
  "'col host \<Rightarrow> update_sizes \<Rightarrow> proposed_updates
    \<Rightarrow> (account_id, update_id) btree_map \<times> (update_id, update_hash) btree_map" where
  "all_updates h us pu =
     (fold (\<lambda>(account, i). bt_insert account i) (pu_vote_by_participant pu) [],
      fold (\<lambda>(i, entry). bt_insert i (update_hash_of h us (ue_update entry))) (pu_entries pu) [])"

section \<open>Invariant\<close>

text \<open>
  Votes are for updates that exist. The identifiers in use are below the counter as long as it
  does not wrap around, so that a new proposal never replaces one that is being voted on.
\<close>

definition updates_inv :: "proposed_updates \<Rightarrow> bool" where
  "updates_inv pu \<longleftrightarrow> im_invar (pu_vote_by_participant pu) \<and> im_invar (pu_entries pu)
     \<and> ran (im_get (pu_vote_by_participant pu)) \<subseteq> dom (im_get (pu_entries pu))"

definition updates_fresh :: "proposed_updates \<Rightarrow> bool" where
  "updates_fresh pu \<longleftrightarrow> (\<forall>i \<in> dom (im_get (pu_entries pu)). i < pu_id pu)"

lemma updates_inv_default [simp]: "updates_inv proposed_updates_default"
  by (simp add: updates_inv_def proposed_updates_default_def)

lemma updates_inv_remove_vote:
  assumes "updates_inv pu"
  shows "updates_inv (remove_vote voter pu)"
proof -
  have "ran ((im_get (pu_vote_by_participant pu))(voter := None)) \<subseteq> ran (im_get (pu_vote_by_participant pu))"
    by (auto simp: ran_def split: if_splits)
  with assms show ?thesis
    by (auto simp: updates_inv_def remove_vote_def)
qed

lemma remove_votes_get:
  "im_get (pu_vote_by_participant (remove_votes accs pu)) a =
     (if a \<in> set accs then None else im_get (pu_vote_by_participant pu) a)"
  "pu_entries (remove_votes accs pu) = pu_entries pu" "pu_id (remove_votes accs pu) = pu_id pu"
  by (induction accs arbitrary: pu) (auto simp: remove_votes_def remove_vote_def)

lemma updates_inv_remove_votes: "updates_inv pu \<Longrightarrow> updates_inv (remove_votes accs pu)"
  by (induction accs arbitrary: pu) (auto simp: remove_votes_def updates_inv_remove_vote)

lemma updates_inv_propose: "updates_inv pu \<Longrightarrow> updates_inv (snd (propose us u pu))"
  by (auto simp: updates_inv_def propose_def update_id_generate_def)

lemma updates_fresh_propose:
  assumes "updates_fresh pu" "pu_id pu \<noteq> - 1"
  shows "updates_fresh (snd (propose us u pu))"
proof -
  have "pu_id pu < pu_id pu + 1"
    using assms(2) word_less_plus_one [of "pu_id pu" "- 1"] by (simp add: word_order.not_eq_extremum)
  then show ?thesis
    using assms(1) by (auto simp: updates_fresh_def propose_def update_id_generate_def intro: less_trans)
qed

lemma ran_upd_subset: "ran (m(k \<mapsto> v)) \<subseteq> insert v (ran m)"
  by (auto simp: ran_def split: if_splits)

lemma updates_inv_vote:
  assumes "updates_inv pu" "update_vote i voter pu = (Some (), pu')"
  shows "updates_inv pu'"
proof -
  have "updates_inv (remove_vote voter pu)"
    using assms(1) by (rule updates_inv_remove_vote)
  moreover have "i \<in> dom (im_get (pu_entries (remove_vote voter pu)))"
    "pu' = (remove_vote voter pu)\<lparr>pu_vote_by_participant :=
       im_insert voter i (pu_vote_by_participant (remove_vote voter pu))\<rparr>"
    using assms(2) by (auto simp: update_vote_def Let_def split: if_splits)
  ultimately show ?thesis
    using ran_upd_subset [of "im_get (pu_vote_by_participant (remove_vote voter pu))" voter i]
    by (auto simp: updates_inv_def)
qed

lemma updates_inv_do_update:
  "updates_inv pu \<Longrightarrow> do_update env i gas pu = Some (p, pu') \<Longrightarrow> updates_inv pu'"
  by (auto simp: updates_inv_def do_update_def Let_def split: option.splits)

lemma update_vote_get:
  assumes "update_vote i voter pu = (Some (), pu')"
  shows "im_get (pu_vote_by_participant pu') = (im_get (pu_vote_by_participant pu))(voter \<mapsto> i)"
    "pu_entries pu' = pu_entries pu" "pu_id pu' = pu_id pu" "i \<in> dom (im_get (pu_entries pu))"
  using assms by (auto simp: update_vote_def remove_vote_def Let_def split: if_splits)

lemma propose_fresh:
  assumes "updates_fresh pu" "propose us u pu = (i, pu')"
  shows "im_get (pu_entries pu) i = None"
    "im_get (pu_entries pu') = (im_get (pu_entries pu))(i \<mapsto> \<lparr>ue_update = u, ue_bytes_used = bytes_used us u\<rparr>)"
    "pu_vote_by_participant pu' = pu_vote_by_participant pu"
  using assms by (auto simp: updates_fresh_def propose_def update_id_generate_def)

lemma remove_non_participant_votes_get:
  "im_get (pu_vote_by_participant (remove_non_participant_votes ps pu)) a =
     (if is_participant_given_account_id ps a then im_get (pu_vote_by_participant pu) a else None)"
proof -
  have "a \<in> set (im_keys (pu_vote_by_participant pu)) \<longleftrightarrow> im_get (pu_vote_by_participant pu) a \<noteq> None"
    using dom_im_get [of "pu_vote_by_participant pu"] by blast
  then show ?thesis
    by (auto simp: remove_non_participant_votes_def remove_votes_get)
qed

lemma updates_inv_remove_non_participants:
  "updates_inv pu \<Longrightarrow> updates_inv (remove_non_participant_votes ps pu)"
  by (simp add: remove_non_participant_votes_def updates_inv_remove_votes)

lemma bt_get_fold_map_insert:
  assumes "distinct (map fst xs)"
  shows "bt_get (fold (\<lambda>(k, v). bt_insert k (f v)) xs m) k =
    (case map_of xs k of Some v \<Rightarrow> Some (f v) | None \<Rightarrow> bt_get m k)"
  using assms
proof (induction xs arbitrary: m)
  case (Cons e xs)
  then show ?case
    by (cases e) (auto split: option.splits dest: map_of_SomeD simp: image_iff)
qed simp

text \<open>
  The view of the proposed updates is faithful. \<open>all_updates\<close> lists exactly the recorded
  votes and, for every proposed update, the hash of its code or of its configuration.
\<close>

theorem all_updates_lookup:
  assumes "updates_inv pu"
  shows "bt_get (fst (all_updates h us pu)) a = im_get (pu_vote_by_participant pu) a
    \<and> bt_get (snd (all_updates h us pu)) i =
        map_option (\<lambda>e. update_hash_of h us (ue_update e)) (im_get (pu_entries pu) i)"
  using assms bt_get_fold_map_insert [of "pu_vote_by_participant pu" "\<lambda>x. x" "[]" a]
    bt_get_fold_map_insert [of "pu_entries pu" "\<lambda>e. update_hash_of h us (ue_update e)" "[]" i]
  by (simp add: all_updates_def updates_inv_def im_invar_def im_get_def map_option_case split: option.splits)

definition sample_sizes :: update_sizes where
  "sample_sizes = \<lparr>us_size_of_update_entry = 64, us_size_of_account_id = 16, us_config_to_vec = (\<lambda>_. [])\<rparr>"

definition sample_updates :: proposed_updates where
  "sample_updates = \<lparr>pu_vote_by_participant = [(''a'', 0)],
     pu_entries = [(0, \<lparr>ue_update = ContractUpdate [1, 2], ue_bytes_used = 2114\<rparr>)], pu_id = 1\<rparr>"

lemma sample_updates_inv: "updates_inv sample_updates"
  by (auto simp: updates_inv_def sample_updates_def im_invar_def im_get_def ran_def split: if_splits)

theorem all_updates_lookup_witness:
  "bt_get (fst (all_updates sample_host sample_sizes sample_updates)) ''a'' = Some 0
   \<and> bt_get (snd (all_updates sample_host sample_sizes sample_updates)) 0 = Some (CodeHash (replicate 32 0))"
  using all_updates_lookup [OF sample_updates_inv, of sample_host sample_sizes "''a''" 0]
  by (simp add: sample_updates_def im_get_def update_hash_of_def sample_host_def)

end
