(* ===== verification/Migrations.thy ===== *)
theory Migrations
  imports Participants
begin

text \<open>
  \<open>crates/contract/src/node_migrations.rs\<close>: the backup service of a node operator and the
  destination of an ongoing migration, each kept by account.
\<close>

record backup_service_info =
  bs_public_key :: bytes

record destination_node_info =
  dn_signer_account_pk :: near_public_key
  dn_destination_node_info :: participant_info

record node_migrations =
  nm_backup_services_info :: "(account_id, backup_service_info) iterable_map"
  nm_ongoing_migrations :: "(account_id, destination_node_info) iterable_map"

definition node_migrations_default :: node_migrations where
  "node_migrations_default = \<lparr>nm_backup_services_info = [], nm_ongoing_migrations = []\<rparr>"

definition set_backup_service_info ::
  "account_id \<Rightarrow> backup_service_info \<Rightarrow> node_migrations \<Rightarrow> node_migrations" where
  "set_backup_service_info account_id info nm =
     nm\<lparr>nm_backup_services_info := im_insert account_id info (nm_backup_services_info nm)\<rparr>"

definition set_destination_node_info ::
  "account_id \<Rightarrow> destination_node_info \<Rightarrow> node_migrations \<Rightarrow> node_migrations" where
  "set_destination_node_info account_id info nm =
     nm\<lparr>nm_ongoing_migrations := im_insert account_id info (nm_ongoing_migrations nm)\<rparr>"

definition remove_account_data :: "account_id \<Rightarrow> node_migrations \<Rightarrow> node_migrations" where
  "remove_account_data account_id nm =
     nm\<lparr>nm_backup_services_info := im_remove account_id (nm_backup_services_info nm),
        nm_ongoing_migrations := im_remove account_id (nm_ongoing_migrations nm)\<rparr>"

definition remove_migration ::
  "account_id \<Rightarrow> node_migrations \<Rightarrow> destination_node_info option \<times> node_migrations" where
  "remove_migration account_id nm =
     (im_get (nm_ongoing_migrations nm) account_id,
      nm\<lparr>nm_ongoing_migrations := im_remove account_id (nm_ongoing_migrations nm)\<rparr>)"

definition get_for_account ::
  "node_migrations \<Rightarrow> account_id
    \<Rightarrow> account_id \<times> backup_service_info option \<times> destination_node_info option" where
  "get_for_account nm account_id =
     (account_id, im_get (nm_backup_services_info nm) account_id, im_get (nm_ongoing_migrations nm) account_id)"

definition get_all ::
  "node_migrations \<Rightarrow> (account_id, backup_service_info option \<times> destination_node_info option) btree_map" where
  "get_all nm =
     (let combined = fold (\<lambda>(i, info). bt_insert i (Some info, None)) (nm_backup_services_info nm) [] in
      fold (\<lambda>(i, info) m. case bt_get m i of
          Some entry \<Rightarrow> bt_insert i (fst entry, Some info) m
        | None \<Rightarrow> bt_insert i (None, Some info) m) (nm_ongoing_migrations nm) combined)"

definition migrations_inv :: "node_migrations \<Rightarrow> bool" where
  "migrations_inv nm \<longleftrightarrow> im_invar (nm_backup_services_info nm) \<and> im_invar (nm_ongoing_migrations nm)"

lemma migrations_inv_ops [simp]:
  "migrations_inv node_migrations_default"
  "migrations_inv nm \<Longrightarrow> migrations_inv (set_backup_service_info a b nm)"
  "migrations_inv nm \<Longrightarrow> migrations_inv (set_destination_node_info a d nm)"
  "migrations_inv nm \<Longrightarrow> migrations_inv (remove_account_data a nm)"
  "migrations_inv nm \<Longrightarrow> migrations_inv (snd (remove_migration a nm))"
  by (simp_all add: migrations_inv_def node_migrations_default_def set_backup_service_info_def
      set_destination_node_info_def remove_account_data_def remove_migration_def)

lemma get_all_backups:
  assumes "distinct (map fst xs)"
  shows "bt_get (fold (\<lambda>(i, info). bt_insert i (Some info, None)) xs m) a =
    (case map_of xs a of Some b \<Rightarrow> Some (Some b, None) | None \<Rightarrow> bt_get m a)"
  using assms
proof (induction xs arbitrary: m)
  case (Cons e xs)
  then show ?case
    by (cases e) (auto split: option.splits dest: map_of_SomeD simp: image_iff)
qed simp

lemma get_all_migrations:
  assumes "distinct (map fst xs)"
  shows "bt_get (fold (\<lambda>(i, info) m. case bt_get m i of
          Some entry \<Rightarrow> bt_insert i (fst entry, Some info) m
        | None \<Rightarrow> bt_insert i (None, Some info) m) xs m) a =
    (case map_of xs a of
       Some d \<Rightarrow> Some (case bt_get m a of Some entry \<Rightarrow> fst entry | None \<Rightarrow> None, Some d)
     | None \<Rightarrow> bt_get m a)"
  using assms
proof (induction xs arbitrary: m)
  case (Cons e xs)
  obtain i d where e: "e = (i, d)" by (cases e)
  have "map_of xs i = None"
    using Cons.prems e by (force simp: map_of_eq_None_iff)
  then show ?case
    using Cons by (cases "bt_get m i") (auto simp: e split: option.splits)
qed simp

text \<open>
  The overview of migrations is complete. \<open>get_all\<close> has an entry exactly for the accounts
  with a backup service or an ongoing migration, and it agrees with \<open>get_for_account\<close>.
\<close>

theorem get_all_lookup:
  assumes "migrations_inv nm"
  shows "(case bt_get (get_all nm) a of
            Some entry \<Rightarrow> get_for_account nm a = (a, entry) \<and> entry \<noteq> (None, None)
          | None \<Rightarrow> get_for_account nm a = (a, None, None))"
  using assms
  by (simp add: get_all_def Let_def migrations_inv_def im_invar_def get_all_migrations get_all_backups
      get_for_account_def im_get_def split: option.splits)

definition sample_migrations :: node_migrations where
  "sample_migrations = \<lparr>nm_backup_services_info = [(''b'', \<lparr>bs_public_key = [2]\<rparr>), (''a'', \<lparr>bs_public_key = [1]\<rparr>)],
     nm_ongoing_migrations = []\<rparr>"

theorem get_all_lookup_witness:
  "get_for_account sample_migrations ''a'' = (''a'', Some \<lparr>bs_public_key = [1]\<rparr>, None)
   \<and> bt_get (get_all sample_migrations) ''a'' \<noteq> None"
proof -
  have "migrations_inv sample_migrations"
    by (simp add: migrations_inv_def im_invar_def sample_migrations_def)
  moreover have "get_for_account sample_migrations ''a'' = (''a'', Some \<lparr>bs_public_key = [1]\<rparr>, None)"
    by (simp add: get_for_account_def im_get_def sample_migrations_def)
  ultimately show ?thesis
    using get_all_lookup [of sample_migrations "''a''"] by (auto split: option.splits)
qed

end
