(* ===== verification/Dto_Attestation.thy ===== *)
theory Dto_Attestation
  imports Attestation
begin

text \<open>
  The attestation half of \<open>crates/contract/src/dto_mapping.rs\<close>: conversions between the
  interface types of \<open>crates/contract-interface/src/types/attestation.rs\<close>, which carry digests as
  hexadecimal strings, and the types the verification works on, with the hexadecimal parsers of
  \<open>crates/attestation/src/tcb_info.rs\<close> and \<open>crates/primitives/src/hash.rs\<close>.
\<close>

section \<open>Hexadecimal byte arrays\<close>

text \<open>\<open>HexBytes\<close> parsing; which of the two parsing errors occurs is not kept by the caller.\<close>

datatype hex_parsing_error = WrongLength nat | UnexpectedHexCharacter

definition hex_bytes_try_from :: "'col host \<Rightarrow> nat \<Rightarrow> string \<Rightarrow> hex_parsing_error + bytes" where
  "hex_bytes_try_from h n value =
     (if length value \<noteq> 2 * n then Inl (WrongLength (length value))
      else case h_hex_decode h value of
        None \<Rightarrow> Inl UnexpectedHexCharacter
      | Some bs \<Rightarrow> if length bs = n then Inr bs else Inl (WrongLength (length value)))"

definition string_from_hex_bytes :: "'col host \<Rightarrow> bytes \<Rightarrow> string" where
  "string_from_hex_bytes h bs = h_hex_encode h bs"

datatype hash32_parse_error = HexError | InvalidLength nat

definition hash32_from_str :: "'col host \<Rightarrow> string \<Rightarrow> hash32_parse_error + bytes" where
  "hash32_from_str h s =
     and_then (ok_or (h_hex_decode h s) HexError) (\<lambda>decoded.
     if length decoded = 32 then Inr decoded else Inl (InvalidLength (length decoded)))"

definition hash32_as_hex :: "'col host \<Rightarrow> bytes \<Rightarrow> string" where
  "hash32_as_hex h bs = h_hex_encode h bs"

section \<open>Interface types\<close>

record collateral =
  col_pck_crl_issuer_chain :: string
  col_root_ca_crl :: bytes
  col_pck_crl :: bytes
  col_tcb_info_issuer_chain :: string
  col_tcb_info :: string
  col_tcb_info_signature :: bytes
  col_qe_identity_issuer_chain :: string
  col_qe_identity :: string
  col_qe_identity_signature :: bytes
  col_pck_certificate_chain :: "string option"

record dto_collateral =
  dcol_pck_crl_issuer_chain :: string
  dcol_root_ca_crl :: bytes
  dcol_pck_crl :: bytes
  dcol_tcb_info_issuer_chain :: string
  dcol_tcb_info :: string
  dcol_tcb_info_signature :: bytes
  dcol_qe_identity_issuer_chain :: string
  dcol_qe_identity :: string
  dcol_qe_identity_signature :: bytes
  dcol_pck_certificate_chain :: "string option"

record dto_event_log =
  dev_imr :: u32
  dev_event_type :: u32
  dev_digest :: string
  dev_event :: string
  dev_event_payload :: string

record dto_tcb_info =
  dtcb_mrtd :: string
  dtcb_rtmr0 :: string
  dtcb_rtmr1 :: string
  dtcb_rtmr2 :: string
  dtcb_rtmr3 :: string
  dtcb_os_image_hash :: string
  dtcb_compose_hash :: string
  dtcb_device_id :: string
  dtcb_app_compose :: string
  dtcb_event_log :: "dto_event_log list"

record dto_dstack_attestation =
  dda_quote :: bytes
  dda_collateral :: dto_collateral
  dda_tcb_info :: dto_tcb_info

datatype dto_mock_attestation =
    DtoMockValid
  | DtoMockInvalid
  | DtoWithConstraints "bytes option" "bytes option" "u64 option"

datatype dto_attestation = DtoDstack dto_dstack_attestation | DtoMock dto_mock_attestation

record dto_verified_dstack =
  dvd_mpc_image_hash :: bytes
  dvd_launcher_compose_hash :: bytes
  dvd_expiry_timestamp_seconds :: u64

datatype dto_verified_attestation =
  DtoVerifiedMock dto_mock_attestation | DtoVerifiedDstack dto_verified_dstack

section \<open>From the interface\<close>

definition mock_into_contract_type :: "dto_mock_attestation \<Rightarrow> mock_attestation" where
  "mock_into_contract_type m =
     (case m of DtoMockValid \<Rightarrow> MockValid | DtoMockInvalid \<Rightarrow> MockInvalid
      | DtoWithConstraints i c e \<Rightarrow> WithConstraints i c e)"

definition collateral_into_contract_type :: "dto_collateral \<Rightarrow> collateral" where
  "collateral_into_contract_type d =
     \<lparr>col_pck_crl_issuer_chain = dcol_pck_crl_issuer_chain d, col_root_ca_crl = dcol_root_ca_crl d,
      col_pck_crl = dcol_pck_crl d, col_tcb_info_issuer_chain = dcol_tcb_info_issuer_chain d,
      col_tcb_info = dcol_tcb_info d, col_tcb_info_signature = dcol_tcb_info_signature d,
      col_qe_identity_issuer_chain = dcol_qe_identity_issuer_chain d, col_qe_identity = dcol_qe_identity d,
      col_qe_identity_signature = dcol_qe_identity_signature d,
      col_pck_certificate_chain = dcol_pck_certificate_chain d\<rparr>"

definition try_convert :: "'col host \<Rightarrow> nat \<Rightarrow> string \<Rightarrow> bytes result" where
  "try_convert h n s =
     (case hex_bytes_try_from h n s of Inr bs \<Rightarrow> Inr bs | Inl _ \<Rightarrow> Inl (ConversionErr DataConversion))"

definition event_log_try_into :: "'col host \<Rightarrow> dto_event_log \<Rightarrow> event_log result" where
  "event_log_try_into h d =
     and_then (try_convert h 48 (dev_digest d)) (\<lambda>digest.
     Inr \<lparr>ev_imr = dev_imr d, ev_event_type = dev_event_type d, ev_digest = digest,
          ev_event = dev_event d, ev_event_payload = dev_event_payload d\<rparr>)"

fun event_logs_try_into :: "'col host \<Rightarrow> dto_event_log list \<Rightarrow> event_log list result" where
  "event_logs_try_into h [] = Inr []"
| "event_logs_try_into h (e # es) =
     and_then (event_log_try_into h e) (\<lambda>e'. and_then (event_logs_try_into h es) (\<lambda>es'. Inr (e' # es')))"

definition tcb_info_try_into :: "'col host \<Rightarrow> dto_tcb_info \<Rightarrow> tcb_info result" where
  "tcb_info_try_into h d =
     and_then (event_logs_try_into h (dtcb_event_log d)) (\<lambda>evs.
     and_then (if dtcb_os_image_hash d = [] then Inr None
       else and_then (try_convert h 32 (dtcb_os_image_hash d)) (\<lambda>bs. Inr (Some bs))) (\<lambda>os_image_hash.
     and_then (try_convert h 48 (dtcb_mrtd d)) (\<lambda>mrtd.
     and_then (try_convert h 48 (dtcb_rtmr0 d)) (\<lambda>rtmr0.
     and_then (try_convert h 48 (dtcb_rtmr1 d)) (\<lambda>rtmr1.
     and_then (try_convert h 48 (dtcb_rtmr2 d)) (\<lambda>rtmr2.
     and_then (try_convert h 48 (dtcb_rtmr3 d)) (\<lambda>rtmr3.
     and_then (try_convert h 32 (dtcb_compose_hash d)) (\<lambda>compose_hash.
     and_then (try_convert h 32 (dtcb_device_id d)) (\<lambda>device_id.
     Inr \<lparr>tcb_mrtd = mrtd, tcb_rtmr0 = rtmr0, tcb_rtmr1 = rtmr1, tcb_rtmr2 = rtmr2, tcb_rtmr3 = rtmr3,
          tcb_os_image_hash = os_image_hash, tcb_compose_hash = compose_hash, tcb_device_id = device_id,
          tcb_app_compose = dtcb_app_compose d, tcb_event_log = evs\<rparr>)))))))))"

definition dstack_try_into ::
  "'col host \<Rightarrow> dto_dstack_attestation \<Rightarrow> collateral dstack_attestation result" where
  "dstack_try_into h d =
     and_then (tcb_info_try_into h (dda_tcb_info d)) (\<lambda>tcb.
     Inr \<lparr>da_quote = dda_quote d, da_collateral = collateral_into_contract_type (dda_collateral d),
          da_tcb_info = tcb\<rparr>)"

definition attestation_try_into :: "'col host \<Rightarrow> dto_attestation \<Rightarrow> collateral attestation result" where
  "attestation_try_into h d =
     (case d of
        DtoDstack da \<Rightarrow> and_then (dstack_try_into h da) (\<lambda>a. Inr (Dstack a))
      | DtoMock m \<Rightarrow> Inr (Mock (mock_into_contract_type m)))"

section \<open>To the interface\<close>

definition mock_into_dto :: "mock_attestation \<Rightarrow> dto_mock_attestation" where
  "mock_into_dto m =
     (case m of MockValid \<Rightarrow> DtoMockValid | MockInvalid \<Rightarrow> DtoMockInvalid
      | WithConstraints i c e \<Rightarrow> DtoWithConstraints i c e)"

definition verified_attestation_into_dto :: "verified_attestation \<Rightarrow> dto_verified_attestation" where
  "verified_attestation_into_dto v =
     (case v of
        VerifiedMock m \<Rightarrow> DtoVerifiedMock (mock_into_dto m)
      | VerifiedDstack d \<Rightarrow> DtoVerifiedDstack
          \<lparr>dvd_mpc_image_hash = vd_mpc_image_hash d,
           dvd_launcher_compose_hash = vd_launcher_compose_hash d,
           dvd_expiry_timestamp_seconds = vd_expiry_timestamp_seconds d\<rparr>)"

definition collateral_into_dto :: "collateral \<Rightarrow> dto_collateral" where
  "collateral_into_dto c =
     \<lparr>dcol_pck_crl_issuer_chain = col_pck_crl_issuer_chain c, dcol_root_ca_crl = col_root_ca_crl c,
      dcol_pck_crl = col_pck_crl c, dcol_tcb_info_issuer_chain = col_tcb_info_issuer_chain c,
      dcol_tcb_info = col_tcb_info c, dcol_tcb_info_signature = col_tcb_info_signature c,
      dcol_qe_identity_issuer_chain = col_qe_identity_issuer_chain c, dcol_qe_identity = col_qe_identity c,
      dcol_qe_identity_signature = col_qe_identity_signature c,
      dcol_pck_certificate_chain = col_pck_certificate_chain c\<rparr>"

definition event_log_into_dto :: "'col host \<Rightarrow> event_log \<Rightarrow> dto_event_log" where
  "event_log_into_dto h e =
     \<lparr>dev_imr = ev_imr e, dev_event_type = ev_event_type e, dev_digest = string_from_hex_bytes h (ev_digest e),
      dev_event = ev_event e, dev_event_payload = ev_event_payload e\<rparr>"

definition tcb_info_into_dto :: "'col host \<Rightarrow> tcb_info \<Rightarrow> dto_tcb_info" where
  "tcb_info_into_dto h t =
     \<lparr>dtcb_mrtd = string_from_hex_bytes h (tcb_mrtd t), dtcb_rtmr0 = string_from_hex_bytes h (tcb_rtmr0 t),
      dtcb_rtmr1 = string_from_hex_bytes h (tcb_rtmr1 t), dtcb_rtmr2 = string_from_hex_bytes h (tcb_rtmr2 t),
      dtcb_rtmr3 = string_from_hex_bytes h (tcb_rtmr3 t),
      dtcb_os_image_hash = (case tcb_os_image_hash t of Some v \<Rightarrow> string_from_hex_bytes h v | None \<Rightarrow> ''''),
      dtcb_compose_hash = string_from_hex_bytes h (tcb_compose_hash t),
      dtcb_device_id = string_from_hex_bytes h (tcb_device_id t),
      dtcb_app_compose = tcb_app_compose t,
      dtcb_event_log = map (event_log_into_dto h) (tcb_event_log t)\<rparr>"

definition dstack_into_dto :: "'col host \<Rightarrow> collateral dstack_attestation \<Rightarrow> dto_dstack_attestation" where
  "dstack_into_dto h d =
     \<lparr>dda_quote = da_quote d, dda_collateral = collateral_into_dto (da_collateral d),
      dda_tcb_info = tcb_info_into_dto h (da_tcb_info d)\<rparr>"

section \<open>Round trip\<close>

text \<open>
  The documented behaviour of \<open>hex\<close>: decoding inverts encoding, and two characters stand for a
  byte.
\<close>

definition hex_law :: "'col host \<Rightarrow> bool" where
  "hex_law h \<longleftrightarrow> (\<forall>bs. h_hex_decode h (h_hex_encode h bs) = Some bs \<and> length (h_hex_encode h bs) = 2 * length bs)"

definition event_log_sized :: "event_log \<Rightarrow> bool" where
  "event_log_sized e \<longleftrightarrow> length (ev_digest e) = 48"

text \<open>The array sizes of the Rust types.\<close>

definition tcb_info_sized :: "tcb_info \<Rightarrow> bool" where
  "tcb_info_sized t \<longleftrightarrow> length (tcb_mrtd t) = 48 \<and> length (tcb_rtmr0 t) = 48 \<and> length (tcb_rtmr1 t) = 48
     \<and> length (tcb_rtmr2 t) = 48 \<and> length (tcb_rtmr3 t) = 48
     \<and> (\<forall>bs. tcb_os_image_hash t = Some bs \<longrightarrow> length bs = 32)
     \<and> length (tcb_compose_hash t) = 32 \<and> length (tcb_device_id t) = 32
     \<and> (\<forall>e \<in> set (tcb_event_log t). event_log_sized e)"

lemma hex_bytes_roundtrip:
  "hex_law h \<Longrightarrow> length bs = n \<Longrightarrow> hex_bytes_try_from h n (string_from_hex_bytes h bs) = Inr bs"
  by (simp add: hex_law_def hex_bytes_try_from_def string_from_hex_bytes_def)

lemma hash32_roundtrip: "hex_law h \<Longrightarrow> length bs = 32 \<Longrightarrow> hash32_from_str h (hash32_as_hex h bs) = Inr bs"
  by (simp add: hex_law_def hash32_from_str_def hash32_as_hex_def)

lemma try_convert_roundtrip:
  "hex_law h \<Longrightarrow> length bs = n \<Longrightarrow> try_convert h n (string_from_hex_bytes h bs) = Inr bs"
  by (simp add: try_convert_def hex_bytes_roundtrip)

lemma event_logs_roundtrip:
  "hex_law h \<Longrightarrow> \<forall>e \<in> set es. event_log_sized e \<Longrightarrow>
   event_logs_try_into h (map (event_log_into_dto h) es) = Inr es"
  by (induction es)
    (simp_all add: event_log_try_into_def event_log_into_dto_def event_log_sized_def try_convert_roundtrip)

lemma hex_encode_empty: "hex_law h \<Longrightarrow> length bs = 32 \<Longrightarrow> string_from_hex_bytes h bs \<noteq> []"
  by (metis hex_law_def length_0_conv mult_eq_0_iff string_from_hex_bytes_def zero_neq_numeral)

lemma tcb_info_roundtrip:
  assumes "hex_law h" "tcb_info_sized t"
  shows "tcb_info_try_into h (tcb_info_into_dto h t) = Inr t"
  using assms hex_encode_empty [OF assms(1)]
  by (cases "tcb_os_image_hash t")
    (simp_all add: tcb_info_try_into_def tcb_info_into_dto_def tcb_info_sized_def try_convert_roundtrip
      event_logs_roundtrip)

lemma try_convert_length: "try_convert h n s = Inr bs \<Longrightarrow> length bs = n"
  by (auto simp: try_convert_def hex_bytes_try_from_def split: sum.splits if_splits option.splits)

lemma event_logs_try_into_sized:
  "event_logs_try_into h es = Inr es' \<Longrightarrow> \<forall>e \<in> set es'. event_log_sized e"
proof (induction es arbitrary: es')
  case (Cons e es)
  obtain d es'' where d: "try_convert h 48 (dev_digest e) = Inr d" "event_logs_try_into h es = Inr es''"
    "es' = \<lparr>ev_imr = dev_imr e, ev_event_type = dev_event_type e, ev_digest = d, ev_event = dev_event e,
       ev_event_payload = dev_event_payload e\<rparr> # es''"
    using Cons.prems by (auto simp: and_then_eq_Inr event_log_try_into_def)
  have "length d = 48"
    using d(1) by (rule try_convert_length)
  then show ?case
    using Cons.IH [OF d(2)] by (simp add: d(3) event_log_sized_def)
qed simp

lemma tcb_info_try_into_sized: "tcb_info_try_into h x = Inr t \<Longrightarrow> tcb_info_sized t"
  unfolding tcb_info_try_into_def
  by (elim and_then_InrE)
    (auto simp: tcb_info_sized_def and_then_eq_Inr split: if_splits
      dest!: try_convert_length event_logs_try_into_sized)


text \<open>A hexadecimal codec that obeys the law, with one letter for the high and one for the low half.\<close>

definition nibble_encode :: "bytes \<Rightarrow> string" where
  "nibble_encode bs = concat (map (\<lambda>b. [char_of (unat b div 16 + 65), char_of (unat b mod 16 + 65)]) bs)"

fun nibble_decode :: "string \<Rightarrow> bytes option" where
  "nibble_decode [] = Some []"
| "nibble_decode [c] = None"
| "nibble_decode (c # d # cs) =
     map_option (\<lambda>bs. of_nat ((of_char c - 65) * 16 + (of_char d - 65)) # bs) (nibble_decode cs)"

lemma nibble_roundtrip: "nibble_decode (nibble_encode bs) = Some bs"
proof (induction bs)
  case (Cons b bs)
  have b: "unat b < 256"
    using unsigned_less [of b, where 'a = nat] by simp
  have "unat b div 16 + 65 < 256" "unat b mod 16 + 65 < 256"
    using b by (auto simp: div_less_iff_less_mult)
  then show ?case
    using Cons by (simp add: nibble_encode_def)
qed (simp add: nibble_encode_def)

definition hex_host :: "collateral host" where
  "hex_host = \<lparr>h_sha256 = (\<lambda>_. replicate 32 0), h_sha384 = (\<lambda>_. replicate 48 0),
     h_sha3_384 = (\<lambda>_. replicate 48 0), h_hex_decode = nibble_decode, h_hex_encode = nibble_encode,
     h_parse_app_compose = (\<lambda>_. None), h_dcap_verify = (\<lambda>_ _ _. None)\<rparr>"

lemma hex_host_law: "hex_law hex_host"
proof -
  have "length (nibble_encode bs) = 2 * length bs" for bs
    by (induction bs) (simp_all add: nibble_encode_def)
  then show ?thesis
    by (simp add: hex_law_def hex_host_def nibble_roundtrip)
qed

definition sample_attestation :: "collateral dstack_attestation" where
  "sample_attestation = \<lparr>da_quote = [1], da_collateral =
     \<lparr>col_pck_crl_issuer_chain = '''', col_root_ca_crl = [], col_pck_crl = [], col_tcb_info_issuer_chain = '''',
      col_tcb_info = '''', col_tcb_info_signature = [], col_qe_identity_issuer_chain = '''', col_qe_identity = '''',
      col_qe_identity_signature = [], col_pck_certificate_chain = None\<rparr>,
    da_tcb_info = \<lparr>tcb_mrtd = replicate 48 1, tcb_rtmr0 = replicate 48 2, tcb_rtmr1 = replicate 48 3,
      tcb_rtmr2 = replicate 48 4, tcb_rtmr3 = replicate 48 5, tcb_os_image_hash = None,
      tcb_compose_hash = replicate 32 6, tcb_device_id = replicate 32 7, tcb_app_compose = ''c'',
      tcb_event_log = [sample_event_log ''e'']\<rparr>\<rparr>"


end
