(* ===== verification/Contract.thy ===== *)
theory Contract
  imports Protocol Tee Updates Migrations Dto_Attestation
begin

text \<open>
  \<open>crates/contract/src/lib.rs\<close>: the state of the contract and its methods. A method takes the
  environment of the call and the state, and returns an error, after which the chain keeps the
  old state, or its result, the new state and what the call schedules: promises on other
  receipts, and yielded or resumed executions.

  The library record holds what the contract links against: the host functions, the curves, the
  sizes of Rust types and the measurements embedded at build time. A method marked \<open>private\<close>
  refuses calls that do not come from the contract itself.
\<close>

section \<open>State\<close>

record ('pt, 'af) lib =
  l_host :: "collateral host"
  l_curves :: "('pt, 'af) curves"
  l_sizes :: update_sizes
  l_measurements :: "expected_measurements list"

record metrics =
  me_sign_with_v1_payload_count :: u64
  me_sign_with_v2_payload_count :: u64

record 'pt mpc_contract =
  mc_protocol_state :: "'pt protocol_state"
  mc_pending_signature_requests :: "signature_request \<rightharpoonup> bytes"
  mc_pending_ckd_requests :: "ckd_request \<rightharpoonup> bytes"
  mc_pending_verify_foreign_tx_requests :: "verify_foreign_tx_request \<rightharpoonup> bytes"
  mc_proposed_updates :: proposed_updates
  mc_foreign_chain_policy :: foreign_chain_policy
  mc_foreign_chain_policy_votes :: "(account_id, foreign_chain_policy) iterable_map"
  mc_config :: config
  mc_tee_state :: tee_state
  mc_accept_requests :: bool
  mc_node_migrations :: node_migrations
  mc_metrics :: metrics

record ckd_response =
  cp_big_y :: bytes
  cp_big_c :: bytes

datatype yielded = YieldSign signature_request | YieldCkd ckd_request | YieldForeign verify_foreign_tx_request

datatype response =
    RespSignature signature_response
  | RespCkd ckd_response
  | RespForeign verify_foreign_tx_response

datatype effect =
    Scheduled promise
  | YieldCreated yielded u64 bytes
  | YieldResumed bytes response

type_synonym ('a, 'pt) call = "('a \<times> 'pt mpc_contract \<times> effect list) result"

definition MINIMUM_SIGN_REQUEST_DEPOSIT :: u128 where
  "MINIMUM_SIGN_REQUEST_DEPOSIT = 1"

definition MINIMUM_CKD_REQUEST_DEPOSIT :: u128 where
  "MINIMUM_CKD_REQUEST_DEPOSIT = 1"

section \<open>Callers\<close>

definition caller_is_signer :: "env \<Rightarrow> bool" where
  "caller_is_signer env \<longleftrightarrow> signer_account_id env = predecessor_account_id env"

definition assert_caller_is_signer :: "env \<Rightarrow> account_id result" where
  "assert_caller_is_signer env =
     (if signer_account_id env = predecessor_account_id env then Inr (signer_account_id env)
      else Inl (PanicMsg ''Caller must be the signer account''))"

definition assert_private :: "env \<Rightarrow> unit result" where
  "assert_private env =
     ensure (predecessor_account_id env = current_account_id env) (PanicMsg ''Method is private'')"

definition voter_account :: "env \<Rightarrow> 'pt mpc_contract \<Rightarrow> account_id result" where
  "voter_account env c =
     (if \<not> caller_is_signer env then Inl (ParamsErr CallerNotSigner)
      else and_then (authenticate_update_vote env (mc_protocol_state c)) (\<lambda>_. Inr (signer_account_id env)))"

definition voter_or_panic :: "env \<Rightarrow> 'pt mpc_contract \<Rightarrow> account_id result" where
  "voter_or_panic env c =
     and_then (assert_caller_is_signer env) (\<lambda>_.
     case voter_account env c of Inr voter \<Rightarrow> Inr voter | Inl _ \<Rightarrow> Inl (PanicMsg ''not a voter''))"

definition assert_caller_is_attested_participant_and_protocol_active :: "env \<Rightarrow> 'pt mpc_contract \<Rightarrow> unit result" where
  "assert_caller_is_attested_participant_and_protocol_active env c =
     and_then (active_participants (mc_protocol_state c)) (\<lambda>ps.
     and_then (assert_caller_is_signer env) (\<lambda>_.
     case is_caller_an_attested_participant env ps (mc_tee_state c) of
       Inr _ \<Rightarrow> Inr ()
     | Inl _ \<Rightarrow> Inl (PanicMsg ''Caller must be an attested participant'')))"

definition tee_upgrade_deadline_duration :: "'pt mpc_contract \<Rightarrow> duration" where
  "tee_upgrade_deadline_duration c = duration_from_secs (cfg_tee_upgrade_deadline_duration_seconds (mc_config c))"

section \<open>User requests\<close>

text \<open>The gas check and the deposit check, with the refund, that the three request methods share.\<close>

definition require_gas :: "env \<Rightarrow> u64 \<Rightarrow> unit result" where
  "require_gas env tgas = ensure (gas_from_tgas tgas \<le> prepaid_gas env) (ParamsErr InsufficientGas)"

definition take_deposit :: "env \<Rightarrow> u128 \<Rightarrow> effect list result" where
  "take_deposit env minimum =
     (case token_checked_sub (attached_deposit env) minimum of
        None \<Rightarrow> Inl (ParamsErr InsufficientDeposit)
      | Some diff \<Rightarrow>
          Inr (if 0 < diff then [Scheduled (predecessor_account_id env, [TransferAction diff])] else []))"

text \<open>\<open>env::read_register\<close> after \<open>promise_yield_create\<close>, converted to a \<open>CryptoHash\<close>.\<close>

definition read_data_id :: "env \<Rightarrow> bytes result" where
  "read_data_id env = (if length (yield_data_id env) = 32 then Inr (yield_data_id env) else Inl Panicked)"

definition target_domain :: "'pt mpc_contract \<Rightarrow> domain_id \<Rightarrow> domain_purpose \<Rightarrow> domain_config result" where
  "target_domain c i purpose =
     and_then (protocol_domain_registry (mc_protocol_state c)) (\<lambda>domains.
     and_then (ok_or (get_domain_by_domain_id domains i) (ParamsErr (invalid_parameters.DomainNotFound i))) (\<lambda>d.
     and_then (ensure (dc_purpose d = purpose) (ParamsErr (WrongDomainPurpose (dc_id d) purpose (dc_purpose d)))) (\<lambda>_.
     Inr d)))"

definition check_payload_for_scheme :: "('pt, 'af) curves \<Rightarrow> signature_scheme \<Rightarrow> payload \<Rightarrow> unit result" where
  "check_payload_for_scheme C scheme pl =
     (if scheme = Secp256k1 \<or> scheme = V2Secp256k1 then
        and_then (as_ecdsa pl) (\<lambda>hash.
        and_then (ok_or hash Panicked) (\<lambda>bs.
        and_then (ok_or (c_k256_scalar C bs) Panicked) (\<lambda>_. Inr ())))
      else if scheme = Ed25519 then and_then (ok_or (as_eddsa pl) Panicked) (\<lambda>_. Inr ())
      else Inl (ParamsErr InvalidDomainId))"

definition add_signature_request ::
  "signature_request \<Rightarrow> bytes \<Rightarrow> 'pt mpc_contract \<Rightarrow> bool \<times> 'pt mpc_contract" where
  "add_signature_request request data_id c =
     (mc_pending_signature_requests c request \<noteq> None,
      c\<lparr>mc_pending_signature_requests := (mc_pending_signature_requests c)(request \<mapsto> data_id)\<rparr>)"

definition add_ckd_request :: "ckd_request \<Rightarrow> bytes \<Rightarrow> 'pt mpc_contract \<Rightarrow> bool \<times> 'pt mpc_contract" where
  "add_ckd_request request data_id c =
     (mc_pending_ckd_requests c request \<noteq> None,
      c\<lparr>mc_pending_ckd_requests := (mc_pending_ckd_requests c)(request \<mapsto> data_id)\<rparr>)"

definition add_verify_foreign_tx_request ::
  "verify_foreign_tx_request \<Rightarrow> bytes \<Rightarrow> 'pt mpc_contract \<Rightarrow> bool \<times> 'pt mpc_contract" where
  "add_verify_foreign_tx_request request data_id c =
     (mc_pending_verify_foreign_tx_requests c request \<noteq> None,
      c\<lparr>mc_pending_verify_foreign_tx_requests :=
          (mc_pending_verify_foreign_tx_requests c)(request \<mapsto> data_id)\<rparr>)"

definition count_sign_call :: "sign_request_args \<Rightarrow> metrics \<Rightarrow> metrics" where
  "count_sign_call args m =
     (let m1 = (if sa_deprecated_payload args \<noteq> None
          then m\<lparr>me_sign_with_v1_payload_count := me_sign_with_v1_payload_count m + 1\<rparr> else m) in
      if sa_payload_v2 args \<noteq> None
      then m1\<lparr>me_sign_with_v2_payload_count := me_sign_with_v2_payload_count m1 + 1\<rparr> else m1)"

definition contract_sign :: "('pt, 'af) lib \<Rightarrow> env \<Rightarrow> sign_request_args \<Rightarrow> 'pt mpc_contract \<Rightarrow> (unit, 'pt) call" where
  "contract_sign L env args c0 =
     (let c = c0\<lparr>mc_metrics := count_sign_call args (mc_metrics c0)\<rparr> in
      and_then (sign_request_try_from args) (\<lambda>request.
      and_then (target_domain c (sq_domain_id request) Sign) (\<lambda>d.
      and_then (check_payload_for_scheme (l_curves L) (dc_scheme d) (sq_payload request)) (\<lambda>_.
      and_then (require_gas env (cfg_sign_call_gas_attachment_requirement_tera_gas (mc_config c))) (\<lambda>_.
      and_then (take_deposit env MINIMUM_SIGN_REQUEST_DEPOSIT) (\<lambda>refund.
      let sr = signature_request_new (l_curves L) (sq_domain_id request) (sq_payload request)
            (predecessor_account_id env) (sq_path request) in
      and_then (ensure (mc_accept_requests c) (TeeErr TeeValidationFailed)) (\<lambda>_.
      let callback_gas = gas_from_tgas (cfg_return_signature_and_clean_state_on_success_call_tera_gas (mc_config c)) in
      and_then (read_data_id env) (\<lambda>data_id.
      let (present, c') = add_signature_request sr data_id c in
      Inr ((), c', refund @ [YieldCreated (YieldSign sr) callback_gas data_id])))))))))"

definition request_app_private_key ::
  "('pt, 'af) lib \<Rightarrow> env \<Rightarrow> ckd_request_args \<Rightarrow> 'pt mpc_contract \<Rightarrow> (unit, 'pt) call" where
  "request_app_private_key L env args c =
     and_then (target_domain c (ca_domain_id args) CKD) (\<lambda>d.
     and_then (require_gas env (cfg_ckd_call_gas_attachment_requirement_tera_gas (mc_config c))) (\<lambda>_.
     and_then (take_deposit env MINIMUM_CKD_REQUEST_DEPOSIT) (\<lambda>refund.
     and_then (ensure (mc_accept_requests c) (TeeErr TeeValidationFailed)) (\<lambda>_.
     let request = ckd_request_new (l_curves L) (ca_app_public_key args) (ca_domain_id args)
           (predecessor_account_id env) (ca_derivation_path args);
         callback_gas = gas_from_tgas (cfg_return_ck_and_clean_state_on_success_call_tera_gas (mc_config c)) in
     and_then (read_data_id env) (\<lambda>data_id.
     let (present, c') = add_ckd_request request data_id c in
     Inr ((), c', refund @ [YieldCreated (YieldCkd request) callback_gas data_id]))))))"

definition verify_foreign_transaction ::
  "env \<Rightarrow> verify_foreign_tx_request_args \<Rightarrow> 'pt mpc_contract \<Rightarrow> (unit, 'pt) call" where
  "verify_foreign_transaction env args c =
     and_then (target_domain c (va_domain_id args) ForeignTx) (\<lambda>d.
     and_then (ensure (fcp_chains (mc_foreign_chain_policy c) (request_chain (va_request args)) \<noteq> None)
         (ParamsErr (ChainNotInPolicy (request_chain (va_request args))))) (\<lambda>_.
     and_then (require_gas env (cfg_sign_call_gas_attachment_requirement_tera_gas (mc_config c))) (\<lambda>_.
     and_then (take_deposit env MINIMUM_SIGN_REQUEST_DEPOSIT) (\<lambda>refund.
     and_then (ensure (mc_accept_requests c) (TeeErr TeeValidationFailed)) (\<lambda>_.
     let callback_gas = gas_from_tgas (cfg_return_signature_and_clean_state_on_success_call_tera_gas (mc_config c));
         request = args_into_verify_foreign_tx_request args in
     and_then (read_data_id env) (\<lambda>data_id.
     let (present, c') = add_verify_foreign_tx_request request data_id c in
     Inr ((), c', refund @ [YieldCreated (YieldForeign request) callback_gas data_id])))))))"

section \<open>Views\<close>

definition contract_public_key :: "domain_id option \<Rightarrow> 'pt mpc_contract \<Rightarrow> public_key result" where
  "contract_public_key i c =
     and_then (protocol_public_key (mc_protocol_state c) (case i of Some d \<Rightarrow> d | None \<Rightarrow> legacy_ecdsa_id)) (\<lambda>k.
     case public_key_from_extended k of Inr pk \<Rightarrow> Inr pk | Inl _ \<Rightarrow> Inl Panicked)"

text \<open>The secp256k1 point of a stored key; both conversions are expected to succeed.\<close>

definition stored_secp256k1_point :: "('pt, 'af) curves \<Rightarrow> near_public_key \<Rightarrow> 'af result" where
  "stored_secp256k1_point C near_key =
     (case secp256k1_try_from_near near_key of
        Inl _ \<Rightarrow> Inl Panicked
      | Inr secp_pk \<Rightarrow> (case k256_try_from_secp256k1 C secp_pk of Inl _ \<Rightarrow> Inl Panicked | Inr p \<Rightarrow> Inr p))"

definition derived_public_key ::
  "('pt, 'af) lib \<Rightarrow> env \<Rightarrow> string \<Rightarrow> account_id option \<Rightarrow> domain_id option \<Rightarrow> 'pt mpc_contract \<Rightarrow> public_key result" where
  "derived_public_key L env path predecessor i c =
     (let C = l_curves L;
          account = (case predecessor of Some a \<Rightarrow> a | None \<Rightarrow> predecessor_account_id env);
          tweak = derive_tweak C account path in
      and_then (protocol_public_key (mc_protocol_state c) (case i of Some d \<Rightarrow> d | None \<Rightarrow> legacy_ecdsa_id)) (\<lambda>k.
      case k of
        PkSecp256k1 near_key \<Rightarrow>
          and_then (stored_secp256k1_point C near_key) (\<lambda>affine.
          case derive_key_secp256k1 C affine tweak of
            Inr bs \<Rightarrow> Inr (DtoSecp256k1 bs)
          | Inl Panic \<Rightarrow> Inl Panicked
          | Inl (Failed _) \<Rightarrow> Inl (PublicKeyErr public_key_error.TweakNotOnCurve))
      | PkEd25519 _ edwards_point \<Rightarrow>
          Inr (DtoEd25519 (c_compress C (derive_public_key_edwards_point_ed25519 C edwards_point tweak)))
      | PkBls12381 pk \<Rightarrow> Inr pk))"

definition latest_key_version :: "signature_scheme option \<Rightarrow> 'pt mpc_contract \<Rightarrow> u32 result" where
  "latest_key_version scheme c =
     (case protocol_most_recent_domain_for_protocol (mc_protocol_state c)
          (case scheme of Some s \<Rightarrow> s | None \<Rightarrow> Secp256k1) of
        Inr i \<Rightarrow> Inr (ucast i)
      | Inl _ \<Rightarrow> Inl Panicked)"

definition get_attestation :: "bytes \<Rightarrow> 'pt mpc_contract \<Rightarrow> dto_verified_attestation option result" where
  "get_attestation tls_public_key c =
     (case near_from_ed25519 tls_public_key of
        Inl (_ :: unit failure) \<Rightarrow> Inl Panicked
      | Inr k \<Rightarrow> Inr (map_option (\<lambda>na. verified_attestation_into_dto (na_verified_attestation na))
            (bt_get (ts_stored_attestations (mc_tee_state c)) k)))"

definition allowed_docker_image_hashes :: "env \<Rightarrow> 'pt mpc_contract \<Rightarrow> docker_image_hash list" where
  "allowed_docker_image_hashes env c =
     rev (map ai_image_hash (get_allowed_mpc_docker_images env (tee_upgrade_deadline_duration c) (mc_tee_state c)))"

definition get_foreign_chain_policy_proposals ::
  "'pt mpc_contract \<Rightarrow> (account_id, foreign_chain_policy) btree_map" where
  "get_foreign_chain_policy_proposals c =
     fold (\<lambda>(account_id, policy). bt_insert account_id policy) (mc_foreign_chain_policy_votes c) []"

section \<open>Responses of the nodes\<close>

definition respond ::
  "('pt, 'af) lib \<Rightarrow> env \<Rightarrow> signature_request \<Rightarrow> signature_response \<Rightarrow> 'pt mpc_contract \<Rightarrow> (unit, 'pt) call" where
  "respond L env request resp c =
     (let C = l_curves L in
      and_then (assert_caller_is_signer env) (\<lambda>_.
      and_then (assert_caller_is_attested_participant_and_protocol_active env c) (\<lambda>_.
      and_then (ensure (is_running_or_resharing (mc_protocol_state c)) (StateErr ProtocolStateNotRunning)) (\<lambda>_.
      and_then (ensure (mc_accept_requests c) (TeeErr TeeValidationFailed)) (\<lambda>_.
      and_then (protocol_public_key (mc_protocol_state c) (sr_domain_id request)) (\<lambda>public_key.
      and_then (case (resp, public_key) of
          (SigSecp256k1 signature_response, PkSecp256k1 near_key) \<Rightarrow>
            and_then (stored_secp256k1_point C near_key) (\<lambda>affine.
            and_then (case derive_key_secp256k1 C affine (sr_tweak request) of
                Inr bs \<Rightarrow> Inr bs
              | Inl Panic \<Rightarrow> Inl Panicked
              | Inl (Failed _) \<Rightarrow> Inl (RespondErr respond_error.TweakNotOnCurve)) (\<lambda>expected_public_key.
            and_then (as_ecdsa (sr_payload request)) (\<lambda>hash.
            and_then (ok_or hash Panicked) (\<lambda>payload_hash.
            Inr (is_ok (verify_ecdsa_signature C signature_response payload_hash expected_public_key))))))
        | (SigEd25519 signature, PkEd25519 _ edwards_point) \<Rightarrow>
            (let derived = c_compress C (derive_public_key_edwards_point_ed25519 C edwards_point (sr_tweak request)) in
             and_then (ok_or (as_eddsa (sr_payload request)) Panicked) (\<lambda>message.
             Inr (is_ok (verify_eddsa_signature C signature message derived))))
        | _ \<Rightarrow> Inl (RespondErr SignatureSchemeMismatch)) (\<lambda>signature_is_valid.
      and_then (ensure signature_is_valid (RespondErr InvalidSignature)) (\<lambda>_.
      case mc_pending_signature_requests c request of
        Some data_id \<Rightarrow>
          Inr ((), c\<lparr>mc_pending_signature_requests := (mc_pending_signature_requests c)(request := None)\<rparr>,
               [YieldResumed data_id (RespSignature resp)])
      | None \<Rightarrow> Inl (ParamsErr RequestNotFound)))))))))"

definition respond_ckd ::
  "env \<Rightarrow> ckd_request \<Rightarrow> ckd_response \<Rightarrow> 'pt mpc_contract \<Rightarrow> (unit, 'pt) call" where
  "respond_ckd env request resp c =
     and_then (assert_caller_is_signer env) (\<lambda>_.
     and_then (ensure (is_running_or_resharing (mc_protocol_state c)) (StateErr ProtocolStateNotRunning)) (\<lambda>_.
     and_then (ensure (mc_accept_requests c) (TeeErr TeeValidationFailed)) (\<lambda>_.
     and_then (assert_caller_is_attested_participant_and_protocol_active env c) (\<lambda>_.
     case mc_pending_ckd_requests c request of
       Some data_id \<Rightarrow>
         Inr ((), c\<lparr>mc_pending_ckd_requests := (mc_pending_ckd_requests c)(request := None)\<rparr>,
              [YieldResumed data_id (RespCkd resp)])
     | None \<Rightarrow> Inl (ParamsErr RequestNotFound)))))"

definition respond_verify_foreign_tx ::
  "('pt, 'af) lib \<Rightarrow> env \<Rightarrow> verify_foreign_tx_request \<Rightarrow> verify_foreign_tx_response \<Rightarrow> 'pt mpc_contract
    \<Rightarrow> (unit, 'pt) call" where
  "respond_verify_foreign_tx L env request resp c =
     (let C = l_curves L in
      and_then (assert_caller_is_signer env) (\<lambda>_.
      and_then (assert_caller_is_attested_participant_and_protocol_active env c) (\<lambda>_.
      and_then (ensure (is_running_or_resharing (mc_protocol_state c)) (StateErr ProtocolStateNotRunning)) (\<lambda>_.
      and_then (ensure (mc_accept_requests c) (TeeErr TeeValidationFailed)) (\<lambda>_.
      and_then (protocol_public_key (mc_protocol_state c) (vf_domain_id request)) (\<lambda>public_key.
      and_then (case (vr_signature resp, public_key) of
          (SigSecp256k1 signature_response, PkSecp256k1 near_key) \<Rightarrow>
            (case secp256k1_try_from_near near_key of
               Inl _ \<Rightarrow> Inl Panicked
             | Inr secp_pk \<Rightarrow>
                 Inr (is_ok (verify_ecdsa_signature C signature_response (vr_payload_hash resp) secp_pk)))
        | _ \<Rightarrow> Inl (RespondErr SignatureSchemeMismatch)) (\<lambda>signature_is_valid.
      and_then (ensure signature_is_valid (RespondErr InvalidSignature)) (\<lambda>_.
      case mc_pending_verify_foreign_tx_requests c request of
        Some data_id \<Rightarrow>
          Inr ((), c\<lparr>mc_pending_verify_foreign_tx_requests :=
                 (mc_pending_verify_foreign_tx_requests c)(request := None)\<rparr>,
               [YieldResumed data_id (RespForeign resp)])
      | None \<Rightarrow> Inl (ParamsErr RequestNotFound)))))))))"

text \<open>The callbacks of the yielded executions: \<open>resp\<close> is missing when the request timed out.\<close>

definition fail_on_timeout_promise :: "env \<Rightarrow> 'pt mpc_contract \<Rightarrow> effect" where
  "fail_on_timeout_promise env c =
     Scheduled (current_account_id env,
       [FunctionCall ''fail_on_timeout'' None (gas_from_tgas (cfg_fail_on_timeout_tera_gas (mc_config c)))])"

definition return_signature_and_clean_state_on_success ::
  "env \<Rightarrow> signature_request \<Rightarrow> signature_response option \<Rightarrow> 'pt mpc_contract
    \<Rightarrow> (signature_response option, 'pt) call" where
  "return_signature_and_clean_state_on_success env request resp c =
     and_then (assert_private env) (\<lambda>_.
     case resp of
       Some signature \<Rightarrow> Inr (Some signature, c, [])
     | None \<Rightarrow> Inr (None, c\<lparr>mc_pending_signature_requests := (mc_pending_signature_requests c)(request := None)\<rparr>,
         [fail_on_timeout_promise env c]))"

definition return_ck_and_clean_state_on_success ::
  "env \<Rightarrow> ckd_request \<Rightarrow> ckd_response option \<Rightarrow> 'pt mpc_contract \<Rightarrow> (ckd_response option, 'pt) call" where
  "return_ck_and_clean_state_on_success env request resp c =
     and_then (assert_private env) (\<lambda>_.
     case resp of
       Some ck \<Rightarrow> Inr (Some ck, c, [])
     | None \<Rightarrow> Inr (None, c\<lparr>mc_pending_ckd_requests := (mc_pending_ckd_requests c)(request := None)\<rparr>,
         [fail_on_timeout_promise env c]))"

definition return_verify_foreign_tx_and_clean_state_on_success ::
  "env \<Rightarrow> verify_foreign_tx_request \<Rightarrow> verify_foreign_tx_response option \<Rightarrow> 'pt mpc_contract
    \<Rightarrow> (verify_foreign_tx_response option, 'pt) call" where
  "return_verify_foreign_tx_and_clean_state_on_success env request resp c =
     and_then (assert_private env) (\<lambda>_.
     case resp of
       Some r \<Rightarrow> Inr (Some r, c, [])
     | None \<Rightarrow> Inr (None, c\<lparr>mc_pending_verify_foreign_tx_requests :=
           (mc_pending_verify_foreign_tx_requests c)(request := None)\<rparr>,
         [fail_on_timeout_promise env c]))"

definition fail_on_timeout :: "env \<Rightarrow> unit result" where
  "fail_on_timeout env = and_then (assert_private env) (\<lambda>_. Inl (PanicMsg ''Request has timed out.''))"

section \<open>Attestations\<close>

definition submit_participant_info ::
  "('pt, 'af) lib \<Rightarrow> env \<Rightarrow> dto_attestation \<Rightarrow> bytes \<Rightarrow> 'pt mpc_contract \<Rightarrow> (unit, 'pt) call" where
  "submit_participant_info L env proposed tls_public_key c =
     and_then (attestation_try_into (l_host L) proposed) (\<lambda>attestation.
     and_then (assert_caller_is_signer env) (\<lambda>account_id.
     and_then (case near_from_ed25519 tls_public_key of
         Inr k \<Rightarrow> Inr k | Inl (_ :: unit failure) \<Rightarrow> Inl Panicked) (\<lambda>tls_key.
     let node = \<lparr>ni_account_id = account_id, ni_tls_public_key = tls_key,
           ni_account_public_key = Some (signer_account_pk env)\<rparr> in
     and_then (case add_participant env (l_host L) (l_measurements L) node attestation
           (tee_upgrade_deadline_duration c) (mc_tee_state c) of
         Inr r \<Rightarrow> Inr r
       | Inl Panic \<Rightarrow> Inl Panicked
       | Inl (Failed _) \<Rightarrow> Inl (ParamsErr InvalidTeeRemoteAttestation)) (\<lambda>(insertion, ts).
     let c' = c\<lparr>mc_tee_state := ts\<rparr>;
         caller_is_not_participant = (\<not> is_ok (voter_account env c'));
         is_new_attestation = (insertion = NewlyInsertedParticipant) in
     if is_new_attestation \<or> caller_is_not_participant then
       let storage_used = storage_usage_after env - storage_usage_before env;
           cost = token_saturating_mul (storage_byte_cost env) (ucast storage_used) in
       if attached_deposit env < cost then Inl (ParamsErr InsufficientDeposit)
       else Inr ((), c', case token_checked_sub (attached_deposit env) cost of
           Some diff \<Rightarrow> if 0 < diff then [Scheduled (account_id, [TransferAction diff])] else []
         | None \<Rightarrow> [])
     else Inr ((), c', [])))))"

definition vote_code_hash ::
  "('pt, 'af) lib \<Rightarrow> env \<Rightarrow> docker_image_hash \<Rightarrow> 'pt mpc_contract \<Rightarrow> (unit, 'pt) call" where
  "vote_code_hash L env code_hash c =
     and_then (voter_or_panic env c) (\<lambda>_.
     and_then (case protocol_threshold_parameters (mc_protocol_state c) of
         Inr tp \<Rightarrow> Inr tp | Inl _ \<Rightarrow> Inl (PanicMsg ''Contract is not initialized'')) (\<lambda>tp.
     and_then (authenticated_participant_id env (tp_participants tp)) (\<lambda>participant.
     let (votes, ts) = tee_vote code_hash participant (mc_tee_state c) in
     and_then (protocol_threshold (mc_protocol_state c)) (\<lambda>threshold.
     if threshold \<le> votes then
       and_then (whitelist_tee_proposal env (l_host L) code_hash (tee_upgrade_deadline_duration c) ts)
         (\<lambda>ts'. Inr ((), c\<lparr>mc_tee_state := ts'\<rparr>, []))
     else Inr ((), c\<lparr>mc_tee_state := ts\<rparr>, [])))))"

text \<open>\<open>verify_tee\<close> in the running state.\<close>

definition verify_tee_running :: "env \<Rightarrow> 'pt running_state \<Rightarrow> 'pt mpc_contract \<Rightarrow> (bool, 'pt) call" where
  "verify_tee_running env rs c =
     (let current_params = rs_parameters rs;
          (validation, ts) = reverify_and_cleanup_participants env (tp_participants current_params)
            (tee_upgrade_deadline_duration c) (mc_tee_state c);
          c1 = c\<lparr>mc_tee_state := ts\<rparr> in
      case validation of
        TeeFull \<Rightarrow> Inr (True, c1\<lparr>mc_accept_requests := True\<rparr>, [])
      | TeePartial valid \<Rightarrow>
          let threshold = (ucast (tp_threshold current_params) :: u32);
              remaining = participants_len valid in
          if remaining < unat threshold then Inr (False, c1\<lparr>mc_accept_requests := False\<rparr>, [])
          else
            let c2 = c1\<lparr>mc_accept_requests := True\<rparr> in
            (case threshold_parameters_new valid (ucast threshold) of
               Inl _ \<Rightarrow> Inl Panicked
             | Inr proposal \<Rightarrow>
                 and_then (validate_incoming_proposal current_params proposal) (\<lambda>_.
                 let (res, rs') = transition_to_resharing_no_checks proposal rs in
                 Inr (True, c2\<lparr>mc_protocol_state := (case res of
                     Some resharing \<Rightarrow> Resharing resharing | None \<Rightarrow> Running rs')\<rparr>, []))))"

definition verify_tee :: "env \<Rightarrow> 'pt mpc_contract \<Rightarrow> (bool, 'pt) call" where
  "verify_tee env c =
     and_then (voter_or_panic env c) (\<lambda>_.
     case mc_protocol_state c of
       Running rs \<Rightarrow> verify_tee_running env rs c
     | _ \<Rightarrow> Inl (StateErr ProtocolStateNotRunning))"

definition clean_tee_status :: "env \<Rightarrow> 'pt mpc_contract \<Rightarrow> (unit, 'pt) call" where
  "clean_tee_status env c =
     and_then (assert_private env) (\<lambda>_.
     case mc_protocol_state c of
       Running rs \<Rightarrow> Inr ((), c\<lparr>mc_tee_state := clean_non_participants (rs_participants rs) (mc_tee_state c)\<rparr>, [])
     | _ \<Rightarrow> Inl (StateErr ProtocolStateNotRunning))"

section \<open>Votes on parameters, domains and keys\<close>

text \<open>A vote on the protocol state, applied: the contract moves to the state the vote leads to.\<close>

definition apply_vote ::
  "('pt protocol_state option \<times> 'pt protocol_state) result \<Rightarrow> 'pt mpc_contract \<Rightarrow> (unit, 'pt) call" where
  "apply_vote r c = and_then r (\<lambda>x. Inr ((), c\<lparr>mc_protocol_state := settle x\<rparr>, []))"

definition apply_start :: "'pt protocol_state result \<Rightarrow> 'pt mpc_contract \<Rightarrow> (unit, 'pt) call" where
  "apply_start r c = and_then r (\<lambda>s. Inr ((), c\<lparr>mc_protocol_state := s\<rparr>, []))"

definition vote_new_parameters ::
  "env \<Rightarrow> epoch_id \<Rightarrow> threshold_parameters \<Rightarrow> 'pt mpc_contract \<Rightarrow> (unit, 'pt) call" where
  "vote_new_parameters env prospective_epoch proposal c =
     (let (validation, ts) = reverify_and_cleanup_participants env (tp_participants proposal)
            (tee_upgrade_deadline_duration c) (mc_tee_state c);
          c1 = c\<lparr>mc_tee_state := ts\<rparr> in
      case validation of
        TeeFull \<Rightarrow> apply_vote (protocol_vote_new_parameters env prospective_epoch proposal (mc_protocol_state c1)) c1
      | TeePartial _ \<Rightarrow> Inl (ParamsErr InvalidTeeRemoteAttestation))"

definition vote_add_domains :: "env \<Rightarrow> domain_config list \<Rightarrow> 'pt mpc_contract \<Rightarrow> (unit, 'pt) call" where
  "vote_add_domains env domains c = apply_vote (protocol_vote_add_domains env domains (mc_protocol_state c)) c"

definition policy_votes_for :: "participants \<Rightarrow> foreign_chain_policy \<Rightarrow> (account_id, foreign_chain_policy) iterable_map \<Rightarrow> nat" where
  "policy_votes_for ps policy votes =
     length (filter (\<lambda>(account_id, _, _). im_get votes account_id = Some policy) (ps_participants ps))"

definition vote_foreign_chain_policy :: "env \<Rightarrow> foreign_chain_policy \<Rightarrow> 'pt mpc_contract \<Rightarrow> (unit, 'pt) call" where
  "vote_foreign_chain_policy env policy c =
     (case mc_protocol_state c of
        Running rs \<Rightarrow>
          and_then (authenticated_account_id env (rs_participants rs)) (\<lambda>voter.
          let votes = im_insert voter policy (mc_foreign_chain_policy_votes c);
              total_votes = policy_votes_for (rs_participants rs) policy votes in
          if total_votes = participants_len (rs_participants rs)
          then Inr ((), c\<lparr>mc_foreign_chain_policy := policy, mc_foreign_chain_policy_votes := []\<rparr>, [])
          else Inr ((), c\<lparr>mc_foreign_chain_policy_votes := votes\<rparr>, []))
      | _ \<Rightarrow> Inl (PanicMsg ''protocol must be in running state''))"

definition start_keygen_instance :: "env \<Rightarrow> key_event_id \<Rightarrow> 'pt mpc_contract \<Rightarrow> (unit, 'pt) call" where
  "start_keygen_instance env kei c =
     and_then (assert_caller_is_attested_participant_and_protocol_active env c) (\<lambda>_.
     apply_start (protocol_start_keygen_instance env kei (cfg_key_event_timeout_blocks (mc_config c))
       (mc_protocol_state c)) c)"

definition vote_pk :: "('pt, 'af) lib \<Rightarrow> env \<Rightarrow> key_event_id \<Rightarrow> public_key \<Rightarrow> 'pt mpc_contract \<Rightarrow> (unit, 'pt) call" where
  "vote_pk L env kei pk c =
     and_then (assert_caller_is_attested_participant_and_protocol_active env c) (\<lambda>_.
     and_then (case extended_try_from_public_key (c_decompress (l_curves L)) pk of
         Inr k \<Rightarrow> Inr k
       | Inl Panic \<Rightarrow> Inl Panicked
       | Inl (Failed _) \<Rightarrow> Inl (ParamsErr MalformedPayload)) (\<lambda>extended_key.
     apply_vote (protocol_vote_pk env kei extended_key (mc_protocol_state c)) c))"

definition start_reshare_instance :: "env \<Rightarrow> key_event_id \<Rightarrow> 'pt mpc_contract \<Rightarrow> (unit, 'pt) call" where
  "start_reshare_instance env kei c =
     and_then (assert_caller_is_attested_participant_and_protocol_active env c) (\<lambda>_.
     apply_start (protocol_start_reshare_instance env kei (cfg_key_event_timeout_blocks (mc_config c))
       (mc_protocol_state c)) c)"

definition own_call :: "env \<Rightarrow> string \<Rightarrow> u64 \<Rightarrow> effect" where
  "own_call env method tgas = Scheduled (current_account_id env, [FunctionCall method None (gas_from_tgas tgas)])"

definition vote_reshared :: "env \<Rightarrow> key_event_id \<Rightarrow> 'pt mpc_contract \<Rightarrow> (unit, 'pt) call" where
  "vote_reshared env kei c =
     and_then (assert_caller_is_attested_participant_and_protocol_active env c) (\<lambda>_.
     and_then (protocol_vote_reshared env kei (mc_protocol_state c)) (\<lambda>r.
     Inr ((), c\<lparr>mc_protocol_state := settle r\<rparr>,
       case fst r of
         Some _ \<Rightarrow>
           [own_call env ''remove_non_participant_update_votes''
              (cfg_remove_non_participant_update_votes_tera_gas (mc_config c)),
            own_call env ''clean_tee_status'' (cfg_clean_tee_status_tera_gas (mc_config c)),
            own_call env ''cleanup_orphaned_node_migrations''
              (cfg_cleanup_orphaned_node_migrations_tera_gas (mc_config c))]
       | None \<Rightarrow> [])))"

definition vote_cancel_resharing :: "env \<Rightarrow> 'pt mpc_contract \<Rightarrow> (unit, 'pt) call" where
  "vote_cancel_resharing env c = apply_vote (protocol_vote_cancel_resharing env (mc_protocol_state c)) c"

definition vote_cancel_keygen :: "env \<Rightarrow> u64 \<Rightarrow> 'pt mpc_contract \<Rightarrow> (unit, 'pt) call" where
  "vote_cancel_keygen env next_domain_id c =
     apply_vote (protocol_vote_cancel_keygen env next_domain_id (mc_protocol_state c)) c"

definition vote_abort_key_event_instance :: "env \<Rightarrow> key_event_id \<Rightarrow> 'pt mpc_contract \<Rightarrow> (unit, 'pt) call" where
  "vote_abort_key_event_instance env kei c =
     and_then (assert_caller_is_attested_participant_and_protocol_active env c) (\<lambda>_.
     apply_start (protocol_vote_abort_key_event_instance env kei (mc_protocol_state c)) c)"

section \<open>Updates of the contract\<close>

definition propose_update ::
  "('pt, 'af) lib \<Rightarrow> env \<Rightarrow> propose_update_args \<Rightarrow> 'pt mpc_contract \<Rightarrow> (update_id, 'pt) call" where
  "propose_update L env args c =
     and_then (voter_or_panic env c) (\<lambda>proposer.
     and_then (update_try_from args) (\<lambda>u.
     let attached = attached_deposit env; required = update_required_deposit env (l_sizes L) u in
     if attached < required then Inl (ParamsErr InsufficientDeposit)
     else
       let (i, pu) = propose (l_sizes L) u (mc_proposed_updates c) in
       Inr (i, c\<lparr>mc_proposed_updates := pu\<rparr>, case token_checked_sub attached required of
           Some diff \<Rightarrow> if 0 < diff then [Scheduled (proposer, [TransferAction diff])] else []
         | None \<Rightarrow> [])))"

definition update_votes_for :: "participants \<Rightarrow> update_id \<Rightarrow> proposed_updates \<Rightarrow> nat" where
  "update_votes_for ps i pu =
     length (filter (\<lambda>(account_id, _, _). im_get (pu_vote_by_participant pu) account_id = Some i) (ps_participants ps))"

definition vote_update :: "env \<Rightarrow> update_id \<Rightarrow> 'pt mpc_contract \<Rightarrow> (bool, 'pt) call" where
  "vote_update env i c =
     (case mc_protocol_state c of
        Running rs \<Rightarrow>
          and_then (protocol_threshold (mc_protocol_state c)) (\<lambda>threshold.
          and_then (voter_or_panic env c) (\<lambda>voter.
          let (r, pu) = update_vote i voter (mc_proposed_updates c) in
          and_then (ok_or r (ParamsErr UpdateNotFound)) (\<lambda>_.
          let valid_votes_count = update_votes_for (rs_participants rs) i pu in
          if (of_nat valid_votes_count :: u64) < threshold
          then Inr (False, c\<lparr>mc_proposed_updates := pu\<rparr>, [])
          else
            let gas = gas_from_tgas (cfg_contract_upgrade_deposit_tera_gas (mc_config c)) in
            and_then (ok_or (do_update env i gas pu) (ParamsErr UpdateNotFound)) (\<lambda>(p, pu').
            Inr (True, c\<lparr>mc_proposed_updates := pu'\<rparr>, [Scheduled p])))))
      | _ \<Rightarrow> Inl (PanicMsg ''protocol must be in running state''))"

definition remove_update_vote :: "env \<Rightarrow> 'pt mpc_contract \<Rightarrow> (unit, 'pt) call" where
  "remove_update_vote env c =
     (case mc_protocol_state c of
        Running _ \<Rightarrow>
          and_then (voter_or_panic env c) (\<lambda>voter.
          Inr ((), c\<lparr>mc_proposed_updates := remove_vote voter (mc_proposed_updates c)\<rparr>, []))
      | _ \<Rightarrow> Inl (PanicMsg ''protocol must be in running state''))"

definition remove_non_participant_update_votes :: "'pt mpc_contract \<Rightarrow> (unit, 'pt) call" where
  "remove_non_participant_update_votes c =
     (case mc_protocol_state c of
        Running rs \<Rightarrow>
          Inr ((), c\<lparr>mc_proposed_updates := remove_non_participant_votes (rs_participants rs) (mc_proposed_updates c)\<rparr>, [])
      | _ \<Rightarrow> Inl (StateErr ProtocolStateNotRunning))"

definition update_config :: "env \<Rightarrow> config \<Rightarrow> 'pt mpc_contract \<Rightarrow> (unit, 'pt) call" where
  "update_config env config c = and_then (assert_private env) (\<lambda>_. Inr ((), c\<lparr>mc_config := config\<rparr>, []))"

section \<open>Node migrations\<close>

definition register_backup_service :: "env \<Rightarrow> backup_service_info \<Rightarrow> 'pt mpc_contract \<Rightarrow> (unit, 'pt) call" where
  "register_backup_service env info c =
     and_then (assert_caller_is_signer env) (\<lambda>account_id.
     and_then (is_existing_or_prospective_participant (mc_protocol_state c) account_id) (\<lambda>b.
     and_then (ensure b (StateErr NotParticipant)) (\<lambda>_.
     Inr ((), c\<lparr>mc_node_migrations := set_backup_service_info account_id info (mc_node_migrations c)\<rparr>, []))))"

definition start_node_migration :: "env \<Rightarrow> destination_node_info \<Rightarrow> 'pt mpc_contract \<Rightarrow> (unit, 'pt) call" where
  "start_node_migration env info c =
     and_then (assert_caller_is_signer env) (\<lambda>account_id.
     case mc_protocol_state c of
       Running rs \<Rightarrow>
         and_then (ensure (running_is_participant rs account_id) (StateErr NotParticipant)) (\<lambda>_.
         Inr ((), c\<lparr>mc_node_migrations := set_destination_node_info account_id info (mc_node_migrations c)\<rparr>, []))
     | _ \<Rightarrow> Inl (StateErr ProtocolStateNotRunning))"

definition conclude_node_migration :: "env \<Rightarrow> 'pt keyset \<Rightarrow> 'pt mpc_contract \<Rightarrow> (unit, 'pt) call" where
  "conclude_node_migration env ks c =
     and_then (assert_caller_is_signer env) (\<lambda>account_id.
     case mc_protocol_state c of
       Running rs \<Rightarrow>
         and_then (ensure (running_is_participant rs account_id) (StateErr NotParticipant)) (\<lambda>_.
         and_then (ensure (rs_keyset rs = ks) (MigrationErr KeysetMismatch)) (\<lambda>_.
         let (removed, nm) = remove_migration account_id (mc_node_migrations c) in
         and_then (ok_or removed (MigrationErr MigrationNotFound)) (\<lambda>dest.
         and_then (ensure (dn_signer_account_pk dest = signer_account_pk env) (MigrationErr AccountPublicKeyMismatch)) (\<lambda>_.
         let node = \<lparr>ni_account_id = account_id, ni_tls_public_key = pi_sign_pk (dn_destination_node_info dest),
               ni_account_public_key = Some (dn_signer_account_pk dest)\<rparr> in
         and_then (ensure (reverify_participants env node (tee_upgrade_deadline_duration c) (mc_tee_state c) = TeeValid)
             (ParamsErr InvalidTeeRemoteAttestation)) (\<lambda>_.
         and_then (threshold_parameters_update_info account_id (dn_destination_node_info dest) (rs_parameters rs)) (\<lambda>tp.
         Inr ((), c\<lparr>mc_node_migrations := nm, mc_protocol_state := Running (rs\<lparr>rs_parameters := tp\<rparr>)\<rparr>, [])))))))
     | _ \<Rightarrow> Inl (StateErr ProtocolStateNotRunning))"

fun cleanup_orphans :: "'pt protocol_state \<Rightarrow> account_id list \<Rightarrow> node_migrations \<Rightarrow> node_migrations result" where
  "cleanup_orphans s [] nm = Inr nm"
| "cleanup_orphans s (a # as) nm =
     and_then (is_existing_or_prospective_participant s a) (\<lambda>b.
     cleanup_orphans s as (if b then nm else remove_account_data a nm))"

definition cleanup_orphaned_node_migrations :: "env \<Rightarrow> 'pt mpc_contract \<Rightarrow> (unit, 'pt) call" where
  "cleanup_orphaned_node_migrations env c =
     and_then (assert_private env) (\<lambda>_.
     and_then (cleanup_orphans (mc_protocol_state c)
         (im_keys (nm_backup_services_info (mc_node_migrations c))) (mc_node_migrations c)) (\<lambda>nm.
     Inr ((), c\<lparr>mc_node_migrations := nm\<rparr>, [])))"

section \<open>Initialisation\<close>

definition contract_new :: "config \<Rightarrow> tee_state \<Rightarrow> 'pt running_state \<Rightarrow> 'pt mpc_contract" where
  "contract_new cfg ts rs =
     \<lparr>mc_protocol_state = Running rs, mc_pending_signature_requests = Map.empty,
      mc_pending_ckd_requests = Map.empty, mc_pending_verify_foreign_tx_requests = Map.empty,
      mc_proposed_updates = proposed_updates_default, mc_foreign_chain_policy = foreign_chain_policy_default,
      mc_foreign_chain_policy_votes = [], mc_config = cfg, mc_tee_state = ts, mc_accept_requests = True,
      mc_node_migrations = node_migrations_default,
      mc_metrics = \<lparr>me_sign_with_v1_payload_count = 0, me_sign_with_v2_payload_count = 0\<rparr>\<rparr>"

definition contract_init :: "threshold_parameters \<Rightarrow> init_config option \<Rightarrow> 'pt mpc_contract result" where
  "contract_init parameters init_config =
     and_then (threshold_parameters_validate parameters) (\<lambda>_.
     let ts = with_mocked_participant_attestations (tp_participants parameters);
         cfg = (case init_config of Some ic \<Rightarrow> config_from_init ic | None \<Rightarrow> config_default) in
     Inr (contract_new cfg ts (running_new registry_default (keyset_new 0 []) parameters adv_default)))"

definition init_running ::
  "env \<Rightarrow> domain_config list \<Rightarrow> u64 \<Rightarrow> 'pt keyset \<Rightarrow> threshold_parameters \<Rightarrow> init_config option
    \<Rightarrow> 'pt mpc_contract result" where
  "init_running env domains next_domain_id ks parameters init_config =
     and_then (assert_private env) (\<lambda>_.
     and_then (threshold_parameters_validate parameters) (\<lambda>_.
     and_then (from_raw_validated domains next_domain_id) (\<lambda>registry.
     and_then (ensure (map dc_id (dr_domains registry) = map kfd_domain_id (ks_domains ks)) (DomainErr DomainsMismatch)) (\<lambda>_.
     let ts = with_mocked_participant_attestations (tp_participants parameters);
         cfg = (case init_config of Some ic \<Rightarrow> config_from_init ic | None \<Rightarrow> config_default) in
     Inr (contract_new cfg ts (running_new registry ks parameters adv_default))))))"

text \<open>
  \<open>migrate\<close> reads the stored state: as the state of version 3.6.0, which has the same fields and
  must be in the running state, or as the present one. \<open>stored\<close> is the result of reading it in
  these two ways, \<open>Inl\<close> when the bytes do not parse and \<open>Inr None\<close> when there are none.
\<close>

definition from_v3_6_0 :: "'pt mpc_contract \<Rightarrow> 'pt mpc_contract result" where
  "from_v3_6_0 value =
     (case mc_protocol_state value of
        Running _ \<Rightarrow> Inr value
      | _ \<Rightarrow> Inl (PanicMsg ''Contract must be in running state when migrating.''))"

definition migrate ::
  "env \<Rightarrow> unit + 'pt mpc_contract option \<Rightarrow> unit + 'pt mpc_contract option \<Rightarrow> 'pt mpc_contract result" where
  "migrate env stored_v3_6_0 stored =
     and_then (assert_private env) (\<lambda>_.
     case stored_v3_6_0 of
       Inr (Some state) \<Rightarrow> from_v3_6_0 state
     | Inr None \<Rightarrow> Inl (StateErr ContractStateIsMissing)
     | Inl _ \<Rightarrow>
         (case stored of
            Inr (Some state) \<Rightarrow> Inr state
          | Inr None \<Rightarrow> Inl (StateErr ContractStateIsMissing)
          | Inl _ \<Rightarrow> Inl (PanicMsg ''could not deserialize contract state'')))"

end
