(* ===== verification/Contract_System.thy ===== *)
theory Contract_System
  imports Contract
begin

text \<open>
  The contract as a transition system: one operation per method that changes state, its
  execution, runs of successful calls with the effects they schedule, and the invariants every
  reachable state has.
\<close>

section \<open>Operations and runs\<close>

datatype 'pt operation =
    OpSign sign_request_args
  | OpRequestAppPrivateKey ckd_request_args
  | OpVerifyForeignTransaction verify_foreign_tx_request_args
  | OpRespond signature_request signature_response
  | OpRespondCkd ckd_request ckd_response
  | OpRespondVerifyForeignTx verify_foreign_tx_request verify_foreign_tx_response
  | OpReturnSignature signature_request "signature_response option"
  | OpReturnCk ckd_request "ckd_response option"
  | OpReturnVerifyForeignTx verify_foreign_tx_request "verify_foreign_tx_response option"
  | OpSubmitParticipantInfo dto_attestation bytes
  | OpVoteCodeHash docker_image_hash
  | OpVerifyTee
  | OpCleanTeeStatus
  | OpVoteNewParameters epoch_id threshold_parameters
  | OpVoteAddDomains "domain_config list"
  | OpVoteForeignChainPolicy foreign_chain_policy
  | OpStartKeygenInstance key_event_id
  | OpVotePk key_event_id public_key
  | OpStartReshareInstance key_event_id
  | OpVoteReshared key_event_id
  | OpVoteCancelResharing
  | OpVoteCancelKeygen u64
  | OpVoteAbortKeyEventInstance key_event_id
  | OpProposeUpdate propose_update_args
  | OpVoteUpdate update_id
  | OpRemoveUpdateVote
  | OpRemoveNonParticipantUpdateVotes
  | OpUpdateConfig config
  | OpRegisterBackupService backup_service_info
  | OpStartNodeMigration destination_node_info
  | OpConcludeNodeMigration "'pt keyset"
  | OpCleanupOrphanedNodeMigrations

definition outcome :: "('a, 'pt) call \<Rightarrow> ('pt mpc_contract \<times> effect list) result" where
  "outcome r = and_then r (\<lambda>(_, c, fx). Inr (c, fx))"

fun exec ::
  "('pt, 'af) lib \<Rightarrow> env \<Rightarrow> 'pt operation \<Rightarrow> 'pt mpc_contract \<Rightarrow> ('pt mpc_contract \<times> effect list) result" where
  "exec L env (OpSign args) c = outcome (contract_sign L env args c)"
| "exec L env (OpRequestAppPrivateKey args) c = outcome (request_app_private_key L env args c)"
| "exec L env (OpVerifyForeignTransaction args) c = outcome (verify_foreign_transaction env args c)"
| "exec L env (OpRespond req resp) c = outcome (respond L env req resp c)"
| "exec L env (OpRespondCkd req resp) c = outcome (respond_ckd env req resp c)"
| "exec L env (OpRespondVerifyForeignTx req resp) c = outcome (respond_verify_foreign_tx L env req resp c)"
| "exec L env (OpReturnSignature req resp) c = outcome (return_signature_and_clean_state_on_success env req resp c)"
| "exec L env (OpReturnCk req resp) c = outcome (return_ck_and_clean_state_on_success env req resp c)"
| "exec L env (OpReturnVerifyForeignTx req resp) c =
     outcome (return_verify_foreign_tx_and_clean_state_on_success env req resp c)"
| "exec L env (OpSubmitParticipantInfo a tls) c = outcome (submit_participant_info L env a tls c)"
| "exec L env (OpVoteCodeHash h) c = outcome (vote_code_hash L env h c)"
| "exec L env OpVerifyTee c = outcome (verify_tee env c)"
| "exec L env OpCleanTeeStatus c = outcome (clean_tee_status env c)"
| "exec L env (OpVoteNewParameters e p) c = outcome (vote_new_parameters env e p c)"
| "exec L env (OpVoteAddDomains ds) c = outcome (vote_add_domains env ds c)"
| "exec L env (OpVoteForeignChainPolicy p) c = outcome (vote_foreign_chain_policy env p c)"
| "exec L env (OpStartKeygenInstance kei) c = outcome (start_keygen_instance env kei c)"
| "exec L env (OpVotePk kei pk) c = outcome (vote_pk L env kei pk c)"
| "exec L env (OpStartReshareInstance kei) c = outcome (start_reshare_instance env kei c)"
| "exec L env (OpVoteReshared kei) c = outcome (vote_reshared env kei c)"
| "exec L env OpVoteCancelResharing c = outcome (vote_cancel_resharing env c)"
| "exec L env (OpVoteCancelKeygen n) c = outcome (vote_cancel_keygen env n c)"
| "exec L env (OpVoteAbortKeyEventInstance kei) c = outcome (vote_abort_key_event_instance env kei c)"
| "exec L env (OpProposeUpdate args) c = outcome (propose_update L env args c)"
| "exec L env (OpVoteUpdate i) c = outcome (vote_update env i c)"
| "exec L env OpRemoveUpdateVote c = outcome (remove_update_vote env c)"
| "exec L env OpRemoveNonParticipantUpdateVotes c = outcome (remove_non_participant_update_votes c)"
| "exec L env (OpUpdateConfig cfg) c = outcome (update_config env cfg c)"
| "exec L env (OpRegisterBackupService info) c = outcome (register_backup_service env info c)"
| "exec L env (OpStartNodeMigration info) c = outcome (start_node_migration env info c)"
| "exec L env (OpConcludeNodeMigration ks) c = outcome (conclude_node_migration env ks c)"
| "exec L env OpCleanupOrphanedNodeMigrations c = outcome (cleanup_orphaned_node_migrations env c)"

text \<open>
  A run is a sequence of successful calls; a failing call leaves the state as it is and schedules
  nothing. The history lists the calls with their effects, oldest first.
\<close>

type_synonym 'pt history = "(env \<times> 'pt operation \<times> effect list) list"

inductive contract_run ::
  "('pt, 'af) lib \<Rightarrow> 'pt mpc_contract \<Rightarrow> 'pt history \<Rightarrow> 'pt mpc_contract \<Rightarrow> bool" for L c0 where
  run_start: "contract_run L c0 [] c0"
| run_call: "contract_run L c0 h c \<Longrightarrow> exec L env op c = Inr (c', fx) \<Longrightarrow>
    contract_run L c0 (h @ [(env, op, fx)]) c'"

lemma outcome_Inr: "outcome r = Inr (c, fx) \<longleftrightarrow> (\<exists>x. r = Inr (x, c, fx))"
  by (auto simp: outcome_def and_then_eq_Inr)

lemma apply_vote_Inr:
  "apply_vote r c = Inr (x, c', fx) \<longleftrightarrow> (\<exists>y. r = Inr y \<and> c' = c\<lparr>mc_protocol_state := settle y\<rparr> \<and> fx = [])"
  by (auto simp: apply_vote_def and_then_eq_Inr)

lemma apply_start_Inr:
  "apply_start r c = Inr (x, c', fx) \<longleftrightarrow> (\<exists>s. r = Inr s \<and> c' = c\<lparr>mc_protocol_state := s\<rparr> \<and> fx = [])"
  by (auto simp: apply_start_def and_then_eq_Inr)

section \<open>Participants without a valid attestation are voted out\<close>

definition without :: "(participant_entry \<Rightarrow> bool) \<Rightarrow> threshold_parameters \<Rightarrow> threshold_parameters" where
  "without p tp = tp\<lparr>tp_participants := \<lparr>ps_next_id = ps_next_id (tp_participants tp),
     ps_participants = filter (\<lambda>e. \<not> p e) (ps_participants (tp_participants tp))\<rparr>\<rparr>"

lemma without_acceptable:
  assumes "parameters_wf tp" "unat (tp_threshold tp) \<le> participants_len (tp_participants (without p tp))"
  shows "proposal_acceptable tp (without p tp)"
proof -
  let ?ps = "tp_participants tp" and ?qs = "tp_participants (without p tp)"
  have len: "participants_len ?qs \<le> participants_len ?ps"
    by (simp add: without_def participants_len_def)
  have sub: "entry_account e \<in> set (accounts ?ps)" if "e \<in> set (ps_participants ?qs)" for e
    using that by (auto simp: without_def accounts_def)
  have wf: "parameters_wf (without p tp)"
    using assms len participants_wf_filter [of ?ps "\<lambda>e. \<not> p e"]
    by (auto simp: parameters_wf_def without_def)
  have coherent: "entry_coherent ?ps e" if "e \<in> set (ps_participants ?qs)" for e
    using that by (auto simp: entry_coherent_def without_def accounts_def)
  have "joining_ids ?ps ?qs = []" "retained ?ps ?qs = ps_participants ?qs"
    using sub by (auto simp: joining_ids_def joining_def retained_def filter_empty_conv)
  with wf coherent show ?thesis
    using assms(2) by (simp add: proposal_acceptable_def participants_len_def)
qed

section \<open>What each call changes\<close>

lemma take_deposit_Inr:
  "take_deposit env m = Inr fx \<longleftrightarrow> m \<le> attached_deposit env \<and>
     fx = (if m < attached_deposit env
       then [Scheduled (predecessor_account_id env, [TransferAction (attached_deposit env - m)])] else [])"
proof -
  have "m \<le> a \<Longrightarrow> 0 < a - m \<longleftrightarrow> m < a" for a :: u128
    by (metis diff_eq_eq add_0 less_le word_gt_0 word_neq_0_conv)
  then show ?thesis
    by (auto simp: take_deposit_def token_checked_sub_def split: option.splits if_splits)
qed

lemma contract_sign_shape:
  assumes "contract_sign L env args c = Inr (x, c', fx)"
  obtains request d where "sign_request_try_from args = Inr request"
    "target_domain c (sq_domain_id request) Sign = Inr d"
    "check_payload_for_scheme (l_curves L) (dc_scheme d) (sq_payload request) = Inr ()"
    "mc_accept_requests c"
    "gas_from_tgas (cfg_sign_call_gas_attachment_requirement_tera_gas (mc_config c)) \<le> prepaid_gas env"
    "MINIMUM_SIGN_REQUEST_DEPOSIT \<le> attached_deposit env"
    "c' = c\<lparr>mc_metrics := count_sign_call args (mc_metrics c),
        mc_pending_signature_requests := (mc_pending_signature_requests c)
          (signature_request_new (l_curves L) (sq_domain_id request) (sq_payload request)
            (predecessor_account_id env) (sq_path request) \<mapsto> yield_data_id env)\<rparr>"
    "\<exists>refund gas. take_deposit env MINIMUM_SIGN_REQUEST_DEPOSIT = Inr refund \<and>
       fx = refund @ [YieldCreated (YieldSign (signature_request_new (l_curves L) (sq_domain_id request)
         (sq_payload request) (predecessor_account_id env) (sq_path request))) gas (yield_data_id env)]"
proof -
  let ?c = "c\<lparr>mc_metrics := count_sign_call args (mc_metrics c)\<rparr>"
  obtain request d refund where
    "sign_request_try_from args = Inr request" "target_domain ?c (sq_domain_id request) Sign = Inr d"
    "check_payload_for_scheme (l_curves L) (dc_scheme d) (sq_payload request) = Inr ()"
    "require_gas env (cfg_sign_call_gas_attachment_requirement_tera_gas (mc_config c)) = Inr ()"
    "take_deposit env MINIMUM_SIGN_REQUEST_DEPOSIT = Inr refund" "mc_accept_requests c"
    "read_data_id env = Inr (yield_data_id env)"
    "c' = snd (add_signature_request (signature_request_new (l_curves L) (sq_domain_id request) (sq_payload request)
        (predecessor_account_id env) (sq_path request)) (yield_data_id env) ?c)"
    "\<exists>gas. fx = refund @ [YieldCreated (YieldSign (signature_request_new (l_curves L) (sq_domain_id request)
         (sq_payload request) (predecessor_account_id env) (sq_path request))) gas (yield_data_id env)]"
    using assms unfolding contract_sign_def Let_def
    by (elim and_then_InrE)
      (auto simp: ensure_eq_Inr read_data_id_def split: prod.splits if_splits)
  moreover have "target_domain ?c i p = target_domain c i p" for i p
    by (simp add: target_domain_def)
  ultimately show thesis
    by (intro that [of request d]) (auto simp: require_gas_def ensure_eq_Inr take_deposit_Inr add_signature_request_def)
qed

lemma request_app_private_key_shape:
  assumes "request_app_private_key L env args c = Inr (x, c', fx)"
  obtains d r where "target_domain c (ca_domain_id args) CKD = Inr d" "mc_accept_requests c"
    "r = ckd_request_new (l_curves L) (ca_app_public_key args) (ca_domain_id args)
           (predecessor_account_id env) (ca_derivation_path args)"
    "c' = c\<lparr>mc_pending_ckd_requests := (mc_pending_ckd_requests c)(r \<mapsto> yield_data_id env)\<rparr>"
    "\<exists>refund gas. take_deposit env MINIMUM_CKD_REQUEST_DEPOSIT = Inr refund \<and>
       fx = refund @ [YieldCreated (YieldCkd r) gas (yield_data_id env)]"
  using assms unfolding request_app_private_key_def Let_def
  by (elim and_then_InrE)
    (auto simp: ensure_eq_Inr read_data_id_def add_ckd_request_def split: prod.splits if_splits)

lemma verify_foreign_transaction_shape:
  assumes "verify_foreign_transaction env args c = Inr (x, c', fx)"
  obtains d where "target_domain c (va_domain_id args) ForeignTx = Inr d" "mc_accept_requests c"
    "fcp_chains (mc_foreign_chain_policy c) (request_chain (va_request args)) \<noteq> None"
    "c' = c\<lparr>mc_pending_verify_foreign_tx_requests := (mc_pending_verify_foreign_tx_requests c)
        (args_into_verify_foreign_tx_request args \<mapsto> yield_data_id env)\<rparr>"
    "\<exists>refund gas. take_deposit env MINIMUM_SIGN_REQUEST_DEPOSIT = Inr refund \<and>
       fx = refund @ [YieldCreated (YieldForeign (args_into_verify_foreign_tx_request args)) gas (yield_data_id env)]"
  using assms unfolding verify_foreign_transaction_def Let_def
  by (elim and_then_InrE)
    (auto simp: ensure_eq_Inr read_data_id_def add_verify_foreign_tx_request_def split: prod.splits if_splits)

lemma assert_attested_Inr:
  "assert_caller_is_attested_participant_and_protocol_active env c = Inr () \<longleftrightarrow>
     (\<exists>ps. active_participants (mc_protocol_state c) = Inr ps \<and> signer_account_id env = predecessor_account_id env
       \<and> is_caller_an_attested_participant env ps (mc_tee_state c) = Inr ())"
proof (cases "active_participants (mc_protocol_state c)")
  case (Inr ps)
  then show ?thesis
    by (cases "is_caller_an_attested_participant env ps (mc_tee_state c)")
      (auto simp: assert_caller_is_attested_participant_and_protocol_active_def assert_caller_is_signer_def)
qed (simp add: assert_caller_is_attested_participant_and_protocol_active_def)

lemma respond_shape:
  assumes "respond L env request resp c = Inr (x, c', fx)"
  obtains d where "mc_pending_signature_requests c request = Some d"
    "c' = c\<lparr>mc_pending_signature_requests := (mc_pending_signature_requests c)(request := None)\<rparr>"
    "fx = [YieldResumed d (RespSignature resp)]"
    "assert_caller_is_attested_participant_and_protocol_active env c = Inr ()"
    "is_running_or_resharing (mc_protocol_state c)" "mc_accept_requests c"
  using assms unfolding respond_def Let_def
  by (elim and_then_InrE) (auto simp: ensure_eq_Inr split: option.splits)

lemma respond_ckd_shape:
  assumes "respond_ckd env request resp c = Inr (x, c', fx)"
  obtains d where "mc_pending_ckd_requests c request = Some d"
    "c' = c\<lparr>mc_pending_ckd_requests := (mc_pending_ckd_requests c)(request := None)\<rparr>"
    "fx = [YieldResumed d (RespCkd resp)]"
    "assert_caller_is_attested_participant_and_protocol_active env c = Inr ()"
    "is_running_or_resharing (mc_protocol_state c)" "mc_accept_requests c"
  using assms unfolding respond_ckd_def
  by (elim and_then_InrE) (auto simp: ensure_eq_Inr split: option.splits)

lemma respond_verify_foreign_tx_shape:
  assumes "respond_verify_foreign_tx L env request resp c = Inr (x, c', fx)"
  obtains d where "mc_pending_verify_foreign_tx_requests c request = Some d"
    "c' = c\<lparr>mc_pending_verify_foreign_tx_requests := (mc_pending_verify_foreign_tx_requests c)(request := None)\<rparr>"
    "fx = [YieldResumed d (RespForeign resp)]"
    "assert_caller_is_attested_participant_and_protocol_active env c = Inr ()"
    "is_running_or_resharing (mc_protocol_state c)" "mc_accept_requests c"
  using assms unfolding respond_verify_foreign_tx_def Let_def
  by (elim and_then_InrE) (auto simp: ensure_eq_Inr split: option.splits)

lemma return_shapes:
  "return_signature_and_clean_state_on_success env req sresp c = Inr (x, c', fx) \<Longrightarrow>
     c' = (if sresp = None then c\<lparr>mc_pending_signature_requests := (mc_pending_signature_requests c)(req := None)\<rparr> else c)
     \<and> fx = (if sresp = None then [fail_on_timeout_promise env c] else [])"
  "return_ck_and_clean_state_on_success env creq cresp c = Inr (y, c', fx) \<Longrightarrow>
     c' = (if cresp = None then c\<lparr>mc_pending_ckd_requests := (mc_pending_ckd_requests c)(creq := None)\<rparr> else c)
     \<and> fx = (if cresp = None then [fail_on_timeout_promise env c] else [])"
  "return_verify_foreign_tx_and_clean_state_on_success env freq fresp c = Inr (z, c', fx) \<Longrightarrow>
     c' = (if fresp = None then c\<lparr>mc_pending_verify_foreign_tx_requests :=
         (mc_pending_verify_foreign_tx_requests c)(freq := None)\<rparr> else c)
     \<and> fx = (if fresp = None then [fail_on_timeout_promise env c] else [])"
  by (auto simp: return_signature_and_clean_state_on_success_def return_ck_and_clean_state_on_success_def
      return_verify_foreign_tx_and_clean_state_on_success_def and_then_eq_Inr split: option.splits)

definition only_refunds :: "effect list \<Rightarrow> bool" where
  "only_refunds fx \<longleftrightarrow> (\<forall>e \<in> set fx. \<exists>a d. e = Scheduled (a, [TransferAction d]))"

lemma only_refunds_simps [simp]: "only_refunds []" "only_refunds [Scheduled (a, [TransferAction d])]"
  by (simp_all add: only_refunds_def)

lemma submit_participant_info_shape:
  assumes "submit_participant_info L env a tls c = Inr (x, c', fx)"
  obtains k att r ts where "near_from_ed25519 tls = (Inr k :: unit failure + near_public_key)"
    "attestation_try_into (l_host L) a = Inr att"
    "signer_account_id env = predecessor_account_id env"
    "add_participant env (l_host L) (l_measurements L) \<lparr>ni_account_id = signer_account_id env,
       ni_tls_public_key = k, ni_account_public_key = Some (signer_account_pk env)\<rparr> att
       (tee_upgrade_deadline_duration c) (mc_tee_state c) = Inr (r, ts)"
    "c' = c\<lparr>mc_tee_state := ts\<rparr>" "only_refunds fx"
proof -
  obtain k att r ts where
    "near_from_ed25519 tls = (Inr k :: unit failure + near_public_key)"
    "attestation_try_into (l_host L) a = Inr att" "signer_account_id env = predecessor_account_id env"
    "add_participant env (l_host L) (l_measurements L) \<lparr>ni_account_id = signer_account_id env,
       ni_tls_public_key = k, ni_account_public_key = Some (signer_account_pk env)\<rparr> att
       (tee_upgrade_deadline_duration c) (mc_tee_state c) = Inr (r, ts)"
    "c' = c\<lparr>mc_tee_state := ts\<rparr>" "only_refunds fx"
    using assms unfolding submit_participant_info_def Let_def
    by (elim and_then_InrE)
      (auto simp: assert_caller_is_signer_def split: sum.splits failure.splits if_splits option.splits prod.splits)
  then show thesis by (rule that)
qed

lemma voter_or_panic_Inr:
  "voter_or_panic env c = Inr v \<longleftrightarrow> signer_account_id env = predecessor_account_id env \<and> v = signer_account_id env
     \<and> authenticate_update_vote env (mc_protocol_state c) = Inr ()"
  by (cases "authenticate_update_vote env (mc_protocol_state c)")
    (auto simp: voter_or_panic_def voter_account_def assert_caller_is_signer_def caller_is_signer_def)

lemma vote_code_hash_shape:
  assumes "vote_code_hash L env h c = Inr (x, c', fx)"
  obtains tp i ts where "protocol_threshold_parameters (mc_protocol_state c) = Inr tp"
    "authenticated_participant_id env (tp_participants tp) = Inr i"
    "ts = snd (tee_vote h i (mc_tee_state c))" "fx = []"
    "c' = c\<lparr>mc_tee_state := ts\<rparr> \<and> fst (tee_vote h i (mc_tee_state c)) < tp_threshold tp \<or>
     (\<exists>ts'. whitelist_tee_proposal env (l_host L) h (tee_upgrade_deadline_duration c) ts = Inr ts'
       \<and> c' = c\<lparr>mc_tee_state := ts'\<rparr> \<and> tp_threshold tp \<le> fst (tee_vote h i (mc_tee_state c)))"
proof -
  have "protocol_threshold_parameters s = Inr tp \<Longrightarrow> protocol_threshold s = Inr (tp_threshold tp)"
    for s :: "'a protocol_state" and tp
    by (auto simp: protocol_threshold_parameters_def protocol_threshold_def split: protocol_state.splits)
  then show thesis
    using assms unfolding vote_code_hash_def Let_def
    by (elim and_then_InrE)
      (auto simp: and_then_eq_Inr not_le split: sum.splits prod.splits if_splits intro!: that)
qed

text \<open>
  In a running state that satisfies the invariant, \<open>verify_tee\<close> never fails: the parameters left
  after dropping the participants without a valid attestation are acceptable.
\<close>

abbreviation unattested :: "env \<Rightarrow> 'pt mpc_contract \<Rightarrow> participant_entry \<Rightarrow> bool" where
  "unattested env c e \<equiv> \<not> attested_now env (tee_upgrade_deadline_duration c) (mc_tee_state c) (entry_info e)"

lemma threshold_fits:
  assumes "parameters_wf tp"
  shows "ucast (ucast (tp_threshold tp) :: u32) = tp_threshold tp" "unat (ucast (tp_threshold tp) :: u32) = unat (tp_threshold tp)"
proof -
  have "unat (tp_threshold tp) < 2 ^ 32"
    using assms participants_wf_len by (auto simp: parameters_wf_def intro: le_less_trans)
  then show u: "unat (ucast (tp_threshold tp) :: u32) = unat (tp_threshold tp)"
    by (simp add: unsigned_ucast_eq take_bit_nat_eq_self)
  show "ucast (ucast (tp_threshold tp) :: u32) = tp_threshold tp"
    by (simp add: word_unat_eq_iff u unat_ucast_u32)
qed

lemma verify_tee_running_cases:
  fixes env and c :: "'pt mpc_contract" and rs :: "'pt running_state"
  assumes "running_inv rs"
  defines "tp \<equiv> without (unattested env c) (rs_parameters rs)"
  shows "verify_tee_running env rs c =
    (let c1 = c\<lparr>mc_tee_state := (mc_tee_state c)\<lparr>ts_allowed_docker_image_hashes :=
           valid_entries env (tee_upgrade_deadline_duration c) (ts_allowed_docker_image_hashes (mc_tee_state c))\<rparr>\<rparr> in
     if \<forall>e \<in> set (ps_participants (rs_participants rs)). \<not> unattested env c e
     then Inr (True, c1\<lparr>mc_accept_requests := True\<rparr>, [])
     else if participants_len (tp_participants tp) < unat (tp_threshold (rs_parameters rs))
     then Inr (False, c1\<lparr>mc_accept_requests := False\<rparr>, [])
     else Inr (True, c1\<lparr>mc_accept_requests := True, mc_protocol_state :=
       (case transition_to_resharing_no_checks tp rs of (Some re, _) \<Rightarrow> Resharing re | (None, rs') \<Rightarrow> Running rs')\<rparr>, []))"
proof -
  let ?valid = "\<lparr>ps_next_id = ps_next_id (rs_participants rs), ps_participants =
        filter (\<lambda>e. \<not> unattested env c e) (ps_participants (rs_participants rs))\<rparr>"
  have wf: "parameters_wf (rs_parameters rs)"
    using assms(1) by (simp add: running_inv_def)
  have tp: "tp_participants tp = ?valid" "tp_threshold tp = tp_threshold (rs_parameters rs)"
    by (simp_all add: tp_def without_def)
  have new: "threshold_parameters_new ?valid (tp_threshold (rs_parameters rs)) = Inr tp"
    "validate_incoming_proposal (rs_parameters rs) tp = Inr ()"
    if enough: "\<not> participants_len ?valid < unat (tp_threshold (rs_parameters rs))"
  proof -
    have "proposal_acceptable (rs_parameters rs) tp"
      using without_acceptable [OF wf, of "unattested env c"] enough tp by (simp add: tp_def not_less)
    then show "validate_incoming_proposal (rs_parameters rs) tp = Inr ()"
      by (simp add: validate_incoming_proposal_acceptable [OF wf])
    then have "threshold_parameters_validate tp = Inr ()"
      by (simp add: validate_incoming_proposal_def and_then_eq_Inr)
    then show "threshold_parameters_new ?valid (tp_threshold (rs_parameters rs)) = Inr tp"
      by (simp add: threshold_parameters_validate_def and_then_eq_Inr threshold_parameters_new_def tp)
  qed
  show ?thesis
    unfolding verify_tee_running_def reverify_and_cleanup_eq
    using new by (simp add: Let_def threshold_fits [OF wf] tp split: prod.splits option.splits)
qed

lemma verify_tee_shape:
  assumes "verify_tee env c = Inr (b, c', fx)"
  obtains rs where "mc_protocol_state c = Running rs" "voter_or_panic env c = Inr (signer_account_id env)"
    "verify_tee_running env rs c = Inr (b, c', fx)"
  using assms unfolding verify_tee_def
  by (elim and_then_InrE) (auto simp: voter_or_panic_Inr split: protocol_state.splits)

section \<open>Every call is a legal evolution of the protocol\<close>

lemma transition_evolves:
  assumes "transition_to_resharing_no_checks prop rs = (re, rs')" "proposal_acceptable (rs_parameters rs) prop"
  shows "evolves (Running rs) (case re of Some st \<Rightarrow> Resharing st | None \<Rightarrow> Running rs')"
  using transition_to_resharing_inv [OF assms(1)] transition_to_resharing_keys [OF assms(1)] assms(2)
  by (cases re) (auto simp: evolves_def protocol_inv_def known_keys_def)

lemma evolves_verify_tee:
  assumes "mc_protocol_state c = Running rs" "verify_tee_running env rs c = Inr (b, c', fx)"
  shows "evolves (mc_protocol_state c) (mc_protocol_state c')"
proof (cases "running_inv rs")
  case True
  let ?tp = "without (unattested env c) (rs_parameters rs)"
  show ?thesis
  proof (cases "participants_len (tp_participants ?tp) < unat (tp_threshold (rs_parameters rs))
      \<or> (\<forall>e \<in> set (ps_participants (rs_participants rs)). \<not> unattested env c e)")
    case True
    then have "mc_protocol_state c' = mc_protocol_state c"
      using assms(2) verify_tee_running_cases [OF \<open>running_inv rs\<close>, of env c]
      by (auto simp: Let_def split: if_splits)
    then show ?thesis by simp
  next
    case False
    obtain re rs' where t: "transition_to_resharing_no_checks ?tp rs = (re, rs')"
      by fastforce
    have acc: "proposal_acceptable (rs_parameters rs) ?tp"
      using without_acceptable [of "rs_parameters rs" "unattested env c"] \<open>running_inv rs\<close> False
      by (simp add: running_inv_def not_less)
    have "mc_protocol_state c' = (case re of Some st \<Rightarrow> Resharing st | None \<Rightarrow> Running rs')"
      using assms(2) verify_tee_running_cases [OF \<open>running_inv rs\<close>, of env c] False t
      by (auto simp: Let_def split: option.splits if_splits)
    then show ?thesis
      using transition_evolves [OF t acc] assms(1) by simp
  qed
qed (simp add: evolves_def assms(1) protocol_inv_def)

lemma conclude_node_migration_shape:
  assumes "conclude_node_migration env ks c = Inr (x, c', fx)"
  obtains rs dest tp where "mc_protocol_state c = Running rs" "rs_keyset rs = ks"
    "signer_account_id env = predecessor_account_id env"
    "im_get (nm_ongoing_migrations (mc_node_migrations c)) (signer_account_id env) = Some dest"
    "dn_signer_account_pk dest = signer_account_pk env"
    "attested_now env (tee_upgrade_deadline_duration c) (mc_tee_state c) (dn_destination_node_info dest)"
    "threshold_parameters_update_info (signer_account_id env) (dn_destination_node_info dest) (rs_parameters rs) = Inr tp"
    "c' = c\<lparr>mc_node_migrations := snd (remove_migration (signer_account_id env) (mc_node_migrations c)),
        mc_protocol_state := Running (rs\<lparr>rs_parameters := tp\<rparr>)\<rparr>" "fx = []"
proof -
  obtain a where a: "assert_caller_is_signer env = Inr a" and rest: "(case mc_protocol_state c of
       Running rs \<Rightarrow>
         and_then (ensure (running_is_participant rs a) (StateErr NotParticipant)) (\<lambda>_.
         and_then (ensure (rs_keyset rs = ks) (MigrationErr KeysetMismatch)) (\<lambda>_.
         let (removed, nm) = remove_migration a (mc_node_migrations c) in
         and_then (ok_or removed (MigrationErr MigrationNotFound)) (\<lambda>dest.
         and_then (ensure (dn_signer_account_pk dest = signer_account_pk env) (MigrationErr AccountPublicKeyMismatch)) (\<lambda>_.
         let node = \<lparr>ni_account_id = a, ni_tls_public_key = pi_sign_pk (dn_destination_node_info dest),
               ni_account_public_key = Some (dn_signer_account_pk dest)\<rparr> in
         and_then (ensure (reverify_participants env node (tee_upgrade_deadline_duration c) (mc_tee_state c) = TeeValid)
             (ParamsErr InvalidTeeRemoteAttestation)) (\<lambda>_.
         and_then (threshold_parameters_update_info a (dn_destination_node_info dest) (rs_parameters rs)) (\<lambda>tp.
         Inr ((), c\<lparr>mc_node_migrations := nm, mc_protocol_state := Running (rs\<lparr>rs_parameters := tp\<rparr>)\<rparr>, [])))))))
     | _ \<Rightarrow> Inl (StateErr ProtocolStateNotRunning)) = Inr (x, c', fx)"
    using assms unfolding conclude_node_migration_def by (elim and_then_InrE) simp
  have "a = signer_account_id env" "signer_account_id env = predecessor_account_id env"
    using a by (auto simp: assert_caller_is_signer_def split: if_splits)
  moreover obtain rs where "mc_protocol_state c = Running rs"
    using rest by (auto split: protocol_state.splits)
  ultimately show thesis
    using rest that [of rs]
    by (auto simp: Let_def and_then_eq_Inr ensure_eq_Inr ok_or_eq_Inr remove_migration_def reverify_participants_attested)
qed

lemma evolves_update_info:
  assumes "threshold_parameters_update_info a info (rs_parameters rs) = Inr tp"
  shows "evolves (Running rs) (Running (rs\<lparr>rs_parameters := tp\<rparr>))"
proof -
  have "ids (tp_participants tp) = ids (rs_participants rs)"
    using assms by (auto simp: threshold_parameters_update_info_def and_then_eq_Inr update_info_frame)
  then show ?thesis
    using parameters_wf_update_info [OF assms]
    by (auto simp: evolves_def protocol_inv_def running_inv_def known_keys_def)
qed

lemma vote_update_shape:
  assumes "vote_update env i c = Inr (b, c', fx)"
  obtains rs pu where "mc_protocol_state c = Running rs" "voter_or_panic env c = Inr (signer_account_id env)"
    "update_vote i (signer_account_id env) (mc_proposed_updates c) = (Some (), pu)"
    "\<not> b \<and> (of_nat (update_votes_for (rs_participants rs) i pu) :: u64) < tp_threshold (rs_parameters rs)
       \<and> c' = c\<lparr>mc_proposed_updates := pu\<rparr> \<and> fx = []
     \<or> b \<and> tp_threshold (rs_parameters rs) \<le> (of_nat (update_votes_for (rs_participants rs) i pu) :: u64)
       \<and> (\<exists>p pu'. do_update env i (gas_from_tgas (cfg_contract_upgrade_deposit_tera_gas (mc_config c))) pu = Some (p, pu')
         \<and> c' = c\<lparr>mc_proposed_updates := pu'\<rparr> \<and> fx = [Scheduled p])"
proof -
  obtain rs where rs: "mc_protocol_state c = Running rs"
    using assms by (auto simp: vote_update_def split: protocol_state.splits)
  obtain r pu where u: "update_vote i (signer_account_id env) (mc_proposed_updates c) = (r, pu)"
    by fastforce
  have "voter_or_panic env c = Inr (signer_account_id env)" "r = Some ()"
    using assms rs u by (auto simp: vote_update_def and_then_eq_Inr voter_or_panic_Inr ok_or_eq_Inr)
  with assms rs u that [of rs pu] show thesis
    by (auto simp: vote_update_def Let_def and_then_eq_Inr ok_or_eq_Inr protocol_threshold_def not_less split: if_splits)
qed

lemma exec_evolves:
  assumes "exec L env op c = Inr (c', fx)"
  shows "evolves (mc_protocol_state c) (mc_protocol_state c')"
proof -
  have same: ?thesis if "mc_protocol_state c' = mc_protocol_state c"
    using that by simp
  show ?thesis
  proof (cases op)
    case (OpSign args)
    then show ?thesis
      using assms by (auto simp: outcome_Inr elim!: contract_sign_shape)
  next
    case (OpRequestAppPrivateKey args)
    then show ?thesis
      using assms by (auto simp: outcome_Inr elim!: request_app_private_key_shape)
  next
    case (OpVerifyForeignTransaction args)
    then show ?thesis
      using assms by (auto simp: outcome_Inr elim!: verify_foreign_transaction_shape)
  next
    case (OpRespond req resp)
    then show ?thesis
      using assms by (auto simp: outcome_Inr elim!: respond_shape)
  next
    case (OpRespondCkd req resp)
    then show ?thesis
      using assms by (auto simp: outcome_Inr elim!: respond_ckd_shape)
  next
    case (OpRespondVerifyForeignTx req resp)
    then show ?thesis
      using assms by (auto simp: outcome_Inr elim!: respond_verify_foreign_tx_shape)
  next
    case (OpSubmitParticipantInfo a tls)
    then show ?thesis
      using assms by (auto simp: outcome_Inr elim!: submit_participant_info_shape)
  next
    case (OpVoteCodeHash h)
    then show ?thesis
      using assms by (auto simp: outcome_Inr elim!: vote_code_hash_shape)
  next
    case OpVerifyTee
    then show ?thesis
      using assms by (auto simp: outcome_Inr elim!: verify_tee_shape dest: evolves_verify_tee)
  next
    case (OpConcludeNodeMigration ks)
    then show ?thesis
      using assms by (auto simp: outcome_Inr evolves_update_info elim!: conclude_node_migration_shape)
  next
    case (OpVoteNewParameters e p)
    then show ?thesis
      using assms by (auto simp: outcome_Inr vote_new_parameters_def Let_def apply_vote_Inr evolves_vote_new_parameters
          split: prod.splits tee_validation_result.splits)
  next
    case (OpVoteUpdate i)
    then show ?thesis
      using assms by (auto simp: outcome_Inr elim!: vote_update_shape)
  next
    case (OpVoteForeignChainPolicy p)
    then show ?thesis
      using assms by (auto simp: outcome_Inr vote_foreign_chain_policy_def Let_def and_then_eq_Inr
          split: protocol_state.splits if_splits)
  next
    case (OpProposeUpdate args)
    then show ?thesis
      using assms by (auto simp: outcome_Inr propose_update_def Let_def and_then_eq_Inr split: prod.splits if_splits)
  next
    case (OpStartNodeMigration info)
    then show ?thesis
      using assms by (cases "mc_protocol_state c") (auto simp: outcome_Inr start_node_migration_def and_then_eq_Inr)
  next
    case (OpVoteReshared kei)
    then show ?thesis
      using assms by (auto simp: outcome_Inr vote_reshared_def and_then_eq_Inr dest!: evolves_vote_reshared)
  qed (use assms in \<open>auto simp: outcome_Inr and_then_eq_Inr apply_vote_Inr apply_start_Inr
        vote_add_domains_def start_keygen_instance_def vote_pk_def start_reshare_instance_def vote_cancel_resharing_def
        vote_cancel_keygen_def vote_abort_key_event_instance_def remove_update_vote_def
        remove_non_participant_update_votes_def update_config_def register_backup_service_def
        cleanup_orphaned_node_migrations_def clean_tee_status_def
        dest!: return_shapes evolves_start_keygen evolves_start_reshare evolves_vote_abort evolves_vote_pk evolves_vote_cancel_keygen
        evolves_vote_cancel_resharing evolves_vote_add_domains split: protocol_state.splits if_splits\<close>)
qed

section \<open>Frames\<close>

lemma start_node_migration_shape:
  assumes "start_node_migration env info c = Inr (x, c', fx)"
  obtains rs where "mc_protocol_state c = Running rs" "running_is_participant rs (signer_account_id env)"
    "signer_account_id env = predecessor_account_id env"
    "c' = c\<lparr>mc_node_migrations := set_destination_node_info (signer_account_id env) info (mc_node_migrations c)\<rparr>" "fx = []"
proof -
  have "\<exists>rs. mc_protocol_state c = Running rs"
    using assms by (cases "mc_protocol_state c") (auto simp: start_node_migration_def and_then_eq_Inr)
  then show thesis
    using assms that
    by (auto simp: start_node_migration_def and_then_eq_Inr ensure_eq_Inr assert_caller_is_signer_def split: if_splits)
qed

lemma propose_update_shape:
  assumes "propose_update L env args c = Inr (i, c', fx)"
  obtains u where "voter_or_panic env c = Inr (signer_account_id env)" "update_try_from args = Inr u"
    "update_required_deposit env (l_sizes L) u \<le> attached_deposit env"
    "i = fst (propose (l_sizes L) u (mc_proposed_updates c))"
    "c' = c\<lparr>mc_proposed_updates := snd (propose (l_sizes L) u (mc_proposed_updates c))\<rparr>" "only_refunds fx"
  using assms unfolding propose_update_def Let_def
  by (elim and_then_InrE) (auto simp: voter_or_panic_Inr split: prod.splits if_splits option.splits intro!: that)

lemma vote_foreign_chain_policy_shape:
  assumes "vote_foreign_chain_policy env p c = Inr (x, c', fx)"
  obtains rs votes where "mc_protocol_state c = Running rs" "fx = []"
    "authenticated_account_id env (rs_participants rs) = Inr (signer_account_id env)"
    "votes = im_insert (signer_account_id env) p (mc_foreign_chain_policy_votes c)"
    "policy_votes_for (rs_participants rs) p votes = participants_len (rs_participants rs)
       \<and> c' = c\<lparr>mc_foreign_chain_policy := p, mc_foreign_chain_policy_votes := []\<rparr> \<or>
     c' = c\<lparr>mc_foreign_chain_policy_votes := votes\<rparr>"
proof -
  obtain rs where rs: "mc_protocol_state c = Running rs"
    using assms by (auto simp: vote_foreign_chain_policy_def split: protocol_state.splits)
  then obtain v where "authenticated_account_id env (rs_participants rs) = Inr v"
    using assms by (auto simp: vote_foreign_chain_policy_def and_then_eq_Inr)
  moreover from this have "v = signer_account_id env"
    by (auto simp: authenticated_account_id_def split: if_splits)
  ultimately show thesis
    using assms rs that [of rs]
    by (auto simp: vote_foreign_chain_policy_def Let_def split: if_splits)
qed

lemma vote_new_parameters_shape:
  assumes "vote_new_parameters env e p c = Inr (x, c', fx)"
  obtains r where "protocol_vote_new_parameters env e p (mc_protocol_state c) = Inr r" "fx = []"
    "\<forall>e \<in> set (ps_participants (tp_participants p)). \<not> unattested env c e"
    "c' = c\<lparr>mc_tee_state := (mc_tee_state c)\<lparr>ts_allowed_docker_image_hashes :=
        valid_entries env (tee_upgrade_deadline_duration c) (ts_allowed_docker_image_hashes (mc_tee_state c))\<rparr>,
      mc_protocol_state := settle r\<rparr>"
  using assms unfolding vote_new_parameters_def reverify_and_cleanup_eq
  by (auto simp: Let_def apply_vote_Inr split: if_splits intro!: that)

lemmas call_elims =
  contract_sign_shape request_app_private_key_shape verify_foreign_transaction_shape
  respond_shape respond_ckd_shape respond_verify_foreign_tx_shape
  submit_participant_info_shape vote_code_hash_shape verify_tee_shape vote_new_parameters_shape
  vote_foreign_chain_policy_shape propose_update_shape vote_update_shape
  start_node_migration_shape conclude_node_migration_shape

lemmas call_simps =
  outcome_Inr and_then_eq_Inr apply_vote_Inr apply_start_Inr
  vote_add_domains_def start_keygen_instance_def vote_pk_def start_reshare_instance_def vote_reshared_def
  vote_cancel_resharing_def vote_cancel_keygen_def vote_abort_key_event_instance_def remove_update_vote_def
  remove_non_participant_update_votes_def update_config_def register_backup_service_def
  cleanup_orphaned_node_migrations_def clean_tee_status_def


lemma cleanup_orphans_inv:
  "cleanup_orphans s as nm = Inr nm' \<Longrightarrow> migrations_inv nm \<Longrightarrow> migrations_inv nm'"
  by (induction as arbitrary: nm) (auto simp: and_then_eq_Inr)

lemma verify_tee_running_frame:
  assumes "verify_tee_running env rs c = Inr (b, c', fx)"
  shows "fx = []" "mc_pending_signature_requests c' = mc_pending_signature_requests c"
    "mc_pending_ckd_requests c' = mc_pending_ckd_requests c"
    "mc_pending_verify_foreign_tx_requests c' = mc_pending_verify_foreign_tx_requests c"
    "mc_proposed_updates c' = mc_proposed_updates c" "mc_foreign_chain_policy c' = mc_foreign_chain_policy c"
    "mc_foreign_chain_policy_votes c' = mc_foreign_chain_policy_votes c" "mc_config c' = mc_config c"
    "mc_node_migrations c' = mc_node_migrations c" "mc_metrics c' = mc_metrics c"
    "ts_votes (mc_tee_state c') = ts_votes (mc_tee_state c)"
    "ts_stored_attestations (mc_tee_state c') = ts_stored_attestations (mc_tee_state c)"
    "mc_protocol_state c' = mc_protocol_state c \<or> mc_protocol_state c' \<noteq> NotInitialized"
  using assms unfolding verify_tee_running_def reverify_and_cleanup_eq
  by (auto simp: Let_def and_then_eq_Inr split: if_splits sum.splits prod.splits option.splits)

section \<open>Invariant of the contract\<close>

lemma protocol_results_initialized:
  "protocol_start_keygen_instance env kei t s = Inr s' \<Longrightarrow> s' \<noteq> NotInitialized"
  "protocol_start_reshare_instance env kei t s = Inr s' \<Longrightarrow> s' \<noteq> NotInitialized"
  "protocol_vote_abort_key_event_instance env kei s = Inr s' \<Longrightarrow> s' \<noteq> NotInitialized"
  "protocol_vote_pk env kei pk s = Inr r \<Longrightarrow> settle r \<noteq> NotInitialized"
  "protocol_vote_reshared env kei s = Inr r \<Longrightarrow> settle r \<noteq> NotInitialized"
  "protocol_vote_cancel_resharing env s = Inr r \<Longrightarrow> settle r \<noteq> NotInitialized"
  "protocol_vote_cancel_keygen env n s = Inr r \<Longrightarrow> settle r \<noteq> NotInitialized"
  "protocol_vote_add_domains env ds s = Inr r \<Longrightarrow> settle r \<noteq> NotInitialized"
  "protocol_vote_new_parameters env e p s = Inr r \<Longrightarrow> settle r \<noteq> NotInitialized"
  by (cases s; auto simp: protocol_start_keygen_instance_def protocol_start_reshare_instance_def
      protocol_vote_abort_key_event_instance_def protocol_vote_pk_def protocol_vote_reshared_def
      protocol_vote_cancel_resharing_def protocol_vote_cancel_keygen_def protocol_vote_add_domains_def
      protocol_vote_new_parameters_def and_then_eq_Inr settle_def split: option.splits)+

definition tee_inv :: "tee_state \<Rightarrow> bool" where
  "tee_inv ts \<longleftrightarrow> bt_invar (ts_votes ts) \<and> bt_invar (ts_stored_attestations ts)"

definition contract_inv :: "'pt mpc_contract \<Rightarrow> bool" where
  "contract_inv c \<longleftrightarrow> protocol_inv (mc_protocol_state c) \<and> mc_protocol_state c \<noteq> NotInitialized
     \<and> updates_inv (mc_proposed_updates c) \<and> migrations_inv (mc_node_migrations c)
     \<and> im_invar (mc_foreign_chain_policy_votes c) \<and> tee_inv (mc_tee_state c)"

lemma bt_invar_fold: "bt_invar m \<Longrightarrow> (\<And>x m. bt_invar m \<Longrightarrow> bt_invar (f x m)) \<Longrightarrow> bt_invar (fold f xs m)"
  by (induction xs arbitrary: m) auto

lemma tee_inv_ops:
  "tee_inv (with_mocked_participant_attestations ps)"
  "tee_inv ts \<Longrightarrow> tee_inv (clean_non_participants ps ts)"
  "tee_inv ts \<Longrightarrow> tee_inv (snd (tee_vote h i ts))"
  "tee_inv ts \<Longrightarrow> tee_inv (ts\<lparr>ts_allowed_docker_image_hashes := al\<rparr>)"
  "tee_inv ts \<Longrightarrow> whitelist_tee_proposal env ho h d ts = Inr ts' \<Longrightarrow> tee_inv ts'"
  "tee_inv ts \<Longrightarrow> add_participant env ho ms node a d ts = Inr (r, ts') \<Longrightarrow> tee_inv ts'"
  subgoal
    by (auto simp: tee_inv_def with_mocked_participant_attestations_def tee_state_default_def intro!: bt_invar_fold)
  subgoal by (simp add: tee_inv_def clean_non_participants_def Let_def bt_invar_fold)
  subgoal by (simp add: tee_inv_def tee_vote_def code_hashes_vote_def Let_def)
  subgoal by (simp add: tee_inv_def)
  subgoal by (auto simp: tee_inv_def whitelist_tee_proposal_def and_then_eq_Inr Let_def clear_votes_def)
  subgoal by (auto simp: tee_inv_def elim!: add_participant_Inr)
  done

lemma exec_updates:
  assumes "exec L env op c = Inr (c', fx)" "updates_inv (mc_proposed_updates c)"
  shows "updates_inv (mc_proposed_updates c')"
proof (cases op)
  case (OpVoteUpdate i)
  then show ?thesis
    using assms by (auto simp: outcome_Inr elim!: vote_update_shape intro: updates_inv_vote updates_inv_do_update)
next
  case (OpVerifyTee)
  then show ?thesis
    using assms by (auto simp: outcome_Inr verify_tee_running_frame elim!: verify_tee_shape)
qed (use assms in \<open>auto simp: call_simps updates_inv_propose updates_inv_remove_vote updates_inv_remove_non_participants
      elim!: call_elims dest!: return_shapes split: protocol_state.splits if_splits\<close>)

lemma exec_migrations:
  assumes "exec L env op c = Inr (c', fx)" "migrations_inv (mc_node_migrations c)"
  shows "migrations_inv (mc_node_migrations c')"
proof (cases op)
  case (OpVerifyTee)
  then show ?thesis
    using assms by (auto simp: outcome_Inr verify_tee_running_frame elim!: verify_tee_shape)
qed (use assms in \<open>auto simp: call_simps elim!: call_elims dest!: return_shapes
      intro: cleanup_orphans_inv split: protocol_state.splits if_splits\<close>)

lemma exec_policy_votes:
  assumes "exec L env op c = Inr (c', fx)" "im_invar (mc_foreign_chain_policy_votes c)"
  shows "im_invar (mc_foreign_chain_policy_votes c')"
proof (cases op)
  case (OpVerifyTee)
  then show ?thesis
    using assms by (auto simp: outcome_Inr verify_tee_running_frame elim!: verify_tee_shape)
qed (use assms in \<open>auto simp: call_simps elim!: call_elims dest!: return_shapes
      split: protocol_state.splits if_splits\<close>)

lemma exec_tee:
  assumes "exec L env op c = Inr (c', fx)" "tee_inv (mc_tee_state c)"
  shows "tee_inv (mc_tee_state c')"
proof (cases op)
  case (OpVerifyTee)
  then show ?thesis
    using assms by (auto simp: outcome_Inr verify_tee_running_frame tee_inv_def elim!: verify_tee_shape)
qed (use assms in \<open>auto simp: call_simps elim!: call_elims dest!: return_shapes
      intro: tee_inv_ops split: protocol_state.splits if_splits\<close>)

lemma exec_initialized:
  assumes "exec L env op c = Inr (c', fx)" "mc_protocol_state c \<noteq> NotInitialized"
  shows "mc_protocol_state c' \<noteq> NotInitialized"
proof (cases op)
  case (OpVerifyTee)
  then show ?thesis
    using assms verify_tee_running_frame(13) by (fastforce simp: outcome_Inr elim!: verify_tee_shape)
qed (use assms in \<open>auto simp: call_simps protocol_results_initialized elim!: call_elims dest!: return_shapes
      split: protocol_state.splits if_splits\<close>)

lemma exec_contract_inv:
  assumes "exec L env op c = Inr (c', fx)" "contract_inv c"
  shows "contract_inv c'"
  using assms exec_evolves [OF assms(1)] exec_initialized [OF assms(1)] exec_updates [OF assms(1)]
    exec_migrations [OF assms(1)] exec_policy_votes [OF assms(1)] exec_tee [OF assms(1)]
  by (simp add: contract_inv_def evolves_def)

lemma contract_run_inv: "contract_run L c0 h c \<Longrightarrow> contract_inv c0 \<Longrightarrow> contract_inv c"
  by (induction rule: contract_run.induct) (auto intro: exec_contract_inv)

lemma contract_new_inv:
  assumes "parameters_wf tp" "map dc_id (dr_domains r) = map kfd_domain_id (ks_domains ks)"
  shows "contract_inv (contract_new cfg (with_mocked_participant_attestations (tp_participants tp))
    (running_new r ks tp adv_default))"
  using running_inv_new [of tp adv_default ks r] assms tee_inv_ops(1)
  by (simp add: contract_inv_def contract_new_def protocol_inv_def adv_default_def)

section \<open>Pending requests and their yields\<close>

definition pending :: "'pt mpc_contract \<Rightarrow> yielded \<Rightarrow> bytes option" where
  "pending c y = (case y of
       YieldSign r \<Rightarrow> mc_pending_signature_requests c r
     | YieldCkd r \<Rightarrow> mc_pending_ckd_requests c r
     | YieldForeign r \<Rightarrow> mc_pending_verify_foreign_tx_requests c r)"

definition answers :: "yielded \<Rightarrow> response \<Rightarrow> bool" where
  "answers y r = (case (y, r) of
       (YieldSign _, RespSignature _) \<Rightarrow> True
     | (YieldCkd _, RespCkd _) \<Rightarrow> True
     | (YieldForeign _, RespForeign _) \<Rightarrow> True
     | _ \<Rightarrow> False)"

fun is_yield :: "effect \<Rightarrow> bool" where
  "is_yield (Scheduled p) = False"
| "is_yield (YieldCreated y g d) = True"
| "is_yield (YieldResumed d r) = True"

abbreviation yields :: "effect list \<Rightarrow> effect list" where
  "yields fx \<equiv> filter is_yield fx"

lemma only_refunds_yields [simp]: "only_refunds fx \<Longrightarrow> yields fx = []"
  by (auto simp: only_refunds_def filter_empty_conv)

lemma take_deposit_yields: "take_deposit env m = Inr fx \<Longrightarrow> yields fx = []"
  by (auto simp: take_deposit_Inr)

lemma pending_simps [simp]:
  "pending c (YieldSign r) = mc_pending_signature_requests c r"
  "pending c (YieldCkd k) = mc_pending_ckd_requests c k"
  "pending c (YieldForeign f) = mc_pending_verify_foreign_tx_requests c f"
  by (simp_all add: pending_def)

lemma pending_upd [simp]:
  "pending (c\<lparr>mc_pending_signature_requests := (mc_pending_signature_requests c)(r := d)\<rparr>) = (pending c)(YieldSign r := d)"
  "pending (c\<lparr>mc_pending_ckd_requests := (mc_pending_ckd_requests c)(k := d)\<rparr>) = (pending c)(YieldCkd k := d)"
  "pending (c\<lparr>mc_pending_verify_foreign_tx_requests := (mc_pending_verify_foreign_tx_requests c)(f := d)\<rparr>) =
     (pending c)(YieldForeign f := d)"
  "pending (c\<lparr>mc_metrics := m\<rparr>) = pending c" "pending (c\<lparr>mc_protocol_state := s\<rparr>) = pending c"
  "pending (c\<lparr>mc_tee_state := ts\<rparr>) = pending c" "pending (c\<lparr>mc_proposed_updates := pu\<rparr>) = pending c"
  "pending (c\<lparr>mc_node_migrations := nm\<rparr>) = pending c" "pending (c\<lparr>mc_config := cfg\<rparr>) = pending c"
  "pending (c\<lparr>mc_foreign_chain_policy := p\<rparr>) = pending c"
  "pending (c\<lparr>mc_foreign_chain_policy_votes := v\<rparr>) = pending c"
  by (auto simp: pending_def split: yielded.splits)

text \<open>Which yield a call asks for, and which requests it answers.\<close>

fun requested :: "('pt, 'af) lib \<Rightarrow> env \<Rightarrow> 'pt operation \<Rightarrow> yielded option" where
  "requested L env (OpSign args) = (case sign_request_try_from args of
       Inr q \<Rightarrow> Some (YieldSign (signature_request_new (l_curves L) (sq_domain_id q) (sq_payload q)
         (predecessor_account_id env) (sq_path q)))
     | Inl _ \<Rightarrow> None)"
| "requested L env (OpRequestAppPrivateKey args) = Some (YieldCkd (ckd_request_new (l_curves L)
     (ca_app_public_key args) (ca_domain_id args) (predecessor_account_id env) (ca_derivation_path args)))"
| "requested L env (OpVerifyForeignTransaction args) = Some (YieldForeign (args_into_verify_foreign_tx_request args))"
| "requested L env _ = None"

fun answered :: "'pt operation \<Rightarrow> (yielded \<times> response) option" where
  "answered (OpRespond q r) = Some (YieldSign q, RespSignature r)"
| "answered (OpRespondCkd q r) = Some (YieldCkd q, RespCkd r)"
| "answered (OpRespondVerifyForeignTx q r) = Some (YieldForeign q, RespForeign r)"
| "answered _ = None"

fun timed_out :: "'pt operation \<Rightarrow> yielded option" where
  "timed_out (OpReturnSignature q None) = Some (YieldSign q)"
| "timed_out (OpReturnCk q None) = Some (YieldCkd q)"
| "timed_out (OpReturnVerifyForeignTx q None) = Some (YieldForeign q)"
| "timed_out _ = None"

text \<open>
  What a call does to the pending requests: a request becomes pending with the yield created for
  it, an answer takes its request and resumes its yield, a timeout drops the request, and no
  other call touches them.
\<close>

lemma exec_pending:
  assumes "exec L env op c = Inr (c', fx)"
  shows "case requested L env op of
      Some y \<Rightarrow> pending c' = (pending c)(y \<mapsto> yield_data_id env)
        \<and> (\<exists>g. yields fx = [YieldCreated y g (yield_data_id env)])
    | None \<Rightarrow> (case answered op of
        Some (y, r) \<Rightarrow> (\<exists>d. pending c y = Some d \<and> yields fx = [YieldResumed d r]) \<and> pending c' = (pending c)(y := None)
      | None \<Rightarrow> pending c' = (case timed_out op of Some y \<Rightarrow> (pending c)(y := None) | None \<Rightarrow> pending c) \<and> yields fx = [])"
proof (cases op)
  case (OpSign args)
  then show ?thesis
    using assms by (auto simp: outcome_Inr take_deposit_yields pending_def fun_eq_iff split: yielded.splits
        elim!: contract_sign_shape)
next
  case (OpReturnSignature q r)
  then show ?thesis
    using assms by (cases r) (auto simp: outcome_Inr fail_on_timeout_promise_def dest!: return_shapes)
next
  case (OpReturnCk q r)
  then show ?thesis
    using assms by (cases r) (auto simp: outcome_Inr fail_on_timeout_promise_def dest!: return_shapes)
next
  case (OpReturnVerifyForeignTx q r)
  then show ?thesis
    using assms by (cases r) (auto simp: outcome_Inr fail_on_timeout_promise_def dest!: return_shapes)
next
  case OpVerifyTee
  then show ?thesis
    using assms by (auto simp: outcome_Inr pending_def verify_tee_running_frame intro!: ext split: yielded.splits
        elim!: verify_tee_shape dest: verify_tee_running_frame(1))
qed (use assms in \<open>auto simp: call_simps take_deposit_yields own_call_def elim!: call_elims
      split: protocol_state.splits if_splits option.splits\<close>)


definition effects :: "'pt history \<Rightarrow> effect list" where
  "effects h = concat (map (\<lambda>(env, op, fx). fx) h)"

fun created_id :: "effect \<Rightarrow> bytes option" where
  "created_id (YieldCreated y g d) = Some d"
| "created_id e = None"

fun resumed_id :: "effect \<Rightarrow> bytes option" where
  "resumed_id (YieldResumed d r) = Some d"
| "resumed_id e = None"

definition created_ids :: "effect list \<Rightarrow> bytes list" where
  "created_ids fx = List.map_filter created_id fx"

definition resumed_ids :: "effect list \<Rightarrow> bytes list" where
  "resumed_ids fx = List.map_filter resumed_id fx"

lemma ids_append [simp]:
  "created_ids (xs @ ys) = created_ids xs @ created_ids ys" "resumed_ids (xs @ ys) = resumed_ids xs @ resumed_ids ys"
  "created_ids [] = []" "resumed_ids [] = []"
  "created_ids [YieldCreated y g d] = [d]" "resumed_ids [YieldCreated y g d] = []"
  "created_ids [YieldResumed d r] = []" "resumed_ids [YieldResumed d r] = [d]"
  by (simp_all add: created_ids_def resumed_ids_def List.map_filter_def)

lemma ids_yields: "created_ids (yields fx) = created_ids fx" "resumed_ids (yields fx) = resumed_ids fx"
proof -
  have "filter (\<lambda>e. created_id e \<noteq> None) (yields fx) = filter (\<lambda>e. created_id e \<noteq> None) fx"
    "filter (\<lambda>e. resumed_id e \<noteq> None) (yields fx) = filter (\<lambda>e. resumed_id e \<noteq> None) fx"
    by (induction fx) (auto elim: is_yield.elims)
  then show "created_ids (yields fx) = created_ids fx" "resumed_ids (yields fx) = resumed_ids fx"
    by (simp_all add: created_ids_def resumed_ids_def List.map_filter_def comp_def)
qed

lemma exec_ids:
  assumes "exec L env op c = Inr (c', fx)"
  obtains
    (create) y where "requested L env op = Some y" "pending c' = (pending c)(y \<mapsto> yield_data_id env)"
      "created_ids fx = [yield_data_id env]" "resumed_ids fx = []"
  | (answer) y r d where "answered op = Some (y, r)" "pending c y = Some d" "pending c' = (pending c)(y := None)"
      "created_ids fx = []" "resumed_ids fx = [d]"
  | (drop) y where "pending c' = (pending c)(y := None)" "created_ids fx = []" "resumed_ids fx = []"
  | (same) "pending c' = pending c" "created_ids fx = []" "resumed_ids fx = []"
proof -
  have ids: "yields fx = fy \<Longrightarrow> created_ids fx = created_ids fy \<and> resumed_ids fx = resumed_ids fy" for fy
    using ids_yields [of fx] by metis
  show thesis
    using exec_pending [OF assms] create answer drop same
    by (auto split: option.splits prod.splits dest!: ids)
qed

text \<open>
  Along a run, the identifiers of the pending requests were created and not yet resumed, no two
  pending requests share one, and no identifier was resumed twice.
\<close>

definition yields_inv :: "effect list \<Rightarrow> (yielded \<rightharpoonup> bytes) \<Rightarrow> bool" where
  "yields_inv fx p \<longleftrightarrow> ran p \<subseteq> set (created_ids fx) - set (resumed_ids fx) \<and> inj_on p (dom p)
     \<and> distinct (resumed_ids fx) \<and> set (resumed_ids fx) \<subseteq> set (created_ids fx)"

lemma yields_inv_create:
  assumes "yields_inv fx p" "d \<notin> set (created_ids fx)" "created_ids fy = [d]" "resumed_ids fy = []"
  shows "yields_inv (fx @ fy) (p(y \<mapsto> d))"
proof -
  have "d \<notin> ran p" "d \<notin> set (resumed_ids fx)"
    using assms by (auto simp: yields_inv_def)
  moreover from this have "inj_on (p(y \<mapsto> d)) (dom (p(y \<mapsto> d)))"
    using assms(1) by (auto simp: yields_inv_def inj_on_def ran_def)
  moreover have "ran (p(y \<mapsto> d)) \<subseteq> insert d (ran p)"
    by (auto simp: ran_def)
  ultimately show ?thesis
    using assms by (auto simp: yields_inv_def)
qed

lemma yields_inv_answer:
  assumes "yields_inv fx p" "p y = Some d" "created_ids fy = []" "resumed_ids fy = [d]"
  shows "yields_inv (fx @ fy) (p(y := None))"
proof -
  have "d \<in> ran p"
    using assms(2) by (auto simp: ran_def)
  moreover have "d \<notin> ran (p(y := None))"
    using assms(1,2) by (auto simp: yields_inv_def ran_def dest: inj_onD [of p _ _ y] split: if_splits)
  moreover have "ran (p(y := None)) \<subseteq> ran p"
    by (auto simp: ran_def)
  moreover have "inj_on (p(y := None)) (dom (p(y := None)))"
    using assms(1) by (auto simp: yields_inv_def inj_on_def)
  ultimately show ?thesis
    using assms by (auto simp: yields_inv_def)
qed

lemma yields_inv_drop:
  assumes "yields_inv fx p" "created_ids fy = []" "resumed_ids fy = []"
  shows "yields_inv (fx @ fy) (p(y := None))" "yields_inv (fx @ fy) p"
proof -
  have "ran (p(y := None)) \<subseteq> ran p" "inj_on (p(y := None)) (dom (p(y := None)))"
    using assms(1) by (auto simp: yields_inv_def ran_def inj_on_def)
  then show "yields_inv (fx @ fy) (p(y := None))" "yields_inv (fx @ fy) p"
    using assms by (auto simp: yields_inv_def)
qed

lemma effects_snoc [simp]: "effects (h @ [(env, op, fx)]) = effects h @ fx" "effects [] = []"
  by (simp_all add: effects_def)

lemma contract_run_yields:
  assumes "contract_run L c0 h c" "pending c0 = Map.empty" "distinct (created_ids (effects h))"
  shows "yields_inv (effects h) (pending c)"
  using assms
proof (induction rule: contract_run.induct)
  case (run_call h c env op c' fx)
  then have inv: "yields_inv (effects h) (pending c)"
    by simp
  from run_call(2) show ?case
  proof (cases rule: exec_ids)
    case (create y)
    then show ?thesis
      using yields_inv_create [OF inv _ create(3,4), of y] run_call.prems by (simp del: fun_upd_apply)
  next
    case (answer y r d)
    then show ?thesis
      using yields_inv_answer [OF inv answer(2,4,5)] by (simp del: fun_upd_apply)
  qed (use yields_inv_drop [OF inv] in \<open>simp_all del: fun_upd_apply\<close>)
qed (simp add: yields_inv_def)

end
