(* ===== verification/Contract_Properties.thy ===== *)
theory Contract_Properties
  imports Contract_System
begin

text \<open>
  The properties of the contract as a whole, over the runs of \<open>Contract_System\<close>, with a small
  contract of two participants and one signing domain on which they are applied.
\<close>

section \<open>A small contract\<close>

definition toy_curves :: "(int, int) curves" where
  "toy_curves = \<lparr>c_sha3_256 = (\<lambda>_. replicate 32 0), c_decompress = (\<lambda>_. Some 0), c_compress = (\<lambda>_. replicate 32 9),
     c_ed_scalar = (\<lambda>_. 0), c_ed_mul_base = (\<lambda>s. s), c_ed_add = (+), c_k256_scalar = (\<lambda>_. Some 0),
     c_k256_mul_base = (\<lambda>s. s), c_k256_add = (+), c_k256_is_identity = (\<lambda>p. p = 0),
     c_k256_encode = (\<lambda>_. 4 # replicate 64 1), c_k256_decode = (\<lambda>_. Some 1),
     c_ecrecover = (\<lambda>_ _ _ _. None), c_ed25519_verify = (\<lambda>_ _ _. True)\<rparr>"

definition toy_lib :: "(int, int) lib" where
  "toy_lib = \<lparr>l_host = hex_host, l_curves = toy_curves, l_sizes = sample_sizes, l_measurements = []\<rparr>"

definition toy_params :: threshold_parameters where
  "toy_params = \<lparr>tp_participants = sample_nodes, tp_threshold = 2\<rparr>"

definition toy_domain :: domain_config where
  "toy_domain = \<lparr>dc_id = 0, dc_scheme = Ed25519, dc_purpose = Sign\<rparr>"

definition toy_keyset :: "int keyset" where
  "toy_keyset = keyset_new 4 [\<lparr>kfd_domain_id = 0, kfd_key = PkEd25519 (NearPublicKey (0 # replicate 32 9)) 5, kfd_attempt = 0\<rparr>]"

definition toy_running :: "int running_state" where
  "toy_running = running_new \<lparr>dr_domains = [toy_domain], dr_next_domain_id = 1\<rparr> toy_keyset toy_params adv_default"

definition toy_contract :: "int mpc_contract" where
  "toy_contract = contract_new config_default (with_mocked_participant_attestations sample_nodes) toy_running"

definition toy_env :: "account_id \<Rightarrow> env" where
  "toy_env a = sample_tee_env\<lparr>signer_account_id := a, predecessor_account_id := a, attached_deposit := 1,
     prepaid_gas := 300000000000000, yield_data_id := replicate 32 8\<rparr>"

definition toy_sign_args :: sign_request_args where
  "toy_sign_args = \<lparr>sa_path = ''p'', sa_payload_v2 = Some (Eddsa (replicate 32 3)), sa_deprecated_payload = None,
     sa_domain_id = Some 0, sa_deprecated_key_version = None\<rparr>"

definition toy_request :: signature_request where
  "toy_request = \<lparr>sr_tweak = replicate 32 0, sr_payload = Eddsa (replicate 32 3), sr_domain_id = 0\<rparr>"

lemma toy_params_wf: "parameters_wf toy_params"
  by code_simp

lemma toy_contract_inv: "contract_inv toy_contract"
  using contract_new_inv [OF toy_params_wf, of "\<lparr>dr_domains = [toy_domain], dr_next_domain_id = 1\<rparr>" toy_keyset config_default]
  by (simp add: toy_contract_def toy_running_def toy_params_def toy_keyset_def keyset_new_def toy_domain_def)

lemma toy_pending [simp]: "pending toy_contract = Map.empty"
  by (simp add: fun_eq_iff pending_def toy_contract_def contract_new_def split: yielded.splits)

definition toy_signed :: "int mpc_contract" where
  "toy_signed = (case contract_sign toy_lib (toy_env ''u'') toy_sign_args toy_contract of
     Inr (_, c, fx) \<Rightarrow> c | Inl _ \<Rightarrow> toy_contract)"

definition toy_effects :: "effect list" where
  "toy_effects = [YieldCreated (YieldSign toy_request) 7000000000000 (replicate 32 8)]"

lemma toy_sign:
  "exec toy_lib (toy_env ''u'') (OpSign toy_sign_args) toy_contract = Inr (toy_signed, toy_effects)"
proof -
  have "case contract_sign toy_lib (toy_env ''u'') toy_sign_args toy_contract of
      Inr (_, c, fx) \<Rightarrow> fx = toy_effects | Inl _ \<Rightarrow> False"
    by code_simp
  then show ?thesis
    by (auto simp: toy_signed_def outcome_Inr split: sum.splits)
qed

lemma toy_run: "contract_run toy_lib toy_contract [(toy_env ''u'', OpSign toy_sign_args, toy_effects)] toy_signed"
  using run_call [OF run_start toy_sign] by simp

lemma toy_respond:
  "\<exists>c'. respond toy_lib (toy_env ''a'') toy_request (SigEd25519 []) toy_signed =
     Inr ((), c', [YieldResumed (replicate 32 8) (RespSignature (SigEd25519 []))])"
proof -
  have "case respond toy_lib (toy_env ''a'') toy_request (SigEd25519 []) toy_signed of
     Inr (_, c, fx) \<Rightarrow> fx = [YieldResumed (replicate 32 8) (RespSignature (SigEd25519 []))] | Inl _ \<Rightarrow> False"
    by code_simp
  then show ?thesis
    by (auto split: sum.splits)
qed

section \<open>Invariant and keys\<close>

text \<open>
  C5: every state the contract reaches is well formed. Whatever calls succeed after the
  contract was initialised, by \<open>init\<close> or by \<open>init_running\<close>, the protocol state satisfies its
  invariant and is initialised, votes on updates are for updates that exist, and no stored map
  has a key twice.
\<close>

theorem reachable_contract_inv:
  assumes "contract_init tp ic = Inr c0 \<or> init_running env domains next_id ks tp ic = Inr c0"
    and "contract_run L c0 h c"
  shows "contract_inv c"
proof -
  have "contract_inv c0"
    using assms(1) contract_new_inv [of tp]
    by (auto simp: contract_init_def init_running_def Let_def and_then_eq_Inr threshold_parameters_validate_iff
        ensure_eq_Inr registry_default_def keyset_new_def)
  then show ?thesis
    by (rule contract_run_inv [OF assms(2)])
qed

theorem reachable_contract_inv_witness:
  "\<exists>c0 c. contract_init toy_params None = Inr c0
    \<and> exec toy_lib (toy_env ''a'') (OpRegisterBackupService \<lparr>bs_public_key = [1]\<rparr>) c0 = Inr (c, []) \<and> contract_inv c"
proof -
  have "is_ok (contract_init toy_params None :: int mpc_contract result)"
    by code_simp
  then obtain c0 :: "int mpc_contract" where c0: "contract_init toy_params None = Inr c0"
    by (cases "contract_init toy_params None :: int mpc_contract result") (auto simp: is_ok_def)
  have "mc_protocol_state c0 = Running (running_new registry_default (keyset_new 0 []) toy_params adv_default)"
    using c0 by (auto simp: contract_init_def and_then_eq_Inr Let_def contract_new_def)
  moreover have "running_is_participant (running_new registry_default (keyset_new 0 []) toy_params adv_default :: int running_state) ''a''"
    by code_simp
  ultimately have e: "exec toy_lib (toy_env ''a'') (OpRegisterBackupService \<lparr>bs_public_key = [1]\<rparr>) c0 =
      Inr (c0\<lparr>mc_node_migrations := set_backup_service_info ''a'' \<lparr>bs_public_key = [1]\<rparr> (mc_node_migrations c0)\<rparr>, [])"
    by (simp add: outcome_def register_backup_service_def assert_caller_is_signer_def toy_env_def
        is_existing_or_prospective_participant_def)
  show ?thesis
    using reachable_contract_inv [OF disjI1, OF c0 run_call [OF run_start e]] c0 e by blast
qed

text \<open>
  C1: the public key of a domain never changes. Whatever calls succeed, votes, key generations,
  resharings, cancellations, node migrations and removals of participants without a valid
  attestation included, once the contract shows a public key for a domain it shows the same one
  whenever it shows keys, and so does every key derived from it.
\<close>

theorem domain_keys_never_change:
  assumes "contract_inv c0" "contract_run L c0 h c" "is_running_or_resharing (mc_protocol_state c)"
    and "protocol_public_key (mc_protocol_state c0) d = Inr k"
  shows "contract_public_key (Some d) c = contract_public_key (Some d) c0
    \<and> derived_public_key L env path (Some a) (Some d) c = derived_public_key L env path (Some a) (Some d) c0"
proof -
  have "evolves (mc_protocol_state c0) (mc_protocol_state c)"
    using assms(2) by (induction rule: contract_run.induct) (auto intro: evolves_trans exec_evolves)
  then have "protocol_public_key (mc_protocol_state c) d = Inr k"
    using assms public_key_prefix by (auto simp: evolves_def contract_inv_def)
  then show ?thesis
    using assms(4) by (simp add: contract_public_key_def derived_public_key_def Let_def)
qed

theorem domain_keys_never_change_witness:
  "contract_public_key (Some 0) toy_signed = contract_public_key (Some 0) toy_contract
   \<and> contract_public_key (Some 0) toy_contract = Inr (DtoEd25519 (replicate 32 9))"
proof -
  have r: "is_running_or_resharing (mc_protocol_state toy_signed)"
    "is_ok (protocol_public_key (mc_protocol_state toy_contract) 0)"
    "contract_public_key (Some 0) toy_contract = Inr (DtoEd25519 (replicate 32 9))"
    by code_simp+
  then obtain k where "protocol_public_key (mc_protocol_state toy_contract) 0 = Inr k"
    by (cases "protocol_public_key (mc_protocol_state toy_contract) 0") (auto simp: is_ok_def)
  with r show ?thesis
    using domain_keys_never_change [OF toy_contract_inv toy_run r(1), of 0 k] by blast
qed

section \<open>Requests and responses\<close>

lemma contract_run_origin:
  assumes "contract_run L c0 h c" "pending c0 = Map.empty" "pending c y = Some d"
  shows "\<exists>h1 env op fx h2 g. h = h1 @ (env, op, fx) # h2 \<and> requested L env op = Some y \<and> YieldCreated y g d \<in> set fx"
  using assms
proof (induction arbitrary: y d rule: contract_run.induct)
  case (run_call h c env op c' fx)
  show ?case
  proof (cases "requested L env op = Some y")
    case True
    then have p: "pending c' = (pending c)(y \<mapsto> yield_data_id env)"
      "\<exists>g. yields fx = [YieldCreated y g (yield_data_id env)]"
      using exec_pending [OF run_call(2)] by simp_all
    have d: "d = yield_data_id env"
      using run_call.prems(2) unfolding p(1) by simp
    obtain g where "yields fx = [YieldCreated y g d]"
      unfolding d using p(2) by blast
    then have "YieldCreated y g d \<in> set fx"
      by (metis filter_is_subset list.set_intros(1) subsetD)
    then show ?thesis
      using True by (intro exI [of _ h] exI [of _ env] exI [of _ op] exI [of _ fx] exI [of _ "[]"] exI [of _ g]) simp
  next
    case False
    have "pending c y = Some d"
      using exec_pending [OF run_call(2)] run_call.prems(2) False
      by (auto split: option.splits prod.splits if_splits)
    then obtain h1 env' op' fx' h2 g where "h = h1 @ (env', op', fx') # h2" "requested L env' op' = Some y"
      "YieldCreated y g d \<in> set fx'"
      using run_call.IH [OF run_call.prems(1)] by blast
    then show ?thesis
      by (intro exI [of _ h1] exI [of _ env'] exI [of _ op'] exI [of _ fx'] exI [of _ "h2 @ [(env, op, fx)]"] exI [of _ g]) simp
  qed
qed simp

text \<open>
  C2: a response reaches the user who asked for it. When a call of \<open>respond\<close> succeeds, the
  request it answers was made by an earlier call of \<open>sign\<close>: its tweak is the one derived from
  the account that made that call and from the path it gave, its payload and its domain are
  those of the call, and the execution that is resumed is the one yielded by that call.
\<close>

theorem response_reaches_requester:
  assumes "contract_run L c0 h c" "pending c0 = Map.empty"
    and "respond L env q resp c = Inr (u, c', fx)"
  shows "\<exists>h1 env0 args fx0 h2 r g d. h = h1 @ (env0, OpSign args, fx0) # h2
    \<and> sign_request_try_from args = Inr r
    \<and> q = \<lparr>sr_tweak = derive_tweak (l_curves L) (predecessor_account_id env0) (sq_path r),
           sr_payload = sq_payload r, sr_domain_id = sq_domain_id r\<rparr>
    \<and> YieldCreated (YieldSign q) g d \<in> set fx0 \<and> fx = [YieldResumed d (RespSignature resp)]"
proof -
  obtain d where d: "pending c (YieldSign q) = Some d" "fx = [YieldResumed d (RespSignature resp)]"
    using assms(3) by (auto elim!: respond_shape)
  then obtain h1 env0 op fx0 h2 g where h: "h = h1 @ (env0, op, fx0) # h2"
    "requested L env0 op = Some (YieldSign q)" "YieldCreated (YieldSign q) g d \<in> set fx0"
    using contract_run_origin [OF assms(1,2) d(1)] by blast
  then obtain args r where "op = OpSign args" "sign_request_try_from args = Inr r"
    "q = signature_request_new (l_curves L) (sq_domain_id r) (sq_payload r) (predecessor_account_id env0) (sq_path r)"
    by (cases op) (auto split: sum.splits)
  with h d(2) show ?thesis
    unfolding signature_request_new_def by blast
qed

theorem response_reaches_requester_witness:
  "sr_tweak toy_request = derive_tweak toy_curves ''u'' ''p''"
proof -
  obtain c' where r: "respond toy_lib (toy_env ''a'') toy_request (SigEd25519 []) toy_signed =
     Inr ((), c', [YieldResumed (replicate 32 8) (RespSignature (SigEd25519 []))])"
    using toy_respond by blast
  have one: "[x] = h1 @ y # h2 \<longleftrightarrow> h1 = [] \<and> y = x \<and> h2 = []" for x y :: "env \<times> int operation \<times> effect list" and h1 h2
    by (cases h1) auto
  have "sign_request_try_from toy_sign_args = Inr \<lparr>sq_payload = Eddsa (replicate 32 3), sq_path = ''p'', sq_domain_id = 0\<rparr>"
    by code_simp
  then have "toy_request = \<lparr>sr_tweak = derive_tweak toy_curves ''u'' ''p'', sr_payload = Eddsa (replicate 32 3), sr_domain_id = 0\<rparr>"
    using response_reaches_requester [OF toy_run toy_pending r] by (auto simp: one toy_lib_def toy_env_def)
  then show ?thesis
    by (metis signature_request.select_convs(1))
qed

definition signature_valid :: "('pt, 'af) curves \<Rightarrow> 'pt public_key_extended \<Rightarrow> signature_request \<Rightarrow> signature_response \<Rightarrow> bool" where
  "signature_valid C k q resp = (case (resp, k) of
      (SigSecp256k1 sig, PkSecp256k1 near_key) \<Rightarrow> (\<exists>p derived hash. stored_secp256k1_point C near_key = Inr p
         \<and> derive_key_secp256k1 C p (sr_tweak q) = Inr derived \<and> sr_payload q = Ecdsa hash
         \<and> verify_ecdsa_signature C sig hash derived = Inr ())
    | (SigEd25519 sig, PkEd25519 _ point) \<Rightarrow> (\<exists>message. sr_payload q = Eddsa message
         \<and> verify_eddsa_signature C sig message
             (c_compress C (derive_public_key_edwards_point_ed25519 C point (sr_tweak q))) = Inr ())
    | _ \<Rightarrow> False)"

lemma as_ecdsa_Inr: "as_ecdsa p = Inr (Some bs) \<longleftrightarrow> p = Ecdsa bs \<and> length bs = 32"
  by (auto simp: as_ecdsa_def as_fixed_bytes_def ECDSA_PAYLOAD_SIZE_BYTES_def split: payload.splits if_splits)

lemma is_ok_unit: "is_ok r \<longleftrightarrow> r = Inr ()"
  by (cases r) (auto simp: is_ok_def)

lemma conversion_Inr:
  "(case r of Inr bs \<Rightarrow> Inr bs | Inl Panic \<Rightarrow> Inl e | Inl (Failed _) \<Rightarrow> Inl e') = Inr x \<longleftrightarrow> r = Inr x"
  by (auto split: sum.splits failure.splits)

lemma respond_valid:
  assumes "respond L env q resp c = Inr (u, c', fx)"
  shows "\<exists>k. protocol_public_key (mc_protocol_state c) (sr_domain_id q) = Inr k \<and> signature_valid (l_curves L) k q resp"
proof -
  obtain k b where k: "protocol_public_key (mc_protocol_state c) (sr_domain_id q) = Inr k" and b: "b" and
    chk: "(case (resp, k) of
          (SigSecp256k1 signature_response, PkSecp256k1 near_key) \<Rightarrow>
            and_then (stored_secp256k1_point (l_curves L) near_key) (\<lambda>affine.
            and_then (case derive_key_secp256k1 (l_curves L) affine (sr_tweak q) of
                Inr bs \<Rightarrow> Inr bs
              | Inl Panic \<Rightarrow> Inl Panicked
              | Inl (Failed _) \<Rightarrow> Inl (RespondErr respond_error.TweakNotOnCurve)) (\<lambda>expected_public_key.
            and_then (as_ecdsa (sr_payload q)) (\<lambda>hash.
            and_then (ok_or hash Panicked) (\<lambda>payload_hash.
            Inr (is_ok (verify_ecdsa_signature (l_curves L) signature_response payload_hash expected_public_key))))))
        | (SigEd25519 signature, PkEd25519 _ edwards_point) \<Rightarrow>
            (let derived = c_compress (l_curves L) (derive_public_key_edwards_point_ed25519 (l_curves L) edwards_point (sr_tweak q)) in
             and_then (ok_or (as_eddsa (sr_payload q)) Panicked) (\<lambda>message.
             Inr (is_ok (verify_eddsa_signature (l_curves L) signature message derived))))
        | _ \<Rightarrow> Inl (RespondErr SignatureSchemeMismatch)) = Inr b"
    using assms unfolding respond_def Let_def
    by (elim and_then_InrE) (simp add: ensure_eq_Inr)
  have "signature_valid (l_curves L) k q resp"
    using chk b
    by (cases resp; cases k)
      (auto simp: signature_valid_def Let_def and_then_eq_Inr ok_or_eq_Inr as_ecdsa_Inr as_eddsa_def is_ok_unit
        conversion_Inr split: payload.splits)
  with k show ?thesis by blast
qed

text \<open>
  C3: only a valid signature is accepted, from an attested participant. A successful \<open>respond\<close>
  was called directly by an active participant with a stored attestation for the account and the
  key that signed the transaction, while requests are accepted; the signature verifies under the
  key derived from the domain's public key and the request's tweak, and the request, which was
  pending, no longer is.
\<close>

theorem respond_accepts_only_valid:
  assumes "respond L env q resp c = Inr (u, c', fx)"
  shows "signer_account_id env = predecessor_account_id env \<and> mc_accept_requests c
    \<and> (\<exists>ps info na. active_participants (mc_protocol_state c) = Inr ps
        \<and> participants_info ps (signer_account_id env) = Some info
        \<and> bt_get (ts_stored_attestations (mc_tee_state c)) (pi_sign_pk info) = Some na
        \<and> ni_account_id (na_node_id na) = signer_account_id env
        \<and> ni_account_public_key (na_node_id na) \<in> {None, Some (signer_account_pk env)})
    \<and> (\<exists>k. protocol_public_key (mc_protocol_state c) (sr_domain_id q) = Inr k \<and> signature_valid (l_curves L) k q resp)
    \<and> mc_pending_signature_requests c q \<noteq> None \<and> mc_pending_signature_requests c' q = None"
proof -
  obtain d where d: "mc_pending_signature_requests c q = Some d"
    "c' = c\<lparr>mc_pending_signature_requests := (mc_pending_signature_requests c)(q := None)\<rparr>"
    "assert_caller_is_attested_participant_and_protocol_active env c = Inr ()" "mc_accept_requests c"
    using assms by (auto elim!: respond_shape)
  then obtain ps where ps: "active_participants (mc_protocol_state c) = Inr ps"
    "signer_account_id env = predecessor_account_id env"
    "is_caller_an_attested_participant env ps (mc_tee_state c) = Inr ()"
    by (auto simp: assert_attested_Inr)
  then show ?thesis
    using d is_caller_attested_Inr [OF ps(3)] respond_valid [OF assms] by simp
qed

theorem respond_accepts_only_valid_witness:
  "\<exists>c' fx. respond toy_lib (toy_env ''a'') toy_request (SigEd25519 []) toy_signed = Inr ((), c', fx)
    \<and> mc_pending_signature_requests toy_signed toy_request \<noteq> None \<and> mc_pending_signature_requests c' toy_request = None"
  using toy_respond respond_accepts_only_valid [of toy_lib "toy_env ''a''" toy_request "SigEd25519 []" toy_signed "()"]
  by blast

lemma contract_run_take:
  assumes "contract_run L c0 h c"
  shows "\<exists>c'. contract_run L c0 (take k h) c'"
  using assms
proof (induction rule: contract_run.induct)
  case (run_call h c env op c' fx)
  then show ?case
    using contract_run.run_call [OF run_call(1,2)] by (cases "k \<le> length h") auto
qed (auto intro: run_start)

lemma created_ids_take:
  "\<exists>ds. created_ids (effects h) = created_ids (effects (take k h)) @ ds"
  using ids_append(1) [of "effects (take k h)" "effects (drop k h)"]
  by (metis append_take_drop_id concat_append effects_def map_append)

text \<open>
  C4: a yielded execution is resumed at most once, and only after it was created. The host
  never gives two yielded executions the same identifier; then, after every prefix of a run, the
  identifiers that were resumed are all different and were all created before.
\<close>

theorem yields_resumed_once:
  assumes "contract_run L c0 h c" "pending c0 = Map.empty" "distinct (created_ids (effects h))"
  shows "distinct (resumed_ids (effects (take k h)))
    \<and> set (resumed_ids (effects (take k h))) \<subseteq> set (created_ids (effects (take k h)))"
proof -
  obtain c' where "contract_run L c0 (take k h) c'"
    using contract_run_take [OF assms(1)] by blast
  moreover have "distinct (created_ids (effects (take k h)))"
    using assms(3) created_ids_take [of h k] by auto
  ultimately show ?thesis
    using contract_run_yields [OF _ assms(2)] by (auto simp: yields_inv_def)
qed

theorem yields_resumed_once_witness:
  "\<exists>h c. contract_run toy_lib toy_contract h c \<and> resumed_ids (effects (take 2 h)) = [replicate 32 8]
     \<and> distinct (resumed_ids (effects (take 2 h)))"
proof -
  obtain c' where "respond toy_lib (toy_env ''a'') toy_request (SigEd25519 []) toy_signed =
     Inr ((), c', [YieldResumed (replicate 32 8) (RespSignature (SigEd25519 []))])"
    using toy_respond by blast
  then have "exec toy_lib (toy_env ''a'') (OpRespond toy_request (SigEd25519 [])) toy_signed =
      Inr (c', [YieldResumed (replicate 32 8) (RespSignature (SigEd25519 []))])"
    by (simp add: outcome_def)
  note run = run_call [OF toy_run this]
  have "distinct (created_ids (effects ([(toy_env ''u'', OpSign toy_sign_args, toy_effects)] @
      [(toy_env ''a'', OpRespond toy_request (SigEd25519 []), [YieldResumed (replicate 32 8) (RespSignature (SigEd25519 []))])])))"
    by (simp add: effects_def toy_effects_def created_ids_def List.map_filter_def)
  from yields_resumed_once [OF run toy_pending this, of 2] run show ?thesis
    by (intro exI conjI) (auto simp: effects_def toy_effects_def resumed_ids_def List.map_filter_def)
qed

section \<open>Attestations and service\<close>

lemma exec_accept:
  assumes "exec L env op c = Inr (c', fx)"
  shows "mc_accept_requests c' = mc_accept_requests c \<or> op = OpVerifyTee"
proof (cases op)
  case OpVerifyTee
  then show ?thesis by simp
qed (use assms in \<open>auto simp: call_simps elim!: call_elims dest!: return_shapes
      split: protocol_state.splits if_splits\<close>)

text \<open>
  C11: no service without attested nodes. While requests are not accepted, no call yields or
  resumes an execution; and only \<open>verify_tee\<close> turns the service on again, when at least a
  threshold of the participants have a valid attestation.
\<close>

theorem service_needs_attested_nodes:
  assumes "contract_inv c" "\<not> mc_accept_requests c" "exec L env op c = Inr (c', fx)"
  shows "yields fx = [] \<and> (mc_accept_requests c' \<longrightarrow> op = OpVerifyTee \<and> (\<exists>rs. mc_protocol_state c = Running rs \<and>
    unat (tp_threshold (rs_parameters rs)) \<le>
      length (filter (\<lambda>e. attested_now env (tee_upgrade_deadline_duration c) (mc_tee_state c) (entry_info e))
        (ps_participants (rs_participants rs)))))"
proof -
  have "requested L env op = None" "answered op = None"
    using assms(2,3) by (cases op; auto simp: outcome_Inr elim!: call_elims)+
  then have "yields fx = []"
    using exec_pending [OF assms(3)] by simp
  moreover have "\<exists>rs. mc_protocol_state c = Running rs \<and> unat (tp_threshold (rs_parameters rs)) \<le>
      length (filter (\<lambda>e. \<not> unattested env c e) (ps_participants (rs_participants rs)))"
    if acc: "mc_accept_requests c'" "op = OpVerifyTee"
  proof -
    obtain rs b where rs: "mc_protocol_state c = Running rs" "verify_tee_running env rs c = Inr (b, c', fx)"
      using assms(3) acc(2) by (auto simp: outcome_Inr elim!: verify_tee_shape)
    have inv: "running_inv rs" "parameters_wf (rs_parameters rs)"
      using assms(1) rs(1) by (simp_all add: contract_inv_def protocol_inv_def running_inv_def)
    show ?thesis
    proof (cases "\<forall>e \<in> set (ps_participants (rs_participants rs)). \<not> unattested env c e")
      case True
      then have "filter (\<lambda>e. \<not> unattested env c e) (ps_participants (rs_participants rs)) = ps_participants (rs_participants rs)"
        by simp
      with rs(1) inv(2) show ?thesis
        by (simp add: parameters_wf_def participants_len_def)
    next
      case False
      then show ?thesis
        using rs verify_tee_running_cases [OF inv(1), of env c] acc(1)
        by (auto simp: Let_def without_def participants_len_def not_less split: if_splits)
    qed
  qed
  ultimately show ?thesis
    using exec_accept [OF assms(3)] assms(2) by auto
qed

definition toy_paused :: "int mpc_contract" where
  "toy_paused = toy_contract\<lparr>mc_accept_requests := False\<rparr>"

lemma toy_paused_inv: "contract_inv toy_paused"
  using toy_contract_inv by (simp add: toy_paused_def contract_inv_def)

theorem service_needs_attested_nodes_witness:
  "\<exists>c' fx. exec toy_lib (toy_env ''a'') OpVerifyTee toy_paused = Inr (c', fx) \<and> mc_accept_requests c' \<and> yields fx = []"
proof -
  have "case verify_tee (toy_env ''a'') toy_paused of Inr (_, c', fx) \<Rightarrow> mc_accept_requests c' | Inl _ \<Rightarrow> False"
    by code_simp
  then obtain c' fx where v: "exec toy_lib (toy_env ''a'') OpVerifyTee toy_paused = Inr (c', fx)" "mc_accept_requests c'"
    by (auto simp: outcome_Inr split: sum.splits)
  moreover have "\<not> mc_accept_requests toy_paused"
    by (simp add: toy_paused_def)
  ultimately show ?thesis
    using service_needs_attested_nodes [OF toy_paused_inv, of toy_lib "toy_env ''a''" OpVerifyTee] by blast
qed

text \<open>
  C10: \<open>verify_tee\<close> always does its work. Called by a participant in a running contract, it
  returns: requests are accepted from then on exactly when at least a threshold of the
  participants have a valid attestation, and then, when some do not, a resharing among those
  who do starts with the same threshold if there is a key, or they are the participants at once
  if there is none.
\<close>

theorem verify_tee_always_returns:
  assumes "contract_inv c" "mc_protocol_state c = Running rs" "signer_account_id env = predecessor_account_id env"
    and "is_participant_given_account_id (rs_participants rs) (signer_account_id env)"
  shows "\<exists>c'. let valid = filter (\<lambda>e. attested_now env (tee_upgrade_deadline_duration c) (mc_tee_state c) (entry_info e))
            (ps_participants (rs_participants rs));
          enough = (unat (tp_threshold (rs_parameters rs)) \<le> length valid) in
      verify_tee env c = Inr (enough, c', []) \<and> mc_accept_requests c' = enough
      \<and> (if enough \<and> valid \<noteq> ps_participants (rs_participants rs)
         then (case mc_protocol_state c' of
              Resharing re \<Rightarrow> ps_participants (ke_participants (re_resharing_key re)) = valid
                \<and> tp_threshold (ke_parameters (re_resharing_key re)) = tp_threshold (rs_parameters rs)
            | Running rs' \<Rightarrow> dr_domains (rs_domains rs) = [] \<and> ps_participants (rs_participants rs') = valid
                \<and> tp_threshold (rs_parameters rs') = tp_threshold (rs_parameters rs)
            | _ \<Rightarrow> False)
         else mc_protocol_state c' = mc_protocol_state c)"
proof -
  let ?valid = "filter (\<lambda>e. \<not> unattested env c e) (ps_participants (rs_participants rs))"
  let ?tp = "without (unattested env c) (rs_parameters rs)"
  have inv: "running_inv rs" "parameters_wf (rs_parameters rs)"
    using assms(1,2) by (simp_all add: contract_inv_def protocol_inv_def running_inv_def)
  have auth: "verify_tee env c = verify_tee_running env rs c"
    using assms(2-4) authenticated_participant_id_ok [of env "rs_participants rs"]
    by (auto simp: is_participant_account_iff verify_tee_def voter_or_panic_def voter_account_def caller_is_signer_def
        assert_caller_is_signer_def authenticate_update_vote_def)
  have full: "?valid = ps_participants (rs_participants rs) \<longleftrightarrow>
      (\<forall>e \<in> set (ps_participants (rs_participants rs)). \<not> unattested env c e)"
    by (simp add: filter_id_conv)
  have tp: "ps_participants (tp_participants ?tp) = ?valid" "tp_threshold ?tp = tp_threshold (rs_parameters rs)"
    "participants_len (tp_participants ?tp) = length ?valid"
    by (simp_all add: without_def participants_len_def)
  have all: "unat (tp_threshold (rs_parameters rs)) \<le> length (ps_participants (rs_participants rs))"
    using inv(2) by (simp add: parameters_wf_def participants_len_def)
  note cases = verify_tee_running_cases [OF inv(1), of env c, folded full]
  show ?thesis
  proof (cases "?valid = ps_participants (rs_participants rs)")
    case True
    then show ?thesis
      using all assms(2) unfolding auth cases Let_def by simp
  next
    case False
    then show ?thesis
      unfolding auth cases Let_def tp(3) using assms(2) tp
      by (auto simp: not_less transition_to_resharing_no_checks_def get_domain_by_index_def vec_get_def
          key_event_new_def running_new_def split: option.splits if_splits)
  qed
qed

theorem verify_tee_always_returns_witness:
  "\<exists>c'. verify_tee (toy_env ''a'') toy_contract = Inr (True, c', [])
    \<and> mc_accept_requests c' \<and> mc_protocol_state c' = Running toy_running"
proof -
  let ?valid = "filter (\<lambda>e. attested_now (toy_env ''a'') (tee_upgrade_deadline_duration toy_contract)
      (mc_tee_state toy_contract) (entry_info e)) (ps_participants (rs_participants toy_running))"
  have "mc_protocol_state toy_contract = Running toy_running"
    by (simp add: toy_contract_def contract_new_def)
  moreover have "signer_account_id (toy_env ''a'') = predecessor_account_id (toy_env ''a'')"
    "is_participant_given_account_id (rs_participants toy_running) (signer_account_id (toy_env ''a''))"
    "?valid = ps_participants (rs_participants toy_running)"
    "unat (tp_threshold (rs_parameters toy_running)) \<le> length (ps_participants (rs_participants toy_running))"
    by code_simp+
  ultimately show ?thesis
    using verify_tee_always_returns [OF toy_contract_inv, of toy_running "toy_env ''a''"] by (simp add: Let_def)
qed

section \<open>Updates and policies\<close>

lemma count_entries:
  assumes "distinct (accounts ps)"
  shows "length (filter (\<lambda>(a, _, _). P a) (ps_participants ps)) = card {a \<in> set (accounts ps). P a}"
proof -
  have "map entry_account (filter (\<lambda>(a, _, _). P a) (ps_participants ps)) = filter P (accounts ps)"
    by (auto simp: accounts_def filter_map comp_def intro!: arg_cong [where f = "map _"] filter_cong)
  then have "length (filter (\<lambda>(a, _, _). P a) (ps_participants ps)) = length (filter P (accounts ps))"
    by (metis length_map)
  also have "\<dots> = card (set (filter P (accounts ps)))"
    using assms by (simp only: distinct_card distinct_filter)
  finally show ?thesis by simp
qed

text \<open>The updates of code or configuration that the effects of a call carry out.\<close>

definition update_action :: "promise_action \<Rightarrow> update option" where
  "update_action a = (case a of
       DeployContract code \<Rightarrow> Some (ContractUpdate code)
     | FunctionCall f (Some cfg) _ \<Rightarrow> Some (ConfigUpdate cfg)
     | _ \<Rightarrow> None)"

fun effect_updates :: "effect \<Rightarrow> update list" where
  "effect_updates (Scheduled (account, actions)) = List.map_filter update_action actions"
| "effect_updates e = []"

definition scheduled_updates :: "effect list \<Rightarrow> update list" where
  "scheduled_updates fx = concat (map effect_updates fx)"

lemma scheduled_updates_simps [simp]:
  "scheduled_updates [] = []" "scheduled_updates (e # fx) = effect_updates e @ scheduled_updates fx"
  "scheduled_updates (fx @ fy) = scheduled_updates fx @ scheduled_updates fy"
  "effect_updates (own_call env m g) = []" "effect_updates (fail_on_timeout_promise env c) = []"
  by (simp_all add: scheduled_updates_def own_call_def fail_on_timeout_promise_def update_action_def List.map_filter_def)

lemma scheduled_updates_refunds [simp]: "only_refunds fx \<Longrightarrow> scheduled_updates fx = []"
  by (auto simp: scheduled_updates_def only_refunds_def update_action_def List.map_filter_def)

lemma scheduled_updates_deposit: "take_deposit env m = Inr fx \<Longrightarrow> scheduled_updates fx = []"
  by (auto simp: take_deposit_Inr update_action_def List.map_filter_def)

lemma exec_scheduled_updates:
  assumes "exec L env op c = Inr (c', fx)" "scheduled_updates fx \<noteq> []"
  shows "\<exists>i. op = OpVoteUpdate i"
proof (cases op)
  case OpVerifyTee
  then show ?thesis
    using assms by (auto simp: outcome_Inr elim!: verify_tee_shape dest!: verify_tee_running_frame(1))
qed (use assms in \<open>auto simp: call_simps scheduled_updates_deposit elim!: call_elims dest!: return_shapes
      split: protocol_state.splits if_splits option.splits\<close>)

lemma update_votes_for_le: "update_votes_for ps i pu \<le> participants_len ps"
  by (simp add: update_votes_for_def participants_len_def length_filter_le)



lemma exec_policy:
  assumes "exec L env op c = Inr (c', fx)" "mc_foreign_chain_policy c' \<noteq> mc_foreign_chain_policy c"
  shows "\<exists>p. op = OpVoteForeignChainPolicy p"
proof (cases op)
  case OpVerifyTee
  then show ?thesis
    using assms by (auto simp: outcome_Inr verify_tee_running_frame elim!: verify_tee_shape)
qed (use assms in \<open>auto simp: call_simps elim!: call_elims dest!: return_shapes
      split: protocol_state.splits if_splits option.splits\<close>)

text \<open>
  C12: the foreign chain policy changes only unanimously. Whatever call changes the policy, it is
  a vote for the new policy by a participant of a running contract, and with it every current
  participant has voted for exactly this policy; the votes are then dropped.
\<close>

theorem policy_needs_everybody:
  assumes "exec L env op c = Inr (c', fx)" "mc_foreign_chain_policy c' \<noteq> mc_foreign_chain_policy c"
  shows "\<exists>rs. op = OpVoteForeignChainPolicy (mc_foreign_chain_policy c') \<and> mc_protocol_state c = Running rs
    \<and> signer_account_id env \<in> set (accounts (rs_participants rs))
    \<and> (\<forall>a \<in> set (accounts (rs_participants rs)). a = signer_account_id env
        \<or> im_get (mc_foreign_chain_policy_votes c) a = Some (mc_foreign_chain_policy c'))
    \<and> mc_foreign_chain_policy_votes c' = []"
proof -
  obtain p where op: "op = OpVoteForeignChainPolicy p"
    using exec_policy [OF assms] by blast
  obtain rs where v: "mc_protocol_state c = Running rs"
    "authenticated_account_id env (rs_participants rs) = Inr (signer_account_id env)"
    "policy_votes_for (rs_participants rs) p (im_insert (signer_account_id env) p (mc_foreign_chain_policy_votes c))
       = participants_len (rs_participants rs)"
    "c' = c\<lparr>mc_foreign_chain_policy := p, mc_foreign_chain_policy_votes := []\<rparr>"
    using assms op by (auto simp: outcome_Inr elim!: vote_foreign_chain_policy_shape)
  have "\<forall>e \<in> set (ps_participants (rs_participants rs)).
      im_get (im_insert (signer_account_id env) p (mc_foreign_chain_policy_votes c)) (entry_account e) = Some p"
    using v(3) by (auto simp: policy_votes_for_def participants_len_def filter_same_length)
  with op v(1,2,4) show ?thesis
    by (auto simp: accounts_def result_simps split: if_splits)
qed

definition toy_policy :: foreign_chain_policy where
  "toy_policy = \<lparr>fcp_chains = [Bitcoin \<mapsto> {\<lparr>rp_rpc_url = ''r''\<rparr>}]\<rparr>"

theorem policy_needs_everybody_witness:
  "\<exists>c c' fx. exec toy_lib (toy_env ''a'') (OpVoteForeignChainPolicy toy_policy) c = Inr (c', fx)
    \<and> mc_foreign_chain_policy c' = toy_policy \<and> mc_foreign_chain_policy_votes c' = []"
proof -
  let ?c = "toy_contract\<lparr>mc_foreign_chain_policy_votes := [(''b'', toy_policy)]\<rparr>"
  have "is_ok (vote_foreign_chain_policy (toy_env ''a'') toy_policy ?c)"
    by code_simp
  moreover have "case vote_foreign_chain_policy (toy_env ''a'') toy_policy ?c of
      Inr (_, c', fx) \<Rightarrow> mc_foreign_chain_policy c' = toy_policy | Inl _ \<Rightarrow> False"
    by code_simp
  ultimately obtain c' fx where v: "exec toy_lib (toy_env ''a'') (OpVoteForeignChainPolicy toy_policy) ?c = Inr (c', fx)"
    "mc_foreign_chain_policy c' = toy_policy"
    by (auto simp: outcome_Inr split: sum.splits)
  moreover have "mc_foreign_chain_policy ?c \<noteq> toy_policy"
    by (simp add: toy_contract_def contract_new_def foreign_chain_policy_default_def toy_policy_def fun_eq_iff)
  ultimately have "mc_foreign_chain_policy_votes c' = []"
    using policy_needs_everybody [OF v(1)] by auto
  with v show ?thesis by blast
qed

section \<open>Node migrations\<close>


definition toy_destination :: destination_node_info where
  "toy_destination = \<lparr>dn_signer_account_pk = NearPublicKey (0 # replicate 32 1),
     dn_destination_node_info = \<lparr>pi_url = ''w'', pi_sign_pk = NearPublicKey (0 # replicate 32 1)\<rparr>\<rparr>"

definition toy_migrating :: "int mpc_contract" where
  "toy_migrating = toy_contract\<lparr>mc_node_migrations := set_destination_node_info ''a'' toy_destination node_migrations_default\<rparr>"


section \<open>Deposits for attestations\<close>

text \<open>
  The attestations are part of the contract's root state, which is written back only after the
  method has returned, so that the storage usage the method reads the second time is the one it
  read the first time. A new attestation is then stored for free: the whole deposit goes back.
\<close>

lemma attestation_storage_is_free:
  assumes "submit_participant_info L env a tls c = Inr (u, c', fx)" "storage_usage_after env = storage_usage_before env"
  shows "only_refunds fx \<and> (fx = [] \<or> fx = [Scheduled (signer_account_id env, [TransferAction (attached_deposit env)])])
    \<and> (attached_deposit env = 0 \<or> fx \<noteq> [] \<or> is_ok (voter_account env c'))"
  using assms unfolding submit_participant_info_def Let_def
  by (elim and_then_InrE)
    (auto simp: assert_caller_is_signer_def token_saturating_mul_def token_checked_sub_def word_gt_0
      split: sum.splits failure.splits if_splits option.splits prod.splits)

end
