(* ===== verification/Unique_Ids.thy ===== *)
theory Unique_Ids
  imports Borsh Collections
begin

text \<open>
  \<open>UniqueId\<close> of \<open>crates/node/src/primitives.rs\<close>: participant, second and counter packed into
  128 bits, its big-endian encoding as a database key, and the reservation of ranges of
  identifiers by \<open>DistributedAssetStorage\<close> of \<open>crates/node/src/assets.rs\<close>.

  The node is built with the profile \<open>reproducible\<close>, which switches overflow checks on and
  aborts on a panic: \<open>None\<close> is a panic here.
\<close>

unbundle bit_operations_syntax

section \<open>Identifiers\<close>

type_synonym unique_id = u128

definition unique_id_new :: "u32 \<Rightarrow> u64 \<Rightarrow> u32 \<Rightarrow> unique_id" where
  "unique_id_new participant_id timestamp counter =
     (push_bit 96 (ucast participant_id) OR push_bit 32 (ucast timestamp)) OR ucast counter"

definition unique_id_generate :: "u64 \<Rightarrow> u32 \<Rightarrow> unique_id" where
  "unique_id_generate now participant_id = unique_id_new participant_id now 0"

definition uid_participant_id :: "unique_id \<Rightarrow> u32" where
  "uid_participant_id i = ucast (drop_bit 96 i)"

definition uid_timestamp :: "unique_id \<Rightarrow> u64" where
  "uid_timestamp i = ucast (drop_bit 32 i AND (push_bit 64 1 - 1))"

definition uid_counter :: "unique_id \<Rightarrow> u32" where
  "uid_counter i = ucast (i AND (push_bit 32 1 - 1))"

definition u32_checked_add :: "u32 \<Rightarrow> u32 \<Rightarrow> u32 option" where
  "u32_checked_add a b = (if uint a + uint b < 2 ^ 32 then Some (a + b) else None)"

definition pick_new_after :: "u64 \<Rightarrow> unique_id \<Rightarrow> unique_id option" where
  "pick_new_after now i =
     (if uid_timestamp i < now then Some (unique_id_new (uid_participant_id i) now 0)
      else map_option (unique_id_new (uid_participant_id i) (uid_timestamp i)) (u32_checked_add (uid_counter i) 1))"

definition add_to_counter :: "u32 \<Rightarrow> unique_id \<Rightarrow> unique_id option" where
  "add_to_counter delta i =
     map_option (unique_id_new (uid_participant_id i) (uid_timestamp i)) (u32_checked_add (uid_counter i) delta)"

definition generate_and_reserve_id_range ::
  "u64 \<Rightarrow> u32 \<Rightarrow> u32 \<Rightarrow> unique_id option \<Rightarrow> (unique_id \<times> unique_id option) option" where
  "generate_and_reserve_id_range now my_participant_id count last_id =
     (if count = 0 then None
      else case (case last_id of Some l \<Rightarrow> pick_new_after now l | None \<Rightarrow> Some (unique_id_generate now my_participant_id)) of
        None \<Rightarrow> None
      | Some start \<Rightarrow> (case add_to_counter (count - 1) start of
          None \<Rightarrow> None
        | Some end_id \<Rightarrow> Some (start, Some end_id)))"

section \<open>Keys\<close>

definition uid_serialize :: "unique_id \<Rightarrow> bytes" where
  "uid_serialize i = rev (le_bytes 16 (uint i))"

definition uid_try_from_slice :: "bytes \<Rightarrow> unique_id option" where
  "uid_try_from_slice bs = (if length bs = 16 then Some (of_int (le_value (rev bs))) else None)"

definition u32_to_be_bytes :: "u32 \<Rightarrow> bytes" where
  "u32_to_be_bytes x = rev (le_bytes 4 (uint x))"

definition domain_be_bytes :: "u64 \<Rightarrow> bytes" where
  "domain_be_bytes x = rev (le_bytes 8 (uint x))"

definition prefix_for_participant_id :: "u32 \<Rightarrow> bytes" where
  "prefix_for_participant_id p = u32_to_be_bytes p"

definition domain_prefix :: "u64 option \<Rightarrow> bytes" where
  "domain_prefix d = (case d of None \<Rightarrow> [] | Some i \<Rightarrow> domain_be_bytes i)"

definition make_prefix_range :: "u32 \<Rightarrow> u64 option \<Rightarrow> (bytes \<times> bytes) option" where
  "make_prefix_range participant_id domain_id =
     map_option (\<lambda>next_id. (domain_prefix domain_id @ prefix_for_participant_id participant_id,
       domain_prefix domain_id @ prefix_for_participant_id next_id)) (u32_checked_add participant_id 1)"

definition make_key :: "u64 option \<Rightarrow> unique_id \<Rightarrow> bytes" where
  "make_key domain_id i = domain_prefix domain_id @ uid_serialize i"

text \<open>Slicing off the domain panics when the key is too short; reading the rest may fail.\<close>

definition decode_key :: "bytes \<Rightarrow> u64 option \<Rightarrow> unique_id option option" where
  "decode_key key domain_id =
     (if domain_id = None then Some (uid_try_from_slice key)
      else if length key < 8 then None else Some (uid_try_from_slice (drop 8 key)))"

section \<open>The parts of an identifier\<close>

lemma or_push_bit:
  fixes a b :: int
  assumes "0 \<le> b" "b < 2 ^ n"
  shows "push_bit n a OR b = a * 2 ^ n + b"
proof -
  have "take_bit n b = b"
    using assms by (simp add: take_bit_int_eq_self)
  then show ?thesis
    using concat_bit_eq [of n b a] by (simp add: concat_bit_def push_bit_eq_mult or.commute add.commute)
qed

lemma uint_bound [simp]: "uint (x :: u32) < 4294967296" "uint (y :: u64) < 18446744073709551616"
  using uint_bounded [of x] uint_bounded [of y] by simp_all

lemma int_digits:
  fixes a b m :: int
  assumes "0 \<le> b" "b < m"
  shows "(a * m + b) mod m = b" "(a * m + b) div m = a"
  using assms by simp_all

lemma uint_push_ucast:
  fixes x :: "'a::len word"
  assumes "LENGTH('a) + n \<le> 128"
  shows "uint (push_bit n (ucast x) :: u128) = push_bit n (uint x)"
proof -
  have "uint x * 2 ^ n < 2 ^ LENGTH('a) * 2 ^ n"
    by (simp add: uint_bounded)
  also have "\<dots> \<le> (2 :: int) ^ 128"
    using assms by (simp only: power_add [symmetric]) (rule power_increasing, simp_all)
  finally have less: "uint x * 2 ^ n < 2 ^ 128" .
  have "uint x < 2 ^ 128"
    by (rule less_le_trans [OF uint_bounded], rule power_increasing) (use assms in simp_all)
  then have "uint (ucast x :: u128) = uint x"
    by (simp add: unsigned_ucast_eq take_bit_int_eq_self)
  then show ?thesis
    using less by (simp only: unsigned_push_bit_eq) (simp add: take_bit_int_eq_self push_bit_eq_mult)
qed

lemma uint_unique_id_new:
  "uint (unique_id_new p t c) = (uint p * 2 ^ 64 + uint t) * 2 ^ 32 + uint c"
proof -
  have c: "uint (ucast c :: u128) = uint c"
    using uint_push_ucast [of 0 c] by simp
  have "push_bit 96 (uint p) OR push_bit 32 (uint t) = push_bit 32 (push_bit 64 (uint p) OR uint t)"
    by (simp add: push_bit_or)
  also have "push_bit 64 (uint p) OR uint t = uint p * 2 ^ 64 + uint t"
    by (rule or_push_bit) simp_all
  finally show ?thesis
    unfolding unique_id_new_def uint_or c
    by (simp only: uint_push_ucast [of 96 p, simplified] uint_push_ucast [of 32 t, simplified])
      (rule or_push_bit, simp_all)
qed

lemma uint_parts:
  "uint (uid_participant_id i) = uint i div 2 ^ 96" "uint (uid_timestamp i) = uint i div 2 ^ 32 mod 2 ^ 64"
  "uint (uid_counter i) = uint i mod 2 ^ 32"
proof -
  have "uint i div 2 ^ 96 < 2 ^ 32"
    using uint_bounded [of i] by (simp add: div_less_iff_less_mult)
  then show "uint (uid_participant_id i) = uint i div 2 ^ 96"
    unfolding uid_participant_id_def unsigned_ucast_eq unsigned_drop_bit_eq
    by (simp add: drop_bit_eq_div take_bit_int_eq_self pos_imp_zdiv_nonneg_iff)
  have m: "x AND (push_bit n 1 - 1) = take_bit n x" for x :: u128 and n
    by (simp add: take_bit_eq_mask mask_eq_exp_minus_1 push_bit_eq_mult)
  have "uint i mod 340282366920938463463374607431768211456 = uint i"
    using uint_bounded [of i] by (intro mod_pos_pos_trivial) simp_all
  then show "uint (uid_timestamp i) = uint i div 2 ^ 32 mod 2 ^ 64" "uint (uid_counter i) = uint i mod 2 ^ 32"
    unfolding uid_timestamp_def uid_counter_def m unsigned_ucast_eq unsigned_take_bit_eq unsigned_drop_bit_eq
    by (simp_all add: drop_bit_eq_div take_bit_eq_mod)
qed

lemma unique_id_parts [simp]:
  "uid_participant_id (unique_id_new p t c) = p" "uid_timestamp (unique_id_new p t c) = t"
  "uid_counter (unique_id_new p t c) = c"
proof -
  let ?n = "uint (unique_id_new p t c)"
  have c: "?n mod 2 ^ 32 = uint c" and d: "?n div 2 ^ 32 = uint p * 2 ^ 64 + uint t"
    unfolding uint_unique_id_new by (rule int_digits; simp)+
  have "?n div 2 ^ 96 = ?n div 2 ^ 32 div 2 ^ 64"
    by (simp add: zdiv_zmult2_eq [symmetric])
  moreover have "?n div 2 ^ 32 div 2 ^ 64 = uint p" "?n div 2 ^ 32 mod 2 ^ 64 = uint t"
    unfolding d by (rule int_digits; simp)+
  ultimately show "uid_participant_id (unique_id_new p t c) = p" "uid_timestamp (unique_id_new p t c) = t"
    "uid_counter (unique_id_new p t c) = c"
    using c by (simp_all only: word_uint_eq_iff uint_parts)
qed

lemma unique_id_of_parts: "unique_id_new (uid_participant_id i) (uid_timestamp i) (uid_counter i) = i"
proof -
  have "uint i div 2 ^ 96 = uint i div 2 ^ 32 div 2 ^ 64"
    by (simp add: zdiv_zmult2_eq [symmetric])
  then show ?thesis
    by (simp only: word_uint_eq_iff uint_unique_id_new uint_parts div_mult_mod_eq)
qed


lemma digits_less:
  fixes a b c d m :: int
  assumes "0 \<le> c" "c < m" "0 \<le> d" "d < m"
  shows "a * m + c < b * m + d \<longleftrightarrow> a < b \<or> a = b \<and> c < d"
proof (cases a b rule: linorder_cases)
  case less
  then have "(a + 1) * m \<le> b * m"
    using assms by (intro mult_right_mono) simp_all
  with less assms show ?thesis
    by (simp add: distrib_right)
next
  case greater
  then have "(b + 1) * m \<le> a * m"
    using assms by (intro mult_right_mono) simp_all
  with greater assms show ?thesis
    by (simp add: distrib_right)
qed (use assms in simp)

lemma unique_id_less:
  "unique_id_new p t c < unique_id_new p t' c' \<longleftrightarrow> t < t' \<or> t = t' \<and> c < c'"
proof -
  have "(uint p * 2 ^ 64 + uint t) * 2 ^ 32 + uint c < (uint p * 2 ^ 64 + uint t') * 2 ^ 32 + uint c'
      \<longleftrightarrow> uint p * 2 ^ 64 + uint t < uint p * 2 ^ 64 + uint t'
        \<or> uint p * 2 ^ 64 + uint t = uint p * 2 ^ 64 + uint t' \<and> uint c < uint c'"
    by (rule digits_less) simp_all
  then show ?thesis
    by (simp only: word_less_def uint_unique_id_new add_less_cancel_left add_left_cancel word_uint_eq_iff)
qed

section \<open>Reservation\<close>

lemma u32_checked_add_unat:
  "u32_checked_add a b = (if unat a + unat b < 2 ^ 32 then Some (a + b) else None)"
proof -
  have "int (unat a + unat b) < int (2 ^ 32) \<longleftrightarrow> unat a + unat b < 2 ^ 32"
    by (rule of_nat_less_iff)
  then show ?thesis
    unfolding u32_checked_add_def uint_nat by simp
qed

lemma u32_checked_add_Some:
  "u32_checked_add a b = Some c \<longleftrightarrow> unat a + unat b < 2 ^ 32 \<and> c = a + b"
  by (auto simp: u32_checked_add_unat)

lemma unat_checked_add: "u32_checked_add a b = Some c \<Longrightarrow> unat c = unat a + unat b"
  by (auto simp: u32_checked_add_Some intro: unat_add_lem [THEN iffD1])

text \<open>The identifiers of the range that starts at \<open>i\<close>.\<close>

definition reserved_ids :: "unique_id \<Rightarrow> u32 \<Rightarrow> unique_id list" where
  "reserved_ids i count = map (\<lambda>k. the (add_to_counter (of_nat k) i)) [0 ..< unat count]"

lemma reserve_shape:
  assumes "generate_and_reserve_id_range now me count lst = Some (start, lst')"
    and "case lst of Some l \<Rightarrow> uid_participant_id l = me | None \<Rightarrow> True"
  shows "count \<noteq> 0" "uid_participant_id start = me" "unat (uid_counter start) + unat (count - 1) < 2 ^ 32"
    "lst' = Some (unique_id_new me (uid_timestamp start) (uid_counter start + (count - 1)))"
    "\<And>l. lst = Some l \<Longrightarrow> l < start"
proof -
  obtain end_id where e: "count \<noteq> 0" "add_to_counter (count - 1) start = Some end_id" "lst' = Some end_id"
    "(case lst of Some l \<Rightarrow> pick_new_after now l | None \<Rightarrow> Some (unique_id_generate now me)) = Some start"
    using assms(1) by (auto simp: generate_and_reserve_id_range_def dest!: sym [of "Some _"] split: if_splits option.splits)
  show me: "uid_participant_id start = me"
    using e(4) assms(2) by (auto simp: pick_new_after_def unique_id_generate_def split: option.splits if_splits)
  show "count \<noteq> 0" "unat (uid_counter start) + unat (count - 1) < 2 ^ 32"
    "lst' = Some (unique_id_new me (uid_timestamp start) (uid_counter start + (count - 1)))"
    using e me by (auto simp: add_to_counter_def u32_checked_add_Some)
  show "l < start" if l: "lst = Some l" for l
  proof -
    have "l = unique_id_new me (uid_timestamp l) (uid_counter l)"
      using assms(2) l unique_id_of_parts [of l] by simp
    moreover have "uid_counter l < uid_counter l + 1" if "unat (uid_counter l) + unat (1 :: u32) < 2 ^ 32"
      using unat_checked_add [of "uid_counter l" 1] that by (simp add: u32_checked_add_Some word_less_nat_alt)
    ultimately show ?thesis
      using e(4) l assms(2) unique_id_less [of me "uid_timestamp l" "uid_counter l"]
      by (auto simp: pick_new_after_def u32_checked_add_Some split: if_splits)
  qed
qed


lemma add_to_counter_Some:
  assumes "unat (uid_counter i) + unat d < 2 ^ 32"
  shows "add_to_counter d i = Some (unique_id_new (uid_participant_id i) (uid_timestamp i) (uid_counter i + d))"
  using assms by (simp add: add_to_counter_def u32_checked_add_unat)

lemma unat_of_nat_below: "k < unat (count :: u32) \<Longrightarrow> unat (of_nat k :: u32) = k"
  unfolding unat_of_nat by (rule mod_less, rule less_trans, assumption, rule unsigned_less)

lemma unat_below_count:
  assumes "count \<noteq> 0" "unat c + unat (count - 1) < 2 ^ 32" "k < unat (count :: u32)"
  shows "unat (c :: u32) + k < 2 ^ 32"
  using assms(2,3) unat_minus_one [OF assms(1)] by linarith

lemma unat_counter_offset:
  assumes "count \<noteq> 0" "unat c + unat (count - 1) < 2 ^ 32" "k < unat (count :: u32)"
  shows "unat (c + of_nat k :: u32) = unat c + k"
  using unat_checked_add [of c "of_nat k"] unat_below_count [OF assms]
  by (simp only: u32_checked_add_unat unat_of_nat_below [OF assms(3)] if_True)

lemma reserved_ids_map:
  assumes "count \<noteq> 0" "unat (uid_counter i) + unat (count - 1) < 2 ^ 32"
  shows "reserved_ids i count =
    map (\<lambda>k. unique_id_new (uid_participant_id i) (uid_timestamp i) (uid_counter i + of_nat k)) [0 ..< unat count]"
proof -
  have "the (add_to_counter (of_nat k) i)
      = unique_id_new (uid_participant_id i) (uid_timestamp i) (uid_counter i + of_nat k)" if "k < unat count" for k
    using add_to_counter_Some [of i "of_nat k"] unat_below_count [OF assms that]
    by (simp only: unat_of_nat_below [OF that] option.sel)
  then show ?thesis
    unfolding reserved_ids_def by (intro map_cong) simp_all
qed

text \<open>A range is increasing, and its last identifier is the one the reservation remembers.\<close>

lemma reserved_ids_increasing:
  assumes "count \<noteq> 0" "unat (uid_counter i) + unat (count - 1) < 2 ^ 32"
  shows "sorted_wrt (<) (reserved_ids i count)"
    and "i \<in> set (reserved_ids i count)"
    and "j \<in> set (reserved_ids i count) \<Longrightarrow> uid_participant_id j = uid_participant_id i \<and> i \<le> j
      \<and> j \<le> unique_id_new (uid_participant_id i) (uid_timestamp i) (uid_counter i + (count - 1))"
proof -
  note offset = unat_counter_offset [OF assms]
  show "sorted_wrt (<) (reserved_ids i count)"
    by (auto simp: reserved_ids_map [OF assms] sorted_wrt_map unique_id_less word_less_nat_alt [of "_ :: u32"] offset
        sorted_wrt_iff_nth_less)
  show "i \<in> set (reserved_ids i count)"
    using assms(1) by (simp add: reserved_ids_map [OF assms] image_iff)
      (rule bexI [of _ 0], simp_all add: unique_id_of_parts unat_gt_0)
  assume "j \<in> set (reserved_ids i count)"
  then obtain k where k: "k < unat count"
    "j = unique_id_new (uid_participant_id i) (uid_timestamp i) (uid_counter i + of_nat k)"
    by (auto simp: reserved_ids_map [OF assms])
  have "unat (count - 1) = unat count - 1"
    using assms(1) by (rule unat_minus_one)
  then have "of_nat (unat count - 1) = (of_nat (unat (count - 1)) :: u32)"
    by simp
  then have "of_nat (unat count - 1) = count - 1"
    by (simp only: of_nat_unat ucast_id)
  then have last: "unat (uid_counter i + (count - 1)) = unat (uid_counter i) + (unat count - 1)"
    using offset [of "unat count - 1"] assms(1) by (simp add: unat_gt_0)
  have "\<not> j < unique_id_new (uid_participant_id i) (uid_timestamp i) (uid_counter i)"
    "\<not> unique_id_new (uid_participant_id i) (uid_timestamp i) (uid_counter i + (count - 1)) < j"
    using k(1) unfolding k(2) by (auto simp: unique_id_less word_less_nat_alt [of "_ :: u32"] offset last)
  then show "uid_participant_id j = uid_participant_id i \<and> i \<le> j
      \<and> j \<le> unique_id_new (uid_participant_id i) (uid_timestamp i) (uid_counter i + (count - 1))"
    using k(2) by (simp add: unique_id_of_parts not_less)
qed

fun reserve_run :: "u32 \<Rightarrow> (u64 \<times> u32) list \<Rightarrow> unique_id option \<Rightarrow> unique_id list option" where
  "reserve_run me [] last_id = Some []"
| "reserve_run me ((now, count) # calls) last_id =
     (case generate_and_reserve_id_range now me count last_id of
        None \<Rightarrow> None
      | Some (start, last_id') \<Rightarrow> map_option ((@) (reserved_ids start count)) (reserve_run me calls last_id'))"

text \<open>
  C33: however the clock moves between the calls, the identifiers of all the ranges one storage
  reserves are strictly increasing, hence never reused, follow the last identifier in use, belong
  to this participant, and are as many as were asked for.
\<close>

theorem reserved_ids_never_reused:
  assumes "reserve_run me calls last_id = Some ids"
    and "case last_id of Some l \<Rightarrow> uid_participant_id l = me | None \<Rightarrow> True"
  shows "sorted_wrt (<) ids \<and> (\<forall>i \<in> set ids. uid_participant_id i = me)
    \<and> (\<forall>i \<in> set ids. case last_id of Some l \<Rightarrow> l < i | None \<Rightarrow> True)
    \<and> length ids = (\<Sum>(now, count) \<leftarrow> calls. unat count)"
  using assms
proof (induction me calls last_id arbitrary: ids rule: reserve_run.induct)
  case (2 me now count calls last_id)
  obtain start l' ids' where r: "generate_and_reserve_id_range now me count last_id = Some (start, l')"
    "reserve_run me calls l' = Some ids'" "ids = reserved_ids start count @ ids'"
    using "2.prems"(1) by (auto split: option.splits)
  note shape = reserve_shape [OF r(1) "2.prems"(2)]
  note range = reserved_ids_increasing [OF shape(1) shape(3)]
  have l': "case l' of Some l \<Rightarrow> uid_participant_id l = me | None \<Rightarrow> True"
    by (simp add: shape(4))
  note IH = "2.IH" [OF r(1) refl r(2) l']
  have after: "i < j" if "i \<in> set (reserved_ids start count)" "j \<in> set ids'" for i j
    using range(3) [OF that(1)] IH that(2) by (auto simp: shape(2,4))
  have new: "case last_id of Some l \<Rightarrow> l < i | None \<Rightarrow> True" if "i \<in> set ids" for i
  proof (cases last_id)
    case (Some l)
    have "start \<le> i"
      using that range(3) [of i] after [OF range(2), of i] by (auto simp: r(3))
    with shape(5) [OF Some] Some show ?thesis by simp
  qed simp
  have "sorted_wrt (<) ids"
    using IH range(1) after by (simp add: r(3) sorted_wrt_append)
  moreover have "uid_participant_id i = me" if "i \<in> set ids" for i
    using that IH range(3) [of i] by (auto simp: r(3) shape(2))
  moreover have "length ids = unat count + (\<Sum>(now, count) \<leftarrow> calls. unat count)"
    using IH by (simp add: r(3) reserved_ids_def)
  ultimately show ?case
    using new by simp
qed simp


text \<open>Three calls: the clock stands still before the second one and runs backwards before the third.\<close>

theorem reserved_ids_never_reused_witness:
  "\<exists>ids. reserve_run 7 [(100, 2), (100, 1), (50, 2)] None = Some ids \<and> length ids = 5 \<and> distinct ids"
proof -
  have "reserve_run 7 [(100, 2), (100, 1), (50, 2)] None \<noteq> None"
    by (simp add: generate_and_reserve_id_range_def unique_id_generate_def pick_new_after_def add_to_counter_def
        u32_checked_add_def)
  then obtain ids where ids: "reserve_run 7 [(100, 2), (100, 1), (50, 2)] None = Some ids"
    by auto
  show ?thesis
    using reserved_ids_never_reused [OF ids] ids by (simp add: strict_sorted_iff)
qed

section \<open>Order of the keys\<close>

lemma append_less_append:
  fixes xs ys us vs :: "'a::linorder list"
  assumes "length xs = length ys"
  shows "xs @ us < ys @ vs \<longleftrightarrow> xs < ys \<or> xs = ys \<and> us < vs"
  using assms by (induction xs ys rule: list_induct2) auto

lemma le_bytes_add: "le_bytes (j + k) n = le_bytes j n @ le_bytes k (n div 256 ^ j)"
proof (rule nth_equalityI)
  fix i
  assume "i < length (le_bytes (j + k) n)"
  then show "le_bytes (j + k) n ! i = (le_bytes j n @ le_bytes k (n div 256 ^ j)) ! i"
    by (cases "i < j") (auto simp: le_bytes_def nth_append zdiv_zmult2_eq [symmetric] power_add [symmetric])
qed simp

text \<open>Big-endian encodings of one length are ordered as the numbers.\<close>

lemma be_bytes_less:
  "rev (le_bytes k a) < rev (le_bytes k b) \<longleftrightarrow> a mod 256 ^ k < b mod 256 ^ k"
proof (induction k)
  case (Suc k)
  have split: "x mod 256 ^ Suc k = (x div 256 ^ k mod 256) * 256 ^ k + x mod 256 ^ k" for x :: int
    using zmod_zmult2_eq [of 256 x "256 ^ k"] by (simp add: mult.commute)
  have "rev (le_bytes (Suc k) x) = of_int (x div 256 ^ k) # rev (le_bytes k x)" for x
    using le_bytes_add [of k 1 x] by (simp add: le_bytes_def [of "Suc 0"])
  then have "rev (le_bytes (Suc k) a) < rev (le_bytes (Suc k) b) \<longleftrightarrow> a div 256 ^ k mod 256 < b div 256 ^ k mod 256
      \<or> a div 256 ^ k mod 256 = b div 256 ^ k mod 256 \<and> a mod 256 ^ k < b mod 256 ^ k"
    using Suc by (simp only: Cons_less_Cons word_less_def word_uint_eq_iff uint_of_int_u8)
  also have "\<dots> \<longleftrightarrow> a mod 256 ^ Suc k < b mod 256 ^ Suc k"
    unfolding split by (rule digits_less [symmetric]) simp_all
  finally show ?case .
qed (simp add: le_bytes_def)

lemma be_bytes_eq:
  "le_bytes k a = le_bytes k b \<longleftrightarrow> a mod 256 ^ k = b mod 256 ^ k"
  using be_bytes_less [of k a b] be_bytes_less [of k b a] by (metis linorder_neq_iff rev_is_rev_conv)

lemma be_order:
  "u32_to_be_bytes p < u32_to_be_bytes q \<longleftrightarrow> p < q" "u32_to_be_bytes p = u32_to_be_bytes q \<longleftrightarrow> p = q"
  "domain_be_bytes d < domain_be_bytes e \<longleftrightarrow> d < e" "domain_be_bytes d = domain_be_bytes e \<longleftrightarrow> d = e"
  "uid_serialize i < uid_serialize j \<longleftrightarrow> i < j" "uid_serialize i = uid_serialize j \<longleftrightarrow> i = j"
  by (simp_all add: u32_to_be_bytes_def domain_be_bytes_def uid_serialize_def be_bytes_less be_bytes_eq
      word_less_def word_uint_eq_iff mod_pos_pos_trivial uint_bounded [where 'a = 128, simplified])

lemma length_be [simp]:
  "length (u32_to_be_bytes p) = 4" "length (domain_be_bytes d) = 8" "length (uid_serialize i) = 16"
  by (simp_all add: u32_to_be_bytes_def domain_be_bytes_def uid_serialize_def)

text \<open>An encoded identifier starts with its participant.\<close>

lemma uid_serialize_participant:
  "uid_serialize i = u32_to_be_bytes (uid_participant_id i) @ rev (le_bytes 12 (uint i))"
  using le_bytes_add [of 12 4 "uint i"] by (simp add: uid_serialize_def u32_to_be_bytes_def uint_parts)

lemma uid_roundtrip: "uid_try_from_slice (uid_serialize i) = Some i"
proof -
  have "le_value (le_bytes 16 (uint i)) = uint i"
    using uint_bounded [of i] by (intro le_value_le_bytes) simp_all
  then show ?thesis
    by (simp add: uid_try_from_slice_def uid_serialize_def)
qed

lemma decode_make_key: "decode_key (make_key d i) d = Some (Some i)"
  by (simp add: decode_key_def make_key_def domain_prefix_def uid_roundtrip split: option.splits)

lemma make_key_inj: "make_key d i = make_key d j \<longleftrightarrow> i = j"
  by (simp add: make_key_def be_order)

lemma make_key_less: "make_key d i < make_key d j \<longleftrightarrow> i < j"
  by (simp add: make_key_def append_less_append be_order)

lemma domain_prefix_order:
  assumes "d = None \<longleftrightarrow> e = None"
  shows "length (domain_prefix d) = length (domain_prefix e)"
    and "domain_prefix d = domain_prefix e \<longleftrightarrow> d = e"
  using assms by (auto simp: domain_prefix_def be_order split: option.splits)

lemma key_range:
  assumes "make_prefix_range p d = Some (start, end_key)" and "d = None \<longleftrightarrow> e = None"
  shows "start \<le> make_key e i \<and> make_key e i < end_key \<longleftrightarrow> e = d \<and> uid_participant_id i = p"
proof -
  have range: "unat p + 1 < 2 ^ 32" "start = domain_prefix d @ u32_to_be_bytes p"
    "end_key = domain_prefix d @ u32_to_be_bytes (p + 1)"
    using assms(1) by (auto simp: make_prefix_range_def prefix_for_participant_id_def u32_checked_add_Some)
  let ?q = "uid_participant_id i" and ?r = "rev (le_bytes 12 (uint i))"
  have key: "make_key e i = domain_prefix e @ u32_to_be_bytes ?q @ ?r"
    by (simp add: make_key_def uid_serialize_participant)
  have prefix: "length (domain_prefix e) = length (domain_prefix d)" "domain_prefix e = domain_prefix d \<longleftrightarrow> e = d"
    using domain_prefix_order [of e d] assms(2) by simp_all
  have "u32_to_be_bytes ?q @ ?r < u32_to_be_bytes n \<longleftrightarrow> ?q < n" for n
    using append_less_append [of "u32_to_be_bytes ?q" "u32_to_be_bytes n" ?r "[]"] by (simp add: be_order)
  then have less: "make_key e i < domain_prefix d @ u32_to_be_bytes n \<longleftrightarrow>
      domain_prefix e < domain_prefix d \<or> e = d \<and> ?q < n" for n
    by (simp only: key append_less_append [OF prefix(1)] prefix(2))
  have "unat (p + 1) = unat p + 1"
    using unat_checked_add [of p 1 "p + 1"] range(1) by (simp add: u32_checked_add_Some)
  then have "?q < p + 1 \<longleftrightarrow> unat ?q \<le> unat p"
    by (simp only: word_less_nat_alt less_Suc_eq_le Suc_eq_plus1 [symmetric])
  then have "\<not> (domain_prefix e < domain_prefix d \<or> e = d \<and> ?q < p) \<and> (domain_prefix e < domain_prefix d \<or> e = d \<and> ?q < p + 1)
      \<longleftrightarrow> e = d \<and> ?q = p"
    unfolding word_less_nat_alt [of ?q p] word_unat_eq_iff [of ?q p] by fastforce
  then show ?thesis
    by (simp only: range(2,3) linorder_not_less [symmetric] less)
qed


text \<open>A key of the range that decodes at all is the key of its identifier.\<close>

lemma le_bytes_le_value: "length bs = k \<Longrightarrow> le_bytes k (le_value bs) = bs \<and> 0 \<le> le_value bs \<and> le_value bs < 256 ^ k"
proof (induction bs arbitrary: k)
  case (Cons b bs)
  let ?n = "le_value bs"
  have IH: "le_bytes (length bs) ?n = bs" "0 \<le> ?n" "?n < 256 ^ length bs"
    using Cons.IH by simp_all
  have b: "0 \<le> uint b" "uint b < 256"
    using uint_bounded [of b] by simp_all
  have v: "le_value (b # bs) = ?n * 256 + uint b"
    by (simp add: le_value_def)
  have "(of_int (le_value (b # bs)) :: u8) = b"
    unfolding v word_uint_eq_iff uint_of_int_u8 using b by simp
  moreover have "le_value (b # bs) div 256 = ?n"
    using b by (simp add: v)
  ultimately have "le_bytes (Suc (length bs)) (le_value (b # bs)) = b # bs"
    using le_bytes_add [of 1 "length bs" "le_value (b # bs)"] IH(1) by (simp add: le_bytes_def [of "Suc 0"])
  moreover have "?n * 256 + uint b < 256 ^ length bs * 256"
    using IH(3) b by linarith
  ultimately show ?case
    using Cons.prems IH(2) b v by auto
qed (simp add: le_bytes_def le_value_def)

lemma uid_try_from_slice_Some: "uid_try_from_slice bs = Some i \<Longrightarrow> bs = uid_serialize i"
proof -
  assume "uid_try_from_slice bs = Some i"
  then have bs: "length bs = 16" "i = of_int (le_value (rev bs))"
    by (auto simp: uid_try_from_slice_def split: if_splits)
  then have v: "le_bytes 16 (le_value (rev bs)) = rev bs" "0 \<le> le_value (rev bs)" "le_value (rev bs) < 256 ^ 16"
    using le_bytes_le_value [of "rev bs" 16] by simp_all
  then have "uint i = le_value (rev bs)"
    unfolding bs(2) uint_word_of_int by (intro mod_pos_pos_trivial) simp_all
  then show "bs = uid_serialize i"
    using v(1) by (simp add: uid_serialize_def)
qed

lemma key_in_range:
  assumes "make_prefix_range p d = Some (start, end_key)" "start \<le> key" "key < end_key"
    and "decode_key key d = Some (Some i)"
  shows "key = make_key d i" "uid_participant_id i = p"
proof -
  have range: "start = domain_prefix d @ u32_to_be_bytes p" "end_key = domain_prefix d @ u32_to_be_bytes (p + 1)"
    using assms(1) by (auto simp: make_prefix_range_def prefix_for_participant_id_def u32_checked_add_Some)
  show "key = make_key d i"
  proof (cases d)
    case None
    then show ?thesis
      using assms(4) by (auto simp: decode_key_def make_key_def domain_prefix_def dest: uid_try_from_slice_Some)
  next
    case (Some e)
    then have key: "8 \<le> length key" "drop 8 key = uid_serialize i"
      using assms(4) by (auto simp: decode_key_def dest: uid_try_from_slice_Some split: if_splits)
    have less: "key < domain_be_bytes e @ bs \<longleftrightarrow> take 8 key < domain_be_bytes e \<or> take 8 key = domain_be_bytes e \<and> drop 8 key < bs" for bs
      using append_less_append [of "take 8 key" "domain_be_bytes e" "drop 8 key" bs] key(1) by simp
    have "take 8 key = domain_be_bytes e"
      using assms(2,3) Some unfolding range linorder_not_less [symmetric] by (auto simp: domain_prefix_def less)
    then show ?thesis
      using append_take_drop_id [of 8 key] key(2) Some by (simp add: make_key_def domain_prefix_def)
  qed
  then show "uid_participant_id i = p"
    using key_range [OF assms(1), of d i] assms(2,3) by simp
qed

lemma make_key_domains: "d \<noteq> e \<Longrightarrow> (d = None \<longleftrightarrow> e = None) \<Longrightarrow> make_key d i \<noteq> make_key e j"
  using domain_prefix_order [of d e] by (auto simp: make_key_def)

text \<open>
  C34: a database key decodes to its identifier, keys are ordered as the identifiers, and the range
  that a participant scans in one domain holds exactly the keys of the identifiers that this
  participant owns in this domain.
\<close>

theorem key_range_is_participant:
  assumes "make_prefix_range p d = Some (start, end_key)" and "d = None \<longleftrightarrow> e = None"
  shows "(start \<le> make_key e i \<and> make_key e i < end_key \<longleftrightarrow> e = d \<and> uid_participant_id i = p)
    \<and> decode_key (make_key d i) d = Some (Some i) \<and> (make_key d i < make_key d j \<longleftrightarrow> i < j)"
  using key_range [OF assms] by (simp add: decode_make_key make_key_less)

theorem key_range_is_participant_witness:
  "\<exists>start end_key. make_prefix_range 3 (Some 5) = Some (start, end_key)
    \<and> start \<le> make_key (Some 5) (unique_id_new 3 100 7) \<and> make_key (Some 5) (unique_id_new 3 100 7) < end_key
    \<and> \<not> (start \<le> make_key (Some 5) (unique_id_new 4 0 0) \<and> make_key (Some 5) (unique_id_new 4 0 0) < end_key)
    \<and> \<not> (start \<le> make_key (Some 6) (unique_id_new 3 0 0) \<and> make_key (Some 6) (unique_id_new 3 0 0) < end_key)"
proof -
  obtain start end_key where r: "make_prefix_range 3 (Some 5) = Some (start, end_key)"
    by (simp add: make_prefix_range_def u32_checked_add_def)
  show ?thesis
    using r key_range_is_participant [OF r, of "Some 5" "unique_id_new 3 100 7"]
      key_range_is_participant [OF r, of "Some 5" "unique_id_new 4 0 0"]
      key_range_is_participant [OF r, of "Some 6" "unique_id_new 3 0 0"]
    by simp
qed

end
