(* ===== verification/Secret_Db.thy ===== *)
theory Secret_Db
  imports Unique_Ids
begin

text \<open>
  \<open>crates/node/src/db.rs\<close>: the node's database of encrypted values.  RocksDB and AES-GCM are
  parameters: a record of the operations the code calls, with the documented behaviour it relies
  on as the predicates \<open>rocksdb_laws\<close> and \<open>aes_laws\<close>.  An operation of the engine may fail with an
  I/O error; the laws say what it does when it does not.

  A handler of the node ends normally, returns an \<open>anyhow\<close> error or panics, which aborts the
  process.
\<close>

datatype 'a outcome = Done 'a | Failed | Panicked

fun obind :: "'a outcome \<Rightarrow> ('a \<Rightarrow> 'b outcome) \<Rightarrow> 'b outcome" where
  "obind (Done x) f = f x"
| "obind Failed f = Failed"
| "obind Panicked f = Panicked"

fun ok_or_failed :: "'a option \<Rightarrow> 'a outcome" where
  "ok_or_failed None = Failed"
| "ok_or_failed (Some x) = Done x"

fun unwrap :: "'a option \<Rightarrow> 'a outcome" where
  "unwrap None = Panicked"
| "unwrap (Some x) = Done x"

fun expect_ok :: "'a outcome \<Rightarrow> 'a outcome" where
  "expect_ok (Done x) = Done x"
| "expect_ok _ = Panicked"

section \<open>Columns and batches\<close>

datatype db_col = DbTriple | DbPresignature | DbSignRequest | DbCKDRequest | DbVerifyForeignTxRequest | DbEpochData

fun db_col_as_str :: "db_col \<Rightarrow> string" where
  "db_col_as_str DbTriple = ''triple''"
| "db_col_as_str DbPresignature = ''presignature''"
| "db_col_as_str DbSignRequest = ''sign_request''"
| "db_col_as_str DbCKDRequest = ''ckd_request''"
| "db_col_as_str DbVerifyForeignTxRequest = ''verify_foreign_tx_request''"
| "db_col_as_str DbEpochData = ''epoch_id''"

definition db_col_all :: "db_col list" where
  "db_col_all = [DbTriple, DbPresignature, DbSignRequest, DbCKDRequest, DbVerifyForeignTxRequest, DbEpochData]"

datatype batch_op =
    PutCf string bytes bytes
  | DeleteCf string bytes
  | DeleteRangeCf string bytes bytes

section \<open>The engine and the cipher\<close>

record 's rocksdb =
  rdb_get_cf :: "'s \<Rightarrow> string \<Rightarrow> bytes \<Rightarrow> bytes option option"
  rdb_iterator :: "'s \<Rightarrow> string \<Rightarrow> bytes \<Rightarrow> bytes \<Rightarrow> (bytes \<times> bytes) option list"
  rdb_first :: "'s \<Rightarrow> string \<Rightarrow> (bytes \<times> bytes) option option"
  rdb_last :: "'s \<Rightarrow> string \<Rightarrow> (bytes \<times> bytes) option option"
  rdb_write :: "batch_op list \<Rightarrow> 's \<Rightarrow> 's option"

record aes =
  aes_encrypt :: "bytes \<Rightarrow> bytes \<Rightarrow> bytes option"
  aes_decrypt :: "bytes \<Rightarrow> bytes \<Rightarrow> bytes option"

type_synonym column = "(bytes, bytes) btree_map"

fun apply_op :: "batch_op \<Rightarrow> (string \<Rightarrow> column) \<Rightarrow> string \<Rightarrow> column" where
  "apply_op (PutCf cf k v) m = m(cf := bt_insert k v (m cf))"
| "apply_op (DeleteCf cf k) m = m(cf := bt_remove k (m cf))"
| "apply_op (DeleteRangeCf cf a b) m = m(cf := filter (\<lambda>e. \<not> (a \<le> fst e \<and> fst e < b)) (m cf))"

definition apply_batch :: "batch_op list \<Rightarrow> (string \<Rightarrow> column) \<Rightarrow> string \<Rightarrow> column" where
  "apply_batch batch m = fold apply_op batch m"

definition ends_of :: "((bytes \<times> bytes) list \<Rightarrow> bytes \<times> bytes) \<Rightarrow> column \<Rightarrow> (bytes \<times> bytes) option" where
  "ends_of f m = (if m = [] then None else Some (f m))"

text \<open>
  What RocksDB documents: a column family is a map of keys in bytewise order, reads and iterators
  see the last write, an iterator visits the keys from a key up to an exclusive bound in order, and a
  write batch is applied as a whole, in the order of its operations.
\<close>

definition rocksdb_laws :: "'s rocksdb \<Rightarrow> ('s \<Rightarrow> string \<Rightarrow> column) \<Rightarrow> bool" where
  "rocksdb_laws R contents \<longleftrightarrow>
     (\<forall>s cf. bt_invar (contents s cf)) \<and>
     (\<forall>s cf k r. rdb_get_cf R s cf k = Some r \<longrightarrow> r = bt_get (contents s cf) k) \<and>
     (\<forall>s cf a b. None \<notin> set (rdb_iterator R s cf a b) \<longrightarrow>
        rdb_iterator R s cf a b = map Some (filter (\<lambda>e. a \<le> fst e \<and> fst e < b) (contents s cf))) \<and>
     (\<forall>s cf r. rdb_first R s cf = Some r \<longrightarrow> r = ends_of hd (contents s cf)) \<and>
     (\<forall>s cf r. rdb_last R s cf = Some r \<longrightarrow> r = ends_of last (contents s cf)) \<and>
     (\<forall>batch s s'. rdb_write R batch s = Some s' \<longrightarrow> contents s' = apply_batch batch (contents s))"

definition aes_laws :: "aes \<Rightarrow> bool" where
  "aes_laws C \<longleftrightarrow> (\<forall>nonce p c. aes_encrypt C nonce p = Some c \<longrightarrow> aes_decrypt C nonce c = Some p)"

definition NONCE_LEN :: nat where
  "NONCE_LEN = 12"

definition encrypt :: "aes \<Rightarrow> bytes \<Rightarrow> bytes \<Rightarrow> bytes outcome" where
  "encrypt cipher nonce plaintext = obind (unwrap (aes_encrypt cipher nonce plaintext)) (\<lambda>ciphertext. Done (nonce @ ciphertext))"

definition decrypt :: "aes \<Rightarrow> bytes \<Rightarrow> bytes outcome" where
  "decrypt cipher ciphertext =
     (if length ciphertext < NONCE_LEN then Failed
      else ok_or_failed (aes_decrypt cipher (take NONCE_LEN ciphertext) (drop NONCE_LEN ciphertext)))"

section \<open>The database\<close>

record 's secret_db =
  sdb_db :: "'s rocksdb"
  sdb_cipher :: aes
  sdb_state :: 's

definition db_get :: "'s secret_db \<Rightarrow> db_col \<Rightarrow> bytes \<Rightarrow> bytes option outcome" where
  "db_get D col key =
     obind (ok_or_failed (rdb_get_cf (sdb_db D) (sdb_state D) (db_col_as_str col) key)) (\<lambda>value.
       case value of None \<Rightarrow> Done None | Some v \<Rightarrow> obind (decrypt (sdb_cipher D) v) (\<lambda>d. Done (Some d)))"

definition db_iter_range :: "'s secret_db \<Rightarrow> db_col \<Rightarrow> bytes \<Rightarrow> bytes \<Rightarrow> (bytes \<times> bytes) outcome list" where
  "db_iter_range D col start end_key =
     map (\<lambda>result. obind (ok_or_failed result) (\<lambda>(key, value).
         obind (decrypt (sdb_cipher D) value) (\<lambda>v. Done (key, v))))
       (rdb_iterator (sdb_db D) (sdb_state D) (db_col_as_str col) start end_key)"

definition get_cf_key_range :: "'s secret_db \<Rightarrow> db_col \<Rightarrow> (bytes \<times> bytes) option outcome" where
  "get_cf_key_range D col =
     obind (ok_or_failed (rdb_first (sdb_db D) (sdb_state D) (db_col_as_str col))) (\<lambda>start.
     obind (ok_or_failed (rdb_last (sdb_db D) (sdb_state D) (db_col_as_str col))) (\<lambda>end_entry.
       case (start, end_entry) of
         (Some a, Some b) \<Rightarrow> Done (Some (fst a, fst b))
       | (None, None) \<Rightarrow> Done None
       | _ \<Rightarrow> Panicked))"

type_synonym batch = "batch_op list"

definition db_update :: batch where
  "db_update = []"

definition db_put :: "'s secret_db \<Rightarrow> bytes \<Rightarrow> db_col \<Rightarrow> bytes \<Rightarrow> bytes \<Rightarrow> batch \<Rightarrow> batch outcome" where
  "db_put D nonce col key value batch =
     obind (encrypt (sdb_cipher D) nonce value) (\<lambda>v. Done (batch @ [PutCf (db_col_as_str col) key v]))"

definition db_delete :: "db_col \<Rightarrow> bytes \<Rightarrow> batch \<Rightarrow> batch" where
  "db_delete col key batch = batch @ [DeleteCf (db_col_as_str col) key]"

definition db_delete_all :: "'s secret_db \<Rightarrow> db_col \<Rightarrow> batch \<Rightarrow> batch outcome" where
  "db_delete_all D col batch =
     obind (get_cf_key_range D col) (\<lambda>range.
       case range of
         None \<Rightarrow> Done batch
       | Some (a, b) \<Rightarrow> Done (batch @ [DeleteRangeCf (db_col_as_str col) a b, DeleteCf (db_col_as_str col) b]))"

definition db_commit :: "'s secret_db \<Rightarrow> batch \<Rightarrow> 's secret_db outcome" where
  "db_commit D batch =
     obind (ok_or_failed (rdb_write (sdb_db D) batch (sdb_state D))) (\<lambda>s. Done (D\<lparr>sdb_state := s\<rparr>))"

section \<open>Reading back\<close>

lemma obind_Done: "obind m f = Done y \<longleftrightarrow> (\<exists>x. m = Done x \<and> f x = Done y)"
  by (cases m) auto

lemma ok_or_failed_Done [simp]: "ok_or_failed r = Done x \<longleftrightarrow> r = Some x"
  by (cases r) auto

lemma unwrap_Done [simp]: "unwrap r = Done x \<longleftrightarrow> r = Some x"
  by (cases r) auto

lemma expect_ok_Done [simp]: "expect_ok r = Done x \<longleftrightarrow> r = Done x"
  by (cases r) auto

lemma decrypt_encrypt:
  assumes "aes_laws C" "length nonce = NONCE_LEN" "encrypt C nonce p = Done c"
  shows "decrypt C c = Done p"
  using assms by (auto simp: encrypt_def decrypt_def obind_Done aes_laws_def)

lemma db_col_as_str_inj [simp]: "db_col_as_str c = db_col_as_str d \<longleftrightarrow> c = d"
  by (cases c; cases d) simp_all

text \<open>The column a database holds, by the laws of its engine.\<close>

definition db_column :: "('s \<Rightarrow> string \<Rightarrow> column) \<Rightarrow> 's secret_db \<Rightarrow> db_col \<Rightarrow> column" where
  "db_column contents D col = contents (sdb_state D) (db_col_as_str col)"

definition db_laws :: "('s \<Rightarrow> string \<Rightarrow> column) \<Rightarrow> 's secret_db \<Rightarrow> bool" where
  "db_laws contents D \<longleftrightarrow> rocksdb_laws (sdb_db D) contents \<and> aes_laws (sdb_cipher D)"

lemma db_column_invar: "db_laws contents D \<Longrightarrow> bt_invar (db_column contents D col)"
  by (simp add: db_laws_def rocksdb_laws_def db_column_def)

lemma db_get_column:
  assumes "db_laws contents D" "db_get D col k = Done r"
  shows "case bt_get (db_column contents D col) k of
      None \<Rightarrow> r = None | Some c \<Rightarrow> (\<exists>v. decrypt (sdb_cipher D) c = Done v \<and> r = Some v)"
  using assms by (auto simp: db_get_def obind_Done db_laws_def rocksdb_laws_def db_column_def split: option.splits)

lemma db_commit_column:
  assumes "db_laws contents D" "db_commit D batch = Done D'"
  shows "db_column contents D' col = apply_batch batch (contents (sdb_state D)) (db_col_as_str col)"
    and "db_laws contents D'" and "sdb_cipher D' = sdb_cipher D" and "sdb_db D' = sdb_db D"
  using assms by (auto simp: db_commit_def obind_Done db_laws_def rocksdb_laws_def db_column_def)

lemma db_iter_range_Done:
  assumes "db_laws contents D" "db_iter_range D col a b = map Done items"
  shows "list_all2 (\<lambda>e (k, v). k = fst e \<and> decrypt (sdb_cipher D) (snd e) = Done v)
    (filter (\<lambda>e. a \<le> fst e \<and> fst e < b) (db_column contents D col)) items"
proof -
  let ?raw = "rdb_iterator (sdb_db D) (sdb_state D) (db_col_as_str col) a b"
  have len: "length ?raw = length items"
    using assms(2) map_eq_imp_length_eq by (auto simp: db_iter_range_def dest: map_eq_imp_length_eq)
  have item: "\<exists>e. ?raw ! i = Some e \<and> items ! i = (fst e, snd (items ! i)) \<and> decrypt (sdb_cipher D) (snd e) = Done (snd (items ! i))"
    if "i < length items" for i
    using arg_cong [OF assms(2), of "\<lambda>xs. xs ! i"] that len
    by (cases "?raw ! i"; cases "items ! i") (auto simp: db_iter_range_def obind_Done)
  then have "None \<notin> set ?raw"
    using len by (fastforce simp: in_set_conv_nth)
  then have "?raw = map Some (filter (\<lambda>e. a \<le> fst e \<and> fst e < b) (db_column contents D col))"
    using assms(1) by (auto simp: db_laws_def rocksdb_laws_def db_column_def)
  then show ?thesis
    using item len by (fastforce simp: list_all2_conv_all_nth)
qed

text \<open>
  C35: a value written with one batch is what the next read of its column and key returns; every
  other entry of every column reads as before.
\<close>

theorem secret_db_read_after_write:
  assumes "db_laws contents D" and "length nonce = NONCE_LEN"
    and "db_put D nonce col key value db_update = Done batch" and "db_commit D batch = Done D'"
  shows "(db_get D' col' key' = Done r \<longrightarrow>
      (if col' = col \<and> key' = key then r = Some value
       else bt_get (db_column contents D' col') key' = bt_get (db_column contents D col') key'))
    \<and> (rdb_get_cf (sdb_db D') (sdb_state D') (db_col_as_str col) key \<noteq> None \<longrightarrow> db_get D' col key = Done (Some value))"
proof -
  obtain c where c: "encrypt (sdb_cipher D) nonce value = Done c" "batch = [PutCf (db_col_as_str col) key c]"
    using assms(3) by (auto simp: db_put_def db_update_def obind_Done)
  have dec: "decrypt (sdb_cipher D) c = Done value"
    using assms(1,2) c(1) by (auto simp: db_laws_def intro: decrypt_encrypt)
  note new = db_commit_column [OF assms(1,4)]
  have column: "bt_get (db_column contents D' e) k =
      (if e = col \<and> k = key then Some c else bt_get (db_column contents D e) k)" for e k
    unfolding new(1) c(2) by (simp add: apply_batch_def db_column_def)
  have "(if col' = col \<and> key' = key then r = Some value
       else bt_get (db_column contents D' col') key' = bt_get (db_column contents D col') key')"
    if "db_get D' col' key' = Done r"
    using db_get_column [OF new(2) that] by (auto simp: column dec new(3))
  moreover have "db_get D' col key = Done (Some value)"
    if io: "rdb_get_cf (sdb_db D') (sdb_state D') (db_col_as_str col) key \<noteq> None"
  proof -
    obtain x where "rdb_get_cf (sdb_db D') (sdb_state D') (db_col_as_str col) key = Some x"
      using io by auto
    moreover from this have "x = Some c"
      using new(2) column [of col key] by (auto simp: db_laws_def rocksdb_laws_def db_column_def)
    ultimately show ?thesis
      by (simp add: db_get_def dec new(3))
  qed
  ultimately show ?thesis
    by blast
qed


section \<open>Emptying a column\<close>

lemma bt_invar_ends:
  assumes "bt_invar m" "e \<in> set m"
  shows "fst (hd m) \<le> fst e" "fst e \<le> fst (last m)"
proof -
  have "sorted (map fst m)"
    using assms(1) by (simp add: bt_invar_def strict_sorted_iff)
  moreover obtain i where i: "i < length m" "e = m ! i"
    using assms(2) by (auto simp: in_set_conv_nth)
  ultimately have "map fst m ! 0 \<le> map fst m ! i" "map fst m ! i \<le> map fst m ! (length m - 1)"
    using sorted_nth_mono [of "map fst m" 0 i] sorted_nth_mono [of "map fst m" i "length m - 1"] by auto
  moreover have "m \<noteq> []"
    using assms(2) by auto
  ultimately show "fst (hd m) \<le> fst e" "fst e \<le> fst (last m)"
    using i by (simp_all add: hd_conv_nth last_conv_nth)
qed

lemma get_cf_key_range_cases:
  assumes "db_laws contents D"
  shows "get_cf_key_range D col = Failed \<or> get_cf_key_range D col =
    Done (if db_column contents D col = [] then None
      else Some (fst (hd (db_column contents D col)), fst (last (db_column contents D col))))"
proof -
  have ends: "rdb_first (sdb_db D) (sdb_state D) (db_col_as_str col) = Some r \<Longrightarrow> r = ends_of hd (db_column contents D col)"
    "rdb_last (sdb_db D) (sdb_state D) (db_col_as_str col) = Some r \<Longrightarrow> r = ends_of last (db_column contents D col)" for r
    using assms by (simp_all add: db_laws_def rocksdb_laws_def db_column_def)
  show ?thesis
    using ends by (cases "rdb_first (sdb_db D) (sdb_state D) (db_col_as_str col)";
        cases "rdb_last (sdb_db D) (sdb_state D) (db_col_as_str col)")
      (simp_all add: get_cf_key_range_def ends_of_def)
qed

lemma db_delete_all_batch:
  assumes "db_laws contents D" "db_delete_all D col batch = Done batch'"
  shows "batch' = batch @ (if db_column contents D col = [] then []
    else [DeleteRangeCf (db_col_as_str col) (fst (hd (db_column contents D col))) (fst (last (db_column contents D col))),
      DeleteCf (db_col_as_str col) (fst (last (db_column contents D col)))])"
  using assms(2) get_cf_key_range_cases [OF assms(1), of col] by (auto simp: db_delete_all_def)

text \<open>
  C36: although a range deletion leaves out its upper bound, \<open>delete_all\<close> empties its column, also
  when the column was empty before, and leaves the other columns as they are; it never reaches the
  \<open>unreachable!\<close> of \<open>get_cf_key_range\<close>.
\<close>

theorem delete_all_empties_column:
  assumes "db_laws contents D"
  shows "db_delete_all D col db_update \<noteq> Panicked
    \<and> (\<forall>batch D'. db_delete_all D col db_update = Done batch \<longrightarrow> db_commit D batch = Done D' \<longrightarrow>
      db_column contents D' col' = (if col' = col then [] else db_column contents D col'))"
proof (intro conjI allI impI)
  let ?m = "db_column contents D col"
  show "db_delete_all D col db_update \<noteq> Panicked"
    using get_cf_key_range_cases [OF assms, of col] by (auto simp: db_delete_all_def split: if_splits)
  fix batch D'
  assume batch: "db_delete_all D col db_update = Done batch" and commit: "db_commit D batch = Done D'"
  note new = db_commit_column(1) [OF assms commit] db_delete_all_batch [OF assms batch]
  have "fst (hd ?m) \<le> fst e" "fst e < fst (last ?m) \<or> fst e = fst (last ?m)" if "e \<in> set ?m" for e
    using bt_invar_ends [OF db_column_invar [OF assms] that] by (auto simp: le_less)
  then show "db_column contents D' col' = (if col' = col then [] else db_column contents D col')"
    unfolding new by (auto simp: apply_batch_def db_column_def db_update_def bt_remove_def filter_empty_conv)
qed

section \<open>A sample engine\<close>

text \<open>An engine that keeps its columns as sorted lists, and a cipher that reverses the plaintext.\<close>

definition list_contents :: "(string \<Rightarrow> column) \<Rightarrow> string \<Rightarrow> column" where
  "list_contents s cf = (if bt_invar (s cf) then s cf else [])"

definition list_rocksdb :: "(string \<Rightarrow> column) rocksdb" where
  "list_rocksdb = \<lparr>rdb_get_cf = (\<lambda>s cf k. Some (bt_get (list_contents s cf) k)),
     rdb_iterator = (\<lambda>s cf a b. map Some (filter (\<lambda>e. a \<le> fst e \<and> fst e < b) (list_contents s cf))),
     rdb_first = (\<lambda>s cf. Some (ends_of hd (list_contents s cf))),
     rdb_last = (\<lambda>s cf. Some (ends_of last (list_contents s cf))),
     rdb_write = (\<lambda>batch s. Some (apply_batch batch (list_contents s)))\<rparr>"

definition reverse_aes :: aes where
  "reverse_aes = \<lparr>aes_encrypt = (\<lambda>nonce p. Some (rev p)), aes_decrypt = (\<lambda>nonce c. Some (rev c))\<rparr>"

definition sample_db :: "(string \<Rightarrow> column) \<Rightarrow> (string \<Rightarrow> column) secret_db" where
  "sample_db s = \<lparr>sdb_db = list_rocksdb, sdb_cipher = reverse_aes, sdb_state = s\<rparr>"

lemma apply_batch_invar: "(\<And>cf. bt_invar (m cf)) \<Longrightarrow> bt_invar (apply_batch batch m cf)"
proof (induction batch arbitrary: m)
  case (Cons op batch)
  have "bt_invar (apply_op op m cf)" for cf
    using Cons.prems by (cases op) simp_all
  then show ?case
    using Cons.IH [of "apply_op op m"] by (simp add: apply_batch_def)
qed (simp add: apply_batch_def)

lemma sample_db_laws: "db_laws list_contents (sample_db s)"
proof -
  have inv: "bt_invar (list_contents s cf)" for s cf
    by (simp add: list_contents_def)
  then have "list_contents (apply_batch batch (list_contents s)) = apply_batch batch (list_contents s)" for batch s
    by (simp add: fun_eq_iff list_contents_def [of "apply_batch batch (list_contents s)"] apply_batch_invar)
  with inv show ?thesis
    by (simp add: db_laws_def rocksdb_laws_def aes_laws_def sample_db_def list_rocksdb_def reverse_aes_def)
qed

abbreviation sample_nonce :: bytes where
  "sample_nonce \<equiv> replicate 12 7"

lemmas sample_simps = sample_db_def list_rocksdb_def reverse_aes_def db_put_def db_update_def encrypt_def
  db_commit_def db_delete_all_def get_cf_key_range_def NONCE_LEN_def

theorem secret_db_read_after_write_witness:
  "\<exists>batch D'. db_put (sample_db (\<lambda>_. [])) sample_nonce DbTriple [1] [4, 2] db_update = Done batch
    \<and> db_commit (sample_db (\<lambda>_. [])) batch = Done D' \<and> db_get D' DbTriple [1] = Done (Some [4, 2])"
proof -
  let ?D = "sample_db (\<lambda>_. [])"
  obtain batch D' where w: "db_put ?D sample_nonce DbTriple [1] [4, 2] db_update = Done batch"
    "db_commit ?D batch = Done D'" "rdb_get_cf (sdb_db D') (sdb_state D') (db_col_as_str DbTriple) [1] \<noteq> None"
    by (simp add: sample_simps)
  show ?thesis
    using w secret_db_read_after_write [OF sample_db_laws _ w(1,2)] by (auto simp: NONCE_LEN_def)
qed

theorem delete_all_empties_column_witness:
  "\<exists>batch D'. db_delete_all (sample_db (\<lambda>_. [([1], [2]), ([3], [4])])) DbTriple db_update = Done batch
    \<and> db_commit (sample_db (\<lambda>_. [([1], [2]), ([3], [4])])) batch = Done D' \<and> db_column list_contents D' DbTriple = []"
proof -
  let ?D = "sample_db (\<lambda>_. [([1], [2]), ([3], [4])])"
  obtain batch D' where w: "db_delete_all ?D DbTriple db_update = Done batch" "db_commit ?D batch = Done D'"
    by (simp add: sample_simps ends_of_def list_contents_def bt_invar_def)
  show ?thesis
    using w delete_all_empties_column [OF sample_db_laws, of _ DbTriple DbTriple] by auto
qed

end
