(* ===== verification/Asset_Queue.thy ===== *)
theory Asset_Queue
  imports Unique_Ids "HOL-Library.Multiset"
begin

text \<open>
  \<open>ColdQueue\<close> and \<open>DoubleQueue\<close> of \<open>crates/node/src/assets.rs\<close>: the in-memory queues of triples
  and presignatures, divided by the condition that the participants of an asset are alive.

  The clock and the condition value fetcher are read through a probe, the pair of the current
  instant and the fetched value, given to each call.  \<open>None\<close> is a panic.  Counters are natural
  numbers: they never exceed the length of the queue.
\<close>

section \<open>The cold queue\<close>

record ('t, 'c) cold_queue =
  cold_ready :: nat
  cold_available :: nat
  cold_queue_items :: "(unique_id \<times> 't) list"
  last_condition_value :: 'c
  cq_condition :: "'c \<Rightarrow> 't \<Rightarrow> bool"
  next_fetch_due :: int

type_synonym 'c probe = "int \<times> 'c"

definition CONDITION_REFRESH_INTERVAL :: int where
  "CONDITION_REFRESH_INTERVAL = 1000000000"

definition cold_queue_new :: "int \<Rightarrow> 'c \<Rightarrow> ('c \<Rightarrow> 't \<Rightarrow> bool) \<Rightarrow> ('t, 'c) cold_queue" where
  "cold_queue_new now initial condition =
     \<lparr>cold_ready = 0, cold_available = 0, cold_queue_items = [], last_condition_value = initial,
      cq_condition = condition, next_fetch_due = now\<rparr>"

definition update_condition_value :: "'c probe \<Rightarrow> ('t, 'c) cold_queue \<Rightarrow> ('t, 'c) cold_queue" where
  "update_condition_value p q =
     (let q = q\<lparr>next_fetch_due := fst p + CONDITION_REFRESH_INTERVAL\<rparr> in
      if snd p \<noteq> last_condition_value q
      then q\<lparr>last_condition_value := snd p, cold_ready := 0, cold_available := length (cold_queue_items q)\<rparr>
      else q)"

definition update_condition_value_if_due :: "'c probe \<Rightarrow> ('t, 'c) cold_queue \<Rightarrow> ('t, 'c) cold_queue" where
  "update_condition_value_if_due p q = (if fst p < next_fetch_due q then q else update_condition_value p q)"

datatype 't take_result =
    Taken unique_id 't
  | NotTakenButSomeMayBeAvailable
  | NotTakenAndNoneAvailable

datatype 't discard_result =
    Discarded unique_id 't
  | NotDiscardedButSomeMayBeAvailable
  | NotDiscardedAndNoneAvailable

datatype 't add_if_satisfied_result = ConditionNotSatisfied 't | EnqueuedReady

datatype 't add_if_not_satisfied_result = ConditionSatisfied 't | EnqueuedOffline

definition cq_satisfies :: "('t, 'c) cold_queue \<Rightarrow> 't \<Rightarrow> bool" where
  "cq_satisfies q value = cq_condition q (last_condition_value q) value"

definition cold_take :: "'c probe \<Rightarrow> ('t, 'c) cold_queue \<Rightarrow> ('t take_result \<times> ('t, 'c) cold_queue) option" where
  "cold_take p q0 =
     (let q = update_condition_value_if_due p q0 in
      if cold_available q = 0 then Some (NotTakenAndNoneAvailable, q)
      else case cold_queue_items q of
        [] \<Rightarrow> None
      | (i, value) # rest \<Rightarrow>
          let q = q\<lparr>cold_queue_items := rest, cold_available := cold_available q - 1\<rparr> in
          if 0 < cold_ready q then Some (Taken i value, q\<lparr>cold_ready := cold_ready q - 1\<rparr>)
          else if cq_satisfies q value then Some (Taken i value, q)
          else Some (NotTakenButSomeMayBeAvailable, q\<lparr>cold_queue_items := rest @ [(i, value)]\<rparr>))"

definition cold_discard :: "'c probe \<Rightarrow> ('t, 'c) cold_queue \<Rightarrow> ('t discard_result \<times> ('t, 'c) cold_queue) option" where
  "cold_discard p q0 =
     (let q = update_condition_value_if_due p q0 in
      if cold_ready q = length (cold_queue_items q) then Some (NotDiscardedAndNoneAvailable, q)
      else if cold_queue_items q = [] then None
      else
        let (i, value) = last (cold_queue_items q);
            q = q\<lparr>cold_queue_items := butlast (cold_queue_items q)\<rparr>;
            (satisfied, q) = (if cold_available q > length (cold_queue_items q)
              then (cq_satisfies q value, q\<lparr>cold_available := cold_available q - 1\<rparr>) else (False, q))
        in if \<not> satisfied then Some (Discarded i value, q)
           else Some (NotDiscardedButSomeMayBeAvailable,
             q\<lparr>cold_queue_items := (i, value) # cold_queue_items q, cold_ready := cold_ready q + 1,
               cold_available := cold_available q + 1\<rparr>))"

definition add_if_condition_satisfied ::
  "'c probe \<Rightarrow> unique_id \<Rightarrow> 't \<Rightarrow> ('t, 'c) cold_queue \<Rightarrow> 't add_if_satisfied_result \<times> ('t, 'c) cold_queue" where
  "add_if_condition_satisfied p i value q0 =
     (let q = update_condition_value_if_due p q0 in
      if cq_satisfies q value
      then (EnqueuedReady, q\<lparr>cold_queue_items := (i, value) # cold_queue_items q, cold_ready := cold_ready q + 1,
        cold_available := cold_available q + 1\<rparr>)
      else (ConditionNotSatisfied value, q))"

definition add_if_condition_not_satisfied ::
  "'c probe \<Rightarrow> unique_id \<Rightarrow> 't \<Rightarrow> ('t, 'c) cold_queue \<Rightarrow> 't add_if_not_satisfied_result \<times> ('t, 'c) cold_queue" where
  "add_if_condition_not_satisfied p i value q0 =
     (let q = update_condition_value_if_due p q0 in
      if cq_satisfies q value then (ConditionSatisfied value, q)
      else (EnqueuedOffline, q\<lparr>cold_queue_items := cold_queue_items q @ [(i, value)]\<rparr>))"

section \<open>The double queue\<close>

record ('t, 'c) double_queue =
  hot_queue :: "(unique_id \<times> 't) list"
  dq_cold :: "('t, 'c) cold_queue"

definition double_queue_new :: "int \<Rightarrow> 'c \<Rightarrow> ('c \<Rightarrow> 't \<Rightarrow> bool) \<Rightarrow> ('t, 'c) double_queue" where
  "double_queue_new now initial condition = \<lparr>hot_queue = [], dq_cold = cold_queue_new now initial condition\<rparr>"

definition dq_add_owned :: "unique_id \<Rightarrow> 't \<Rightarrow> ('t, 'c) double_queue \<Rightarrow> ('t, 'c) double_queue" where
  "dq_add_owned i value dq = dq\<lparr>hot_queue := hot_queue dq @ [(i, value)]\<rparr>"

definition dq_refresh :: "'c probe \<Rightarrow> ('t, 'c) double_queue \<Rightarrow> ('t, 'c) double_queue" where
  "dq_refresh p dq = dq\<lparr>dq_cold := update_condition_value p (dq_cold dq)\<rparr>"

text \<open>
  One iteration of the loop of \<open>take_owned\<close>.  When the cold queue offers nothing, an element that
  waits in the hot queue is received at once; otherwise the wait ends after a second.
\<close>

definition dq_take_iteration ::
  "'c probe \<Rightarrow> 'c probe \<Rightarrow> ('t, 'c) double_queue \<Rightarrow> ((unique_id \<times> 't) option \<times> ('t, 'c) double_queue) option" where
  "dq_take_iteration p p' dq =
     (case cold_take p (dq_cold dq) of
        None \<Rightarrow> None
      | Some (Taken i value, q) \<Rightarrow> Some (Some (i, value), dq\<lparr>dq_cold := q\<rparr>)
      | Some (NotTakenButSomeMayBeAvailable, q) \<Rightarrow> Some (None, dq\<lparr>dq_cold := q\<rparr>)
      | Some (NotTakenAndNoneAvailable, q) \<Rightarrow>
          (case hot_queue dq of
             [] \<Rightarrow> Some (None, dq\<lparr>dq_cold := q\<rparr>)
           | (i, value) # hot \<Rightarrow>
               (case add_if_condition_not_satisfied p' i value q of
                  (ConditionSatisfied value, q) \<Rightarrow> Some (Some (i, value), \<lparr>hot_queue = hot, dq_cold = q\<rparr>)
                | (EnqueuedOffline, q) \<Rightarrow> Some (None, \<lparr>hot_queue = hot, dq_cold = q\<rparr>))))"

text \<open>The loop, for as long as the probes last; \<open>(None, _)\<close> is a call that still waits.\<close>

fun dq_take_loop ::
  "('c probe \<times> 'c probe) list \<Rightarrow> ('t, 'c) double_queue \<Rightarrow> ((unique_id \<times> 't) option \<times> ('t, 'c) double_queue) option" where
  "dq_take_loop [] dq = Some (None, dq)"
| "dq_take_loop ((p, p') # ps) dq =
     (case dq_take_iteration p p' dq of
        None \<Rightarrow> None
      | Some (Some r, dq) \<Rightarrow> Some (Some r, dq)
      | Some (None, dq) \<Rightarrow> dq_take_loop ps dq)"

definition dq_take_owned ::
  "'c probe \<Rightarrow> ('c probe \<times> 'c probe) list \<Rightarrow> ('t, 'c) double_queue
    \<Rightarrow> ((unique_id \<times> 't) option \<times> ('t, 'c) double_queue) option" where
  "dq_take_owned p ps dq = dq_take_loop ps (dq_refresh p dq)"

text \<open>
  The two loops of \<open>maybe_discard_owned\<close>; the \<open>k\<close>-th probe is the one of the \<open>k\<close>-th access to
  the cold queue.
\<close>

fun discard_cold_loop ::
  "(nat \<Rightarrow> 'c probe) \<Rightarrow> nat \<Rightarrow> nat \<Rightarrow> ('t, 'c) cold_queue
    \<Rightarrow> (unique_id list \<times> nat \<times> nat \<times> ('t, 'c) cold_queue) option" where
  "discard_cold_loop p k 0 q = Some ([], k, 0, q)"
| "discard_cold_loop p k (Suc n) q =
     (case cold_discard (p k) q of
        None \<Rightarrow> None
      | Some (Discarded i value, q) \<Rightarrow> map_option (\<lambda>(is, r). (i # is, r)) (discard_cold_loop p (Suc k) n q)
      | Some (NotDiscardedButSomeMayBeAvailable, q) \<Rightarrow> discard_cold_loop p (Suc k) n q
      | Some (NotDiscardedAndNoneAvailable, q) \<Rightarrow> Some ([], Suc k, Suc n, q))"

fun discard_hot_loop ::
  "(nat \<Rightarrow> 'c probe) \<Rightarrow> nat \<Rightarrow> nat \<Rightarrow> (unique_id \<times> 't) list \<Rightarrow> ('t, 'c) cold_queue \<Rightarrow> ('t, 'c) double_queue" where
  "discard_hot_loop p k 0 hot q = \<lparr>hot_queue = hot, dq_cold = q\<rparr>"
| "discard_hot_loop p k (Suc n) [] q = \<lparr>hot_queue = [], dq_cold = q\<rparr>"
| "discard_hot_loop p k (Suc n) ((i, value) # hot) q =
     discard_hot_loop p (Suc k) n hot (snd (add_if_condition_satisfied (p k) i value q))"

definition dq_maybe_discard_owned ::
  "(nat \<Rightarrow> 'c probe) \<Rightarrow> nat \<Rightarrow> ('t, 'c) double_queue \<Rightarrow> (unique_id list \<times> ('t, 'c) double_queue) option" where
  "dq_maybe_discard_owned p n dq =
     (case discard_cold_loop p 1 n (update_condition_value (p 0) (dq_cold dq)) of
        None \<Rightarrow> None
      | Some (removed, k, m, q) \<Rightarrow> Some (removed, discard_hot_loop p k m (hot_queue dq) q))"

definition dq_available :: "('t, 'c) double_queue \<Rightarrow> nat" where
  "dq_available dq = length (hot_queue dq) + cold_available (dq_cold dq)"

definition dq_ready :: "('t, 'c) double_queue \<Rightarrow> nat" where
  "dq_ready dq = cold_ready (dq_cold dq)"

definition dq_offline :: "('t, 'c) double_queue \<Rightarrow> nat option" where
  "dq_offline dq = (let q = dq_cold dq in
     if cold_available q \<le> length (cold_queue_items q) then Some (length (cold_queue_items q) - cold_available q) else None)"

section \<open>The sections of the cold queue\<close>

text \<open>
  The picture in the comment on \<open>ColdQueue\<close>: the assets before \<open>cold_ready\<close> satisfy the condition
  with the last value, those from \<open>cold_available\<close> on do not.
\<close>

definition cold_inv :: "('t, 'c) cold_queue \<Rightarrow> bool" where
  "cold_inv q \<longleftrightarrow> cold_ready q \<le> cold_available q \<and> cold_available q \<le> length (cold_queue_items q)
     \<and> list_all (cq_satisfies q \<circ> snd) (take (cold_ready q) (cold_queue_items q))
     \<and> list_all (Not \<circ> cq_satisfies q \<circ> snd) (drop (cold_available q) (cold_queue_items q))"

lemma cold_inv_new: "cold_inv (cold_queue_new now d cond)"
  by (simp add: cold_inv_def cold_queue_new_def)

lemma cq_satisfies_frame [simp]:
  "cq_satisfies (q\<lparr>cold_queue_items := xs\<rparr>) = cq_satisfies q"
  "cq_satisfies (q\<lparr>cold_ready := n\<rparr>) = cq_satisfies q"
  "cq_satisfies (q\<lparr>cold_available := n\<rparr>) = cq_satisfies q"
  "cq_satisfies (q\<lparr>next_fetch_due := t\<rparr>) = cq_satisfies q"
  by (simp_all add: cq_satisfies_def fun_eq_iff)

lemma update_condition_value_frame [simp]:
  "cold_queue_items (update_condition_value p q) = cold_queue_items q"
  "cq_condition (update_condition_value p q) = cq_condition q"
  "last_condition_value (update_condition_value p q) = snd p"
  by (simp_all add: update_condition_value_def Let_def)

lemma update_if_due_frame [simp]:
  "cold_queue_items (update_condition_value_if_due p q) = cold_queue_items q"
  "cq_condition (update_condition_value_if_due p q) = cq_condition q"
  by (simp_all add: update_condition_value_if_due_def)

lemma cold_inv_update: "cold_inv q \<Longrightarrow> cold_inv (update_condition_value p q)"
  by (simp add: cold_inv_def update_condition_value_def Let_def)

lemma cold_inv_if_due: "cold_inv q \<Longrightarrow> cold_inv (update_condition_value_if_due p q)"
  by (simp add: update_condition_value_if_due_def cold_inv_update)

text \<open>What a call returns, and what it leaves in the queue.\<close>

lemma cold_take_spec:
  assumes "cold_inv q"
  obtains r q' where "cold_take p q = Some (r, q')" "cold_inv q'"
    and "cq_condition q' = cq_condition q"
    and "last_condition_value q' = last_condition_value (update_condition_value_if_due p q)"
    and "case r of
        Taken i v \<Rightarrow> cq_satisfies q' v \<and> mset (cold_queue_items q) = add_mset (i, v) (mset (cold_queue_items q'))
      | NotTakenButSomeMayBeAvailable \<Rightarrow> mset (cold_queue_items q') = mset (cold_queue_items q)
          \<and> Suc (cold_available q') = cold_available (update_condition_value_if_due p q)
      | NotTakenAndNoneAvailable \<Rightarrow> cold_queue_items q' = cold_queue_items q \<and> cold_available q' = 0
          \<and> q' = update_condition_value_if_due p q"
proof -
  let ?u = "update_condition_value_if_due p q"
  have u: "cold_inv ?u"
    using assms by (rule cold_inv_if_due)
  show ?thesis
  proof (cases "cold_available ?u = 0")
    case True
    show ?thesis
      by (rule that [of NotTakenAndNoneAvailable ?u]) (use True u in \<open>simp_all add: cold_take_def\<close>)
  next
    case False
    then obtain i v rest where items: "cold_queue_items ?u = (i, v) # rest"
      using u by (cases "cold_queue_items ?u") (auto simp: cold_inv_def)
    then have items': "cold_queue_items q = (i, v) # rest"
      by simp
    obtain n where n: "cold_available ?u = Suc n"
      using False not0_implies_Suc by blast
    show ?thesis
    proof (cases "cold_ready ?u")
      case 0
      show ?thesis
      proof (cases "cq_satisfies ?u v")
        case True
        show ?thesis
          by (rule that [of "Taken i v" "?u\<lparr>cold_queue_items := rest, cold_available := n\<rparr>"])
            (use True 0 u n items items' in \<open>auto simp: cold_take_def cold_inv_def\<close>)
      next
        case False
        show ?thesis
          by (rule that [of NotTakenButSomeMayBeAvailable "?u\<lparr>cold_queue_items := rest @ [(i, v)], cold_available := n\<rparr>"])
            (use False 0 u n items items' in \<open>auto simp: cold_take_def cold_inv_def\<close>)
      qed
    next
      case (Suc m)
      show ?thesis
        by (rule that [of "Taken i v" "?u\<lparr>cold_queue_items := rest, cold_available := n, cold_ready := m\<rparr>"])
          (use Suc u n items items' in \<open>auto simp: cold_take_def cold_inv_def\<close>)
    qed
  qed
qed


lemma cold_discard_spec:
  assumes "cold_inv q"
  obtains r q' where "cold_discard p q = Some (r, q')" "cold_inv q'"
    and "cq_condition q' = cq_condition q"
    and "case r of
        Discarded i v \<Rightarrow> \<not> cq_satisfies q' v \<and> mset (cold_queue_items q) = add_mset (i, v) (mset (cold_queue_items q'))
      | NotDiscardedButSomeMayBeAvailable \<Rightarrow> mset (cold_queue_items q') = mset (cold_queue_items q)
      | NotDiscardedAndNoneAvailable \<Rightarrow> cold_queue_items q' = cold_queue_items q
          \<and> list_all (cq_satisfies q' \<circ> snd) (cold_queue_items q')"
proof -
  let ?u = "update_condition_value_if_due p q"
  have u: "cold_inv ?u"
    using assms by (rule cold_inv_if_due)
  show ?thesis
  proof (cases "cold_ready ?u = length (cold_queue_items ?u)")
    case True
    show ?thesis
      by (rule that [of NotDiscardedAndNoneAvailable ?u]) (use True u in \<open>simp_all add: cold_discard_def cold_inv_def\<close>)
  next
    case False
    then have ne: "cold_queue_items q \<noteq> []" and ready: "cold_ready ?u < length (cold_queue_items q)"
      using u by (auto simp: cold_inv_def)
    obtain rest i v where items: "cold_queue_items q = rest @ [(i, v)]"
      using ne by (metis rev_exhaust surj_pair)
    show ?thesis
    proof (cases "cold_available ?u = Suc (length rest)")
      case all: True
      show ?thesis
      proof (cases "cq_satisfies ?u v")
        case True
        show ?thesis
          by (rule that [of NotDiscardedButSomeMayBeAvailable "?u\<lparr>cold_queue_items := (i, v) # rest,
                cold_available := cold_available ?u, cold_ready := Suc (cold_ready ?u)\<rparr>"])
            (use True all u items ready in \<open>auto simp: cold_discard_def cold_inv_def Let_def\<close>)
      next
        case False
        show ?thesis
          by (rule that [of "Discarded i v" "?u\<lparr>cold_queue_items := rest, cold_available := length rest\<rparr>"])
            (use False all u items ready in \<open>auto simp: cold_discard_def cold_inv_def Let_def\<close>)
      qed
    next
      case some: False
      then have avail: "cold_available ?u \<le> length rest"
        using u items by (auto simp: cold_inv_def)
      moreover have "\<not> cq_satisfies ?u v"
        using u items avail by (auto simp: cold_inv_def)
      ultimately show ?thesis
        by (intro that [of "Discarded i v" "?u\<lparr>cold_queue_items := rest\<rparr>"])
          (use u items ready in \<open>auto simp: cold_discard_def cold_inv_def Let_def\<close>)
    qed
  qed
qed

lemma add_if_condition_satisfied_spec:
  assumes "cold_inv q" "add_if_condition_satisfied p i v q = (r, q')"
  shows "cold_inv q'" "cq_condition q' = cq_condition q"
    and "case r of
        EnqueuedReady \<Rightarrow> cq_satisfies q' v \<and> cold_queue_items q' = (i, v) # cold_queue_items q
      | ConditionNotSatisfied w \<Rightarrow> w = v \<and> \<not> cq_satisfies q' v \<and> cold_queue_items q' = cold_queue_items q"
  using assms(2) cold_inv_if_due [OF assms(1), of p]
  by (auto simp: add_if_condition_satisfied_def cold_inv_def Let_def split: if_splits)

lemma add_if_condition_not_satisfied_spec:
  assumes "cold_inv q" "add_if_condition_not_satisfied p i v q = (r, q')"
  shows "cold_inv q'" "cq_condition q' = cq_condition q"
    and "last_condition_value q' = last_condition_value (update_condition_value_if_due p q)"
    and "cold_available q' = cold_available (update_condition_value_if_due p q)"
    and "case r of
        EnqueuedOffline \<Rightarrow> \<not> cq_satisfies q' v \<and> cold_queue_items q' = cold_queue_items q @ [(i, v)]
      | ConditionSatisfied w \<Rightarrow> w = v \<and> cq_satisfies q' v \<and> cold_queue_items q' = cold_queue_items q"
  using assms(2) cold_inv_if_due [OF assms(1), of p]
  by (auto simp: add_if_condition_not_satisfied_def cold_inv_def Let_def split: if_splits)

section \<open>Pools of assets\<close>

text \<open>
  What both queues promise: from a good state no operation panics, the next state is good, and
  together with the assets an operation hands out it holds nothing but the assets of the old
  state and those that were brought in.
\<close>

locale asset_pool =
  fixes pool_inv :: "'s \<Rightarrow> bool"
    and content :: "'s \<Rightarrow> 'a multiset"
    and brings :: "'op \<Rightarrow> 'a multiset"
    and pool_step :: "'op \<Rightarrow> 's \<Rightarrow> ('a list \<times> 's) option"
  assumes step_total: "pool_inv s \<Longrightarrow> \<exists>out s'. pool_step op s = Some (out, s')"
    and step_inv: "pool_inv s \<Longrightarrow> pool_step op s = Some (out, s') \<Longrightarrow> pool_inv s'"
    and step_content: "pool_inv s \<Longrightarrow> pool_step op s = Some (out, s') \<Longrightarrow> mset out + content s' \<subseteq># content s + brings op"
begin

fun run :: "'op list \<Rightarrow> 's \<Rightarrow> ('a list \<times> 's) option" where
  "run [] s = Some ([], s)"
| "run (op # ops) s =
     (case pool_step op s of
        None \<Rightarrow> None
      | Some (out, s) \<Rightarrow> map_option (\<lambda>(outs, s). (out @ outs, s)) (run ops s))"

lemma run_spec:
  assumes "pool_inv s"
  shows "\<exists>outs s'. run ops s = Some (outs, s') \<and> pool_inv s'
    \<and> mset outs + content s' \<subseteq># content s + (\<Sum>op \<leftarrow> ops. brings op)"
  using assms
proof (induction ops arbitrary: s)
  case (Cons op ops)
  obtain out s1 where s1: "pool_step op s = Some (out, s1)"
    using step_total [OF Cons.prems] by blast
  obtain outs s' where s': "run ops s1 = Some (outs, s')" "pool_inv s'"
    "mset outs + content s' \<subseteq># content s1 + (\<Sum>op \<leftarrow> ops. brings op)"
    using Cons.IH [OF step_inv [OF Cons.prems s1]] by blast
  have "mset out + (mset outs + content s') \<subseteq># mset out + (content s1 + (\<Sum>op \<leftarrow> ops. brings op))"
    using s'(3) by (rule subset_mset.add_left_mono)
  also have "\<dots> \<subseteq># (content s + brings op) + (\<Sum>op \<leftarrow> ops. brings op)"
    using subset_mset.add_right_mono [OF step_content [OF Cons.prems s1]] by (simp add: add.assoc)
  finally show ?case
    using s1 s' by (simp add: add.assoc)
qed simp

end

datatype ('t, 'c) cold_op =
    ColdUpdate "'c probe"
  | ColdTake "'c probe"
  | ColdDiscard "'c probe"
  | ColdAddReady "'c probe" unique_id 't
  | ColdAddOffline "'c probe" unique_id 't

text \<open>The assets a call hands back to its caller.\<close>

fun cold_step :: "('t, 'c) cold_op \<Rightarrow> ('t, 'c) cold_queue \<Rightarrow> ((unique_id \<times> 't) list \<times> ('t, 'c) cold_queue) option" where
  "cold_step (ColdUpdate p) q = Some ([], update_condition_value p q)"
| "cold_step (ColdTake p) q =
     map_option (\<lambda>(r, q). (case r of Taken i v \<Rightarrow> [(i, v)] | _ \<Rightarrow> [], q)) (cold_take p q)"
| "cold_step (ColdDiscard p) q =
     map_option (\<lambda>(r, q). (case r of Discarded i v \<Rightarrow> [(i, v)] | _ \<Rightarrow> [], q)) (cold_discard p q)"
| "cold_step (ColdAddReady p i v) q =
     (case add_if_condition_satisfied p i v q of
        (ConditionNotSatisfied v, q) \<Rightarrow> Some ([(i, v)], q)
      | (EnqueuedReady, q) \<Rightarrow> Some ([], q))"
| "cold_step (ColdAddOffline p i v) q =
     (case add_if_condition_not_satisfied p i v q of
        (ConditionSatisfied v, q) \<Rightarrow> Some ([(i, v)], q)
      | (EnqueuedOffline, q) \<Rightarrow> Some ([], q))"

fun cold_brings :: "('t, 'c) cold_op \<Rightarrow> (unique_id \<times> 't) multiset" where
  "cold_brings (ColdAddReady p i v) = {#(i, v)#}"
| "cold_brings (ColdAddOffline p i v) = {#(i, v)#}"
| "cold_brings _ = {#}"

abbreviation cold_content :: "('t, 'c) cold_queue \<Rightarrow> (unique_id \<times> 't) multiset" where
  "cold_content q \<equiv> mset (cold_queue_items q)"

lemma cold_step_spec:
  assumes "cold_inv q"
  shows "\<exists>out q'. cold_step op q = Some (out, q') \<and> cold_inv q' \<and> mset out + cold_content q' = cold_content q + cold_brings op"
proof (cases op)
  case (ColdUpdate p)
  then show ?thesis
    using assms by (simp add: cold_inv_update)
next
  case (ColdTake p)
  show ?thesis
    by (rule cold_take_spec [OF assms, of p]) (auto simp: ColdTake split: take_result.splits)
next
  case (ColdDiscard p)
  show ?thesis
    by (rule cold_discard_spec [OF assms, of p]) (auto simp: ColdDiscard split: discard_result.splits)
next
  case (ColdAddReady p i v)
  then show ?thesis
    using add_if_condition_satisfied_spec [OF assms, of p i v]
    by (cases "add_if_condition_satisfied p i v q") (force split: add_if_satisfied_result.splits)
next
  case (ColdAddOffline p i v)
  then show ?thesis
    using add_if_condition_not_satisfied_spec [OF assms, of p i v]
    by (cases "add_if_condition_not_satisfied p i v q") (force split: add_if_not_satisfied_result.splits)
qed

interpretation cold: asset_pool cold_inv cold_content cold_brings cold_step
proof unfold_locales
  fix q :: "('t, 'c) cold_queue" and op out q'
  assume q: "cold_inv q"
  note spec = cold_step_spec [OF q, of op]
  show "\<exists>out q'. cold_step op q = Some (out, q')"
    using spec by blast
  assume "cold_step op q = Some (out, q')"
  then show "cold_inv q'" "mset out + cold_content q' \<subseteq># cold_content q + cold_brings op"
    using spec by auto
qed


section \<open>The double queue as a pool\<close>

definition dq_inv :: "('t, 'c) double_queue \<Rightarrow> bool" where
  "dq_inv dq = cold_inv (dq_cold dq)"

definition dq_content :: "('t, 'c) double_queue \<Rightarrow> (unique_id \<times> 't) multiset" where
  "dq_content dq = mset (hot_queue dq) + cold_content (dq_cold dq)"

lemma dq_new: "dq_inv (double_queue_new now d cond)" "dq_content (double_queue_new now d cond) = {#}"
  by (simp_all add: dq_inv_def dq_content_def double_queue_new_def cold_inv_new) (simp add: cold_queue_new_def)

lemma dq_refresh: "dq_inv dq \<Longrightarrow> dq_inv (dq_refresh p dq)" "dq_content (dq_refresh p dq) = dq_content dq"
  by (simp_all add: dq_inv_def dq_content_def dq_refresh_def cold_inv_update)

lemma dq_add_owned: "dq_inv (dq_add_owned i v dq) = dq_inv dq" "dq_content (dq_add_owned i v dq) = add_mset (i, v) (dq_content dq)"
  by (simp_all add: dq_inv_def dq_content_def dq_add_owned_def)

text \<open>With an unchanged condition value a refresh moves no barrier.\<close>

lemma update_if_due_stable:
  assumes "snd p = last_condition_value q"
  shows "cold_available (update_condition_value_if_due p q) = cold_available q"
    "last_condition_value (update_condition_value_if_due p q) = last_condition_value q"
  using assms by (simp_all add: update_condition_value_if_due_def update_condition_value_def Let_def)

lemma dq_take_iteration_spec:
  assumes "dq_inv dq"
  obtains r dq' where "dq_take_iteration p p' dq = Some (r, dq')" "dq_inv dq'"
    and "cq_condition (dq_cold dq') = cq_condition (dq_cold dq)"
    and "case r of
        Some (i, v) \<Rightarrow> cq_satisfies (dq_cold dq') v \<and> dq_content dq = add_mset (i, v) (dq_content dq')
      | None \<Rightarrow> dq_content dq' = dq_content dq"
    and "snd p = last_condition_value (dq_cold dq) \<Longrightarrow> snd p' = last_condition_value (dq_cold dq) \<Longrightarrow>
      last_condition_value (dq_cold dq') = last_condition_value (dq_cold dq)
      \<and> (r = None \<longrightarrow> dq_available dq' = dq_available dq - 1)"
proof -
  have inv: "cold_inv (dq_cold dq)"
    using assms by (simp add: dq_inv_def)
  obtain t q where take: "cold_take p (dq_cold dq) = Some (t, q)" and q: "cold_inv q"
    "cq_condition q = cq_condition (dq_cold dq)"
    "last_condition_value q = last_condition_value (update_condition_value_if_due p (dq_cold dq))"
    and t: "case t of
        Taken i v \<Rightarrow> cq_satisfies q v \<and> cold_content (dq_cold dq) = add_mset (i, v) (cold_content q)
      | NotTakenButSomeMayBeAvailable \<Rightarrow> cold_content q = cold_content (dq_cold dq)
          \<and> Suc (cold_available q) = cold_available (update_condition_value_if_due p (dq_cold dq))
      | NotTakenAndNoneAvailable \<Rightarrow> cold_queue_items q = cold_queue_items (dq_cold dq) \<and> cold_available q = 0
          \<and> q = update_condition_value_if_due p (dq_cold dq)"
    by (rule cold_take_spec [OF inv, of p])
  note it = dq_take_iteration_def take dq_inv_def dq_content_def dq_available_def
  show ?thesis
  proof (cases t)
    case (Taken i v)
    show ?thesis
      by (rule that [of "Some (i, v)" "dq\<lparr>dq_cold := q\<rparr>"])
        (use Taken q t in \<open>simp_all add: it update_if_due_stable\<close>)
  next
    case NotTakenButSomeMayBeAvailable
    show ?thesis
      by (rule that [of None "dq\<lparr>dq_cold := q\<rparr>"])
        (use NotTakenButSomeMayBeAvailable q t in \<open>auto simp: it update_if_due_stable\<close>)
  next
    case None: NotTakenAndNoneAvailable
    show ?thesis
    proof (cases "hot_queue dq")
      case Nil
      show ?thesis
        by (rule that [of None "dq\<lparr>dq_cold := q\<rparr>"])
          (use None Nil q t in \<open>auto simp: it update_if_due_stable\<close>)
    next
      case (Cons e hot)
      obtain i v where e: "e = (i, v)"
        by (cases e)
      obtain r q' where add: "add_if_condition_not_satisfied p' i v q = (r, q')"
        by (cases "add_if_condition_not_satisfied p' i v q")
      note spec = add_if_condition_not_satisfied_spec [OF q(1) add]
      show ?thesis
      proof (cases r)
        case (ConditionSatisfied w)
        show ?thesis
          by (rule that [of "Some (i, v)" "\<lparr>hot_queue = hot, dq_cold = q'\<rparr>"])
            (use None Cons e add ConditionSatisfied q t spec in \<open>auto simp: it update_if_due_stable\<close>)
      next
        case EnqueuedOffline
        show ?thesis
          by (rule that [of None "\<lparr>hot_queue = hot, dq_cold = q'\<rparr>"])
            (use None Cons e add EnqueuedOffline q t spec in \<open>auto simp: it update_if_due_stable\<close>)
      qed
    qed
  qed
qed

lemma discard_cold_loop_spec:
  assumes "cold_inv q"
  shows "\<exists>gone k' m q'. discard_cold_loop p k n q = Some (map fst gone, k', m, q') \<and> cold_inv q'
    \<and> cold_content q = mset gone + cold_content q'"
  using assms
proof (induction n arbitrary: k q)
  case (Suc n)
  obtain r q1 where r: "cold_discard (p k) q = Some (r, q1)" "cold_inv q1"
    "case r of
        Discarded i v \<Rightarrow> \<not> cq_satisfies q1 v \<and> cold_content q = add_mset (i, v) (cold_content q1)
      | NotDiscardedButSomeMayBeAvailable \<Rightarrow> cold_content q1 = cold_content q
      | NotDiscardedAndNoneAvailable \<Rightarrow> cold_queue_items q1 = cold_queue_items q
          \<and> list_all (cq_satisfies q1 \<circ> snd) (cold_queue_items q1)"
    by (rule cold_discard_spec [OF Suc.prems, of "p k"])
  obtain gone k' m q' where IH: "discard_cold_loop p (Suc k) n q1 = Some (map fst gone, k', m, q')" "cold_inv q'"
    "cold_content q1 = mset gone + cold_content q'"
    using Suc.IH [OF r(2)] by blast
  show ?case
  proof (cases r)
    case (Discarded i v)
    then show ?thesis
      using r IH by (intro exI [of _ "(i, v) # gone"] exI [of _ k'] exI [of _ m] exI [of _ q']) simp
  next
    case NotDiscardedButSomeMayBeAvailable
    then show ?thesis
      using r IH by (intro exI [of _ gone] exI [of _ k'] exI [of _ m] exI [of _ q']) simp
  next
    case NotDiscardedAndNoneAvailable
    then show ?thesis
      using r by (intro exI [of _ "[]"] exI [of _ "Suc k"] exI [of _ "Suc n"] exI [of _ q1]) simp
  qed
qed simp

lemma discard_hot_loop_spec:
  assumes "cold_inv q"
  shows "dq_inv (discard_hot_loop p k n hot q) \<and> dq_content (discard_hot_loop p k n hot q) \<subseteq># mset hot + cold_content q"
  using assms
proof (induction p k n hot q rule: discard_hot_loop.induct)
  case (3 p k n i v hot q)
  obtain r q' where r: "add_if_condition_satisfied (p k) i v q = (r, q')"
    by (cases "add_if_condition_satisfied (p k) i v q")
  note spec = add_if_condition_satisfied_spec [OF "3.prems" r]
  have "mset hot + cold_content q' \<subseteq># mset ((i, v) # hot) + cold_content q"
    using spec(3) by (auto split: add_if_satisfied_result.splits)
  with "3.IH" show ?case
    using spec(1) by (auto simp: r intro: subset_mset.order_trans)
qed (simp_all add: dq_inv_def dq_content_def)

lemma dq_maybe_discard_owned_spec:
  assumes "dq_inv dq"
  obtains gone dq' where "dq_maybe_discard_owned p n dq = Some (map fst gone, dq')" "dq_inv dq'"
    "mset gone + dq_content dq' \<subseteq># dq_content dq"
proof -
  let ?u = "update_condition_value (p 0) (dq_cold dq)"
  have "cold_inv ?u"
    using assms by (simp add: dq_inv_def cold_inv_update)
  then obtain gone k m q where loop: "discard_cold_loop p 1 n ?u = Some (map fst gone, k, m, q)" "cold_inv q"
    "cold_content ?u = mset gone + cold_content q"
    using discard_cold_loop_spec [of ?u p 1 n] by blast
  let ?dq = "discard_hot_loop p k m (hot_queue dq) q"
  have "dq_inv ?dq" and content: "dq_content ?dq \<subseteq># mset (hot_queue dq) + cold_content q"
    using discard_hot_loop_spec [OF loop(2)] by simp_all
  moreover have "mset gone + dq_content ?dq \<subseteq># mset gone + (mset (hot_queue dq) + cold_content q)"
    using content by (rule subset_mset.add_left_mono)
  ultimately show ?thesis
    using loop(1,3) by (intro that [of gone ?dq]) (simp_all add: dq_maybe_discard_owned_def dq_content_def ac_simps)
qed

datatype ('t, 'c) dq_op =
    DqAddOwned unique_id 't
  | DqRefresh "'c probe"
  | DqTakeIteration "'c probe" "'c probe"
  | DqMaybeDiscard "nat \<Rightarrow> 'c probe" nat

text \<open>The assets an operation hands out for use; discarded assets are not used.\<close>

fun dq_step :: "('t, 'c) dq_op \<Rightarrow> ('t, 'c) double_queue \<Rightarrow> ((unique_id \<times> 't) list \<times> ('t, 'c) double_queue) option" where
  "dq_step (DqAddOwned i v) dq = Some ([], dq_add_owned i v dq)"
| "dq_step (DqRefresh p) dq = Some ([], dq_refresh p dq)"
| "dq_step (DqTakeIteration p p') dq =
     map_option (\<lambda>(r, dq). (case r of None \<Rightarrow> [] | Some e \<Rightarrow> [e], dq)) (dq_take_iteration p p' dq)"
| "dq_step (DqMaybeDiscard p n) dq = map_option (\<lambda>(removed, dq). ([], dq)) (dq_maybe_discard_owned p n dq)"

fun dq_brings :: "('t, 'c) dq_op \<Rightarrow> (unique_id \<times> 't) multiset" where
  "dq_brings (DqAddOwned i v) = {#(i, v)#}"
| "dq_brings _ = {#}"

lemma dq_step_spec:
  assumes "dq_inv dq"
  shows "\<exists>out dq'. dq_step op dq = Some (out, dq') \<and> dq_inv dq' \<and> mset out + dq_content dq' \<subseteq># dq_content dq + dq_brings op"
proof (cases op)
  case (DqTakeIteration p p')
  show ?thesis
    by (rule dq_take_iteration_spec [OF assms, of p p']) (auto simp: DqTakeIteration split: option.splits)
next
  case (DqMaybeDiscard p n)
  show ?thesis
    by (rule dq_maybe_discard_owned_spec [OF assms, of p n])
      (auto simp: DqMaybeDiscard intro: subset_mset.order_trans [OF mset_subset_eq_add_right])
qed (use assms in \<open>simp_all add: dq_add_owned dq_refresh\<close>)

interpretation double: asset_pool dq_inv dq_content dq_brings dq_step
proof unfold_locales
  fix dq :: "('t, 'c) double_queue" and op out dq'
  assume dq: "dq_inv dq"
  note spec = dq_step_spec [OF dq, of op]
  show "\<exists>out dq'. dq_step op dq = Some (out, dq')"
    using spec by blast
  assume "dq_step op dq = Some (out, dq')"
  then show "dq_inv dq'" "mset out + dq_content dq' \<subseteq># dq_content dq + dq_brings op"
    using spec by auto
qed


section \<open>Properties\<close>

text \<open>
  C31: no sequence of operations on a new cold queue panics; afterwards the barriers divide the queue
  as documented, and the queue and the assets handed out hold each asset at most as often as it
  was added.
\<close>

theorem cold_queue_sections:
  "\<exists>outs q. cold.run ops (cold_queue_new now initial condition) = Some (outs, q)
    \<and> cold_ready q \<le> cold_available q \<and> cold_available q \<le> length (cold_queue_items q)
    \<and> list_all (\<lambda>(i, v). cq_satisfies q v) (take (cold_ready q) (cold_queue_items q))
    \<and> list_all (\<lambda>(i, v). \<not> cq_satisfies q v) (drop (cold_available q) (cold_queue_items q))
    \<and> mset outs + mset (cold_queue_items q) \<subseteq># (\<Sum>op \<leftarrow> ops. cold_brings op)"
proof -
  have "cold_content (cold_queue_new now initial condition) = {#}"
    by (simp add: cold_queue_new_def)
  then show ?thesis
    using cold.run_spec [OF cold_inv_new, of ops now initial condition]
    by (simp add: cold_inv_def list_all_iff case_prod_beta)
qed

lemma satisfying_available:
  assumes "dq_inv dq" "(i, v) \<in># dq_content dq" "cq_satisfies (dq_cold dq) v"
  shows "0 < dq_available dq"
proof -
  let ?q = "dq_cold dq"
  have "(i, v) \<notin> set (drop (cold_available ?q) (cold_queue_items ?q))"
    using assms(1,3) by (auto simp: dq_inv_def cold_inv_def list_all_iff)
  moreover have "set (cold_queue_items ?q) = set (take (cold_available ?q) (cold_queue_items ?q))
      \<union> set (drop (cold_available ?q) (cold_queue_items ?q))"
    by (metis append_take_drop_id set_append)
  ultimately have "(i, v) \<in> set (hot_queue dq) \<or> (i, v) \<in> set (take (cold_available ?q) (cold_queue_items ?q))"
    using assms(2) by (auto simp: dq_content_def)
  then show ?thesis
    by (cases "cold_available ?q"; cases "hot_queue dq") (auto simp: dq_available_def)
qed

lemma dq_take_loop_returns:
  assumes "dq_inv dq" "(i, v) \<in># dq_content dq" "cq_satisfies (dq_cold dq) v"
    and "\<forall>(p, p') \<in> set ps. snd p = last_condition_value (dq_cold dq) \<and> snd p' = last_condition_value (dq_cold dq)"
    and "dq_available dq \<le> length ps"
  shows "\<exists>j w dq'. dq_take_loop ps dq = Some (Some (j, w), dq') \<and> cq_satisfies (dq_cold dq) w
    \<and> dq_content dq = add_mset (j, w) (dq_content dq')"
  using assms
proof (induction ps dq rule: dq_take_loop.induct)
  case (1 dq)
  then show ?case
    using satisfying_available [of dq i v] by simp
next
  case (2 p p' ps dq)
  obtain r dq' where it: "dq_take_iteration p p' dq = Some (r, dq')" "dq_inv dq'"
    "cq_condition (dq_cold dq') = cq_condition (dq_cold dq)"
    and r: "case r of
        Some (i, v) \<Rightarrow> cq_satisfies (dq_cold dq') v \<and> dq_content dq = add_mset (i, v) (dq_content dq')
      | None \<Rightarrow> dq_content dq' = dq_content dq"
    and last: "last_condition_value (dq_cold dq') = last_condition_value (dq_cold dq)
      \<and> (r = None \<longrightarrow> dq_available dq' = dq_available dq - 1)"
    using "2.prems"(4) by (auto intro: dq_take_iteration_spec [OF "2.prems"(1), of p p'])
  have same: "cq_satisfies (dq_cold dq') = cq_satisfies (dq_cold dq)"
    using it(3) last by (simp add: cq_satisfies_def fun_eq_iff)
  show ?case
  proof (cases r)
    case None
    then show ?thesis
      using "2.IH" [OF it(1) refl None it(2)] "2.prems" it(1) r last same by auto
  next
    case (Some e)
    then show ?thesis
      using it(1) r same by (cases e) auto
  qed
qed

text \<open>
  C30: as long as the condition value does not change, \<open>take_owned\<close> returns an asset that satisfies
  the condition whenever there is one, wherever it waits, after at most as many iterations as
  there are assets; everything else stays in the queues.
\<close>

theorem take_owned_returns_usable:
  assumes "dq_inv dq" and "(i, v) \<in># dq_content dq" and "cq_condition (dq_cold dq) c v"
    and "snd p0 = c" and "\<forall>(p, p') \<in> set ps. snd p = c \<and> snd p' = c" and "size (dq_content dq) \<le> length ps"
  shows "\<exists>j w dq'. dq_take_owned p0 ps dq = Some (Some (j, w), dq') \<and> cq_condition (dq_cold dq) c w
    \<and> dq_content dq = add_mset (j, w) (dq_content dq')"
proof -
  let ?dq = "dq_refresh p0 dq"
  have c: "last_condition_value (dq_cold ?dq) = c" "cq_condition (dq_cold ?dq) = cq_condition (dq_cold dq)"
    using assms(4) by (simp_all add: dq_refresh_def)
  have "dq_available ?dq \<le> size (dq_content ?dq)"
    using dq_refresh(1) [OF assms(1), of p0] by (simp add: dq_available_def dq_content_def dq_inv_def cold_inv_def)
  then show ?thesis
    using dq_take_loop_returns [of ?dq i v ps] assms c dq_refresh(1) [OF assms(1), of p0] dq_refresh(2) [of p0 dq]
    by (simp add: dq_take_owned_def cq_satisfies_def)
qed


text \<open>An unusable asset waits in front of a usable one.\<close>

definition sample_queue :: "(nat, nat) double_queue" where
  "sample_queue = dq_add_owned 2 3 (dq_add_owned 1 9 (double_queue_new 0 0 (\<lambda>c v. v \<le> c)))"

theorem take_owned_returns_usable_witness:
  "\<exists>j w dq'. dq_take_owned (0, 5) [((1, 5), (1, 5)), ((2, 5), (2, 5))] sample_queue = Some (Some (j, w), dq') \<and> w \<le> 5"
proof -
  have "dq_inv sample_queue" "dq_content sample_queue = {#(1, 9), (2, 3)#}"
    "cq_condition (dq_cold sample_queue) = (\<lambda>c v. v \<le> c)"
    by (simp_all add: sample_queue_def dq_add_owned dq_new)
      (simp add: dq_add_owned_def double_queue_new_def cold_queue_new_def)
  then show ?thesis
    using take_owned_returns_usable [of sample_queue 2 3 5 "(0, 5)" "[((1, 5), (1, 5)), ((2, 5), (2, 5))]"] by auto
qed

end
