(* ===== verification/Asset_Storage.thy ===== *)
theory Asset_Storage
  imports Secret_Db Asset_Queue
begin

text \<open>
  \<open>DistributedAssetStorage\<close> and \<open>clean_db\<close> of \<open>crates/node/src/assets.rs\<close>: the assets of one kind
  and domain, kept in the database and, as far as this node owns them, in a double queue.

  The database is shared by the storages of a node, so that it is passed to each operation beside
  the storage.  The JSON codec of the assets is a parameter with the law that what was written is
  read back.
\<close>

section \<open>Operations\<close>

record 't serde =
  json_to_vec :: "'t \<Rightarrow> bytes option"
  json_from_slice :: "bytes \<Rightarrow> 't option"

definition serde_laws :: "'t serde \<Rightarrow> bool" where
  "serde_laws S \<longleftrightarrow> (\<forall>v bs. json_to_vec S v = Some bs \<longrightarrow> json_from_slice S bs = Some v)"

type_synonym 't owned_queue = "('t, u32 list) double_queue"
type_synonym alive_probe = "u32 list probe"

record 't asset_storage =
  st_col :: db_col
  st_domain_id :: "u64 option"
  st_my_participant_id :: u32
  st_owned_queue :: "'t owned_queue"
  st_last_id :: "unique_id option"

definition decode_key_outcome :: "bytes \<Rightarrow> u64 option \<Rightarrow> unique_id outcome" where
  "decode_key_outcome key domain_id = obind (unwrap (decode_key key domain_id)) ok_or_failed"

fun storage_load ::
  "'t serde \<Rightarrow> u64 option \<Rightarrow> (bytes \<times> bytes) outcome list \<Rightarrow> 't owned_queue \<Rightarrow> unique_id option
    \<Rightarrow> ('t owned_queue \<times> unique_id option) outcome" where
  "storage_load S domain_id [] dq last_id = Done (dq, last_id)"
| "storage_load S domain_id (item # items) dq last_id =
     obind item (\<lambda>(key, value).
     obind (decode_key_outcome key domain_id) (\<lambda>i.
     obind (ok_or_failed (json_from_slice S value)) (\<lambda>v.
       storage_load S domain_id items (dq_add_owned i v dq) (Some i))))"

definition storage_new ::
  "'t serde \<Rightarrow> int \<Rightarrow> 's secret_db \<Rightarrow> db_col \<Rightarrow> u64 option \<Rightarrow> u32 \<Rightarrow> (u32 list \<Rightarrow> 't \<Rightarrow> bool) \<Rightarrow> 't asset_storage outcome" where
  "storage_new S now D col domain_id me condition =
     obind (unwrap (make_prefix_range me domain_id)) (\<lambda>(start, end_key).
     obind (storage_load S domain_id (db_iter_range D col start end_key) (double_queue_new now [] condition) None)
       (\<lambda>(dq, last_id). Done
         \<lparr>st_col = col, st_domain_id = domain_id, st_my_participant_id = me, st_owned_queue = dq, st_last_id = last_id\<rparr>))"

definition st_key :: "'t asset_storage \<Rightarrow> unique_id \<Rightarrow> bytes" where
  "st_key st i = make_key (st_domain_id st) i"

definition storage_reserve :: "u64 \<Rightarrow> u32 \<Rightarrow> 't asset_storage \<Rightarrow> (unique_id \<times> 't asset_storage) option" where
  "storage_reserve now n st =
     map_option (\<lambda>(start, last_id). (start, st\<lparr>st_last_id := last_id\<rparr>))
       (generate_and_reserve_id_range now (st_my_participant_id st) n (st_last_id st))"

definition generate_and_reserve_id :: "u64 \<Rightarrow> 't asset_storage \<Rightarrow> (unique_id \<times> 't asset_storage) option" where
  "generate_and_reserve_id now st = storage_reserve now 1 st"

definition num_owned :: "'t asset_storage \<Rightarrow> nat" where
  "num_owned st = dq_available (st_owned_queue st)"

definition num_owned_ready :: "'t asset_storage \<Rightarrow> nat" where
  "num_owned_ready st = dq_ready (st_owned_queue st)"

definition num_owned_offline :: "'t asset_storage \<Rightarrow> nat option" where
  "num_owned_offline st = dq_offline (st_owned_queue st)"

text \<open>The deletion that follows a successful take.\<close>

definition storage_delete :: "unique_id \<Rightarrow> 's secret_db \<Rightarrow> 't asset_storage \<Rightarrow> 's secret_db outcome" where
  "storage_delete i D st = expect_ok (db_commit D (db_delete (st_col st) (st_key st i) db_update))"

definition storage_take_owned ::
  "alive_probe \<Rightarrow> (alive_probe \<times> alive_probe) list \<Rightarrow> 's secret_db \<Rightarrow> 't asset_storage
    \<Rightarrow> ((unique_id \<times> 't) option \<times> 's secret_db \<times> 't asset_storage) outcome" where
  "storage_take_owned p ps D st =
     obind (unwrap (dq_take_owned p ps (st_owned_queue st))) (\<lambda>(r, dq).
       let st = st\<lparr>st_owned_queue := dq\<rparr> in
       case r of
         None \<Rightarrow> Done (None, D, st)
       | Some (i, v) \<Rightarrow> obind (storage_delete i D st) (\<lambda>D. Done (Some (i, v), D, st)))"

definition put_asset :: "'t serde \<Rightarrow> bytes \<Rightarrow> unique_id \<Rightarrow> 't \<Rightarrow> 's secret_db \<Rightarrow> 't asset_storage \<Rightarrow> 's secret_db outcome" where
  "put_asset S nonce i v D st =
     obind (unwrap (json_to_vec S v)) (\<lambda>ser.
     obind (db_put D nonce (st_col st) (st_key st i) ser db_update) (\<lambda>batch.
       expect_ok (db_commit D batch)))"

definition storage_add_owned ::
  "'t serde \<Rightarrow> bytes \<Rightarrow> unique_id \<Rightarrow> 't \<Rightarrow> 's secret_db \<Rightarrow> 't asset_storage \<Rightarrow> ('s secret_db \<times> 't asset_storage) outcome" where
  "storage_add_owned S nonce i v D st =
     obind (put_asset S nonce i v D st) (\<lambda>D.
       Done (D, st\<lparr>st_owned_queue := dq_add_owned i v (st_owned_queue st)\<rparr>))"

definition storage_maybe_discard_owned ::
  "(nat \<Rightarrow> alive_probe) \<Rightarrow> nat \<Rightarrow> 's secret_db \<Rightarrow> 't asset_storage \<Rightarrow> ('s secret_db \<times> 't asset_storage) outcome" where
  "storage_maybe_discard_owned p n D st =
     obind (unwrap (dq_maybe_discard_owned p n (st_owned_queue st))) (\<lambda>(removed, dq).
       let st = st\<lparr>st_owned_queue := dq\<rparr> in
       if removed = [] then Done (D, st)
       else obind (expect_ok (db_commit D (fold (\<lambda>i. db_delete (st_col st) (st_key st i)) removed db_update)))
         (\<lambda>D. Done (D, st)))"

definition storage_add_unowned ::
  "'t serde \<Rightarrow> bytes \<Rightarrow> unique_id \<Rightarrow> 't \<Rightarrow> 's secret_db \<Rightarrow> 't asset_storage \<Rightarrow> 's secret_db outcome" where
  "storage_add_unowned S nonce i v D st = put_asset S nonce i v D st"

text \<open>The asset is deleted before it is parsed, also when the parse then fails.\<close>

definition storage_take_unowned ::
  "'t serde \<Rightarrow> unique_id \<Rightarrow> 's secret_db \<Rightarrow> 't asset_storage \<Rightarrow> 't outcome \<times> 's secret_db" where
  "storage_take_unowned S i D st =
     (case obind (db_get D (st_col st) (st_key st i)) ok_or_failed of
        Done ser \<Rightarrow>
          (case storage_delete i D st of
             Done D' \<Rightarrow> (ok_or_failed (json_from_slice S ser), D')
           | _ \<Rightarrow> (Panicked, D))
      | Failed \<Rightarrow> (Failed, D)
      | Panicked \<Rightarrow> (Panicked, D))"

fun clean_batch ::
  "'t serde \<Rightarrow> (u32 list \<Rightarrow> 't \<Rightarrow> bool) \<Rightarrow> u32 list \<Rightarrow> db_col \<Rightarrow> (bytes \<times> bytes) outcome list \<Rightarrow> batch \<Rightarrow> batch outcome" where
  "clean_batch S is_subset persistent col [] batch = Done batch"
| "clean_batch S is_subset persistent col (item # items) batch =
     obind item (\<lambda>(key, value).
     obind (ok_or_failed (json_from_slice S value)) (\<lambda>v.
       clean_batch S is_subset persistent col items (if \<not> is_subset persistent v then db_delete col key batch else batch)))"

definition clean_db ::
  "'t serde \<Rightarrow> (u32 list \<Rightarrow> 't \<Rightarrow> bool) \<Rightarrow> 's secret_db \<Rightarrow> db_col \<Rightarrow> u32 list \<Rightarrow> u32 \<Rightarrow> u64 option \<Rightarrow> 's secret_db outcome" where
  "clean_db S is_subset D col persistent me domain_id =
     obind (unwrap (make_prefix_range me domain_id)) (\<lambda>(start, end_key).
     obind (clean_batch S is_subset persistent col (db_iter_range D col start end_key) db_update) (\<lambda>batch.
       db_commit D batch))"

section \<open>What the database holds\<close>

definition stored_ids :: "('s \<Rightarrow> string \<Rightarrow> column) \<Rightarrow> 's secret_db \<Rightarrow> db_col \<Rightarrow> u64 option \<Rightarrow> unique_id set" where
  "stored_ids contents D col domain_id = {i. make_key domain_id i \<in> dom (bt_get (db_column contents D col))}"

text \<open>The asset that the database holds under an identifier.\<close>

definition stored_asset ::
  "('s \<Rightarrow> string \<Rightarrow> column) \<Rightarrow> 't serde \<Rightarrow> 's secret_db \<Rightarrow> db_col \<Rightarrow> u64 option \<Rightarrow> unique_id \<Rightarrow> 't \<Rightarrow> bool" where
  "stored_asset contents S D col domain_id i v \<longleftrightarrow>
     (\<exists>c ser. bt_get (db_column contents D col) (make_key domain_id i) = Some c
        \<and> decrypt (sdb_cipher D) c = Done ser \<and> json_from_slice S ser = Some v)"

text \<open>No identifier occurs twice.\<close>

definition distinct_ids :: "(unique_id \<times> 't) multiset \<Rightarrow> bool" where
  "distinct_ids M \<longleftrightarrow> (\<forall>i. count (image_mset fst M) i \<le> 1)"

lemma distinct_ids_mset: "distinct_ids (mset xs) \<longleftrightarrow> distinct (map fst xs)"
  by (auto simp: distinct_ids_def distinct_count_atmost_1 le_Suc_eq count_eq_zero_iff simp flip: mset_map)

lemma distinct_ids_subset: "M \<subseteq># N \<Longrightarrow> distinct_ids N \<Longrightarrow> distinct_ids M"
  unfolding distinct_ids_def by (meson image_mset_subseteq_mono mset_subset_eq_count order_trans)

lemma distinct_ids_add:
  assumes "distinct_ids (A + B)" "a \<in># A" "b \<in># B"
  shows "fst a \<noteq> fst b"
proof
  assume eq: "fst a = fst b"
  have "fst a \<in># image_mset fst A" "fst b \<in># image_mset fst B"
    using assms(2,3) by simp_all
  then have "0 < count (image_mset fst A) (fst a)" "0 < count (image_mset fst B) (fst a)"
    by (simp_all only: count_greater_zero_iff eq)
  moreover have "count (image_mset fst A) (fst a) + count (image_mset fst B) (fst a) \<le> 1"
    using assms(1) unfolding distinct_ids_def image_mset_union count_union by (rule spec)
  ultimately show False
    by linarith
qed

lemma storage_load_Done:
  assumes "storage_load S d items dq l = Done (dq', l')"
  obtains kvs assets where "items = map Done kvs"
    and "list_all2 (\<lambda>(k, b) (i, v). decode_key k d = Some (Some i) \<and> json_from_slice S b = Some v) kvs assets"
    and "dq' = dq\<lparr>hot_queue := hot_queue dq @ assets\<rparr>"
    and "l' = (if assets = [] then l else Some (fst (last assets)))"
  using assms
proof (induction S d items dq l arbitrary: thesis rule: storage_load.induct)
  case (1 S d dq l)
  show ?case
    by (rule "1.prems"(1) [of "[]" "[]"]) (use "1.prems"(2) in simp_all)
next
  case (2 S d item items dq l)
  obtain k b i v where e: "item = Done (k, b)" "decode_key k d = Some (Some i)" "json_from_slice S b = Some v"
    "storage_load S d items (dq_add_owned i v dq) (Some i) = Done (dq', l')"
    using "2.prems"(2) by (auto simp: obind_Done decode_key_outcome_def)
  obtain kvs assets where IH: "items = map Done kvs"
    "list_all2 (\<lambda>(k, b) (i, v). decode_key k d = Some (Some i) \<and> json_from_slice S b = Some v) kvs assets"
    "dq' = (dq_add_owned i v dq)\<lparr>hot_queue := hot_queue (dq_add_owned i v dq) @ assets\<rparr>"
    "l' = (if assets = [] then Some i else Some (fst (last assets)))"
    by (rule "2.IH" [OF _ e(4)])
  show ?case
    by (rule "2.prems"(1) [of "(k, b) # kvs" "(i, v) # assets"]) (use e IH in \<open>simp_all add: dq_add_owned_def\<close>)
qed


text \<open>
  What a start of the storage loads: the owned assets of the database, in the order of their
  identifiers.
\<close>

lemma storage_new_assets:
  assumes "db_laws contents D" "storage_new S now D col d me cond = Done st"
  obtains range assets where "make_prefix_range me d = Some range"
    and "st = \<lparr>st_col = col, st_domain_id = d, st_my_participant_id = me,
      st_owned_queue = (double_queue_new now [] cond)\<lparr>hot_queue := assets\<rparr>,
      st_last_id = (if assets = [] then None else Some (fst (last assets)))\<rparr>"
    and "list_all2 (\<lambda>e (i, v). fst e = make_key d i \<and> uid_participant_id i = me
        \<and> (\<exists>ser. decrypt (sdb_cipher D) (snd e) = Done ser \<and> json_from_slice S ser = Some v))
      (filter (\<lambda>e. fst range \<le> fst e \<and> fst e < snd range) (db_column contents D col)) assets"
proof -
  obtain a b dq l where r: "make_prefix_range me d = Some (a, b)"
    and load: "storage_load S d (db_iter_range D col a b) (double_queue_new now [] cond) None = Done (dq, l)"
    and st: "st = \<lparr>st_col = col, st_domain_id = d, st_my_participant_id = me, st_owned_queue = dq, st_last_id = l\<rparr>"
    using assms(2) by (auto simp: storage_new_def obind_Done)
  obtain kvs assets where kvs: "db_iter_range D col a b = map Done kvs"
    and dec: "list_all2 (\<lambda>(k, b) (i, v). decode_key k d = Some (Some i) \<and> json_from_slice S b = Some v) kvs assets"
    and dq: "dq = (double_queue_new now [] cond)\<lparr>hot_queue := hot_queue (double_queue_new now [] cond) @ assets\<rparr>"
    and l: "l = (if assets = [] then None else Some (fst (last assets)))"
    by (rule storage_load_Done [OF load])
  let ?R = "\<lambda>e (i, v). decode_key (fst e) d = Some (Some i)
    \<and> (\<exists>ser. decrypt (sdb_cipher D) (snd e) = Done ser \<and> json_from_slice S ser = Some v)"
  have "list_all2 ?R (filter (\<lambda>e. a \<le> fst e \<and> fst e < b) (db_column contents D col)) assets"
    by (rule list_all2_trans [OF _ db_iter_range_Done [OF assms(1) kvs] dec]) auto
  then have "list_all2 (\<lambda>e (i, v). fst e = make_key d i \<and> uid_participant_id i = me
        \<and> (\<exists>ser. decrypt (sdb_cipher D) (snd e) = Done ser \<and> json_from_slice S ser = Some v))
      (filter (\<lambda>e. a \<le> fst e \<and> fst e < b) (db_column contents D col)) assets"
    by (rule list.rel_mono_strong) (auto dest: key_in_range [OF r])
  then show ?thesis
    by (intro that [of "(a, b)" assets]) (simp_all add: r st dq l double_queue_new_def)
qed

lemma list_all2_set:
  "list_all2 R xs ys \<Longrightarrow> y \<in> set ys \<Longrightarrow> \<exists>x \<in> set xs. R x y"
  "list_all2 R xs ys \<Longrightarrow> x \<in> set xs \<Longrightarrow> \<exists>y \<in> set ys. R x y"
  by (induction rule: list_all2_induct; auto)+

lemma sorted_le_last: "sorted xs \<Longrightarrow> x \<in> set xs \<Longrightarrow> x \<le> last xs"
  by (induction xs) auto

lemma storage_new_spec:
  assumes "db_laws contents D" "storage_new S now D col d me cond = Done st"
  shows "st_col st = col" "st_domain_id st = d" "st_my_participant_id st = me" "dq_inv (st_owned_queue st)"
    and "cq_condition (dq_cold (st_owned_queue st)) = cond"
    and "(i, v) \<in># dq_content (st_owned_queue st) \<longleftrightarrow> uid_participant_id i = me \<and> stored_asset contents S D col d i v"
    and "distinct_ids (dq_content (st_owned_queue st))"
    and "(i, v) \<in># dq_content (st_owned_queue st) \<Longrightarrow> \<exists>l. st_last_id st = Some l \<and> i \<le> l"
    and "case st_last_id st of None \<Rightarrow> True | Some l \<Rightarrow> uid_participant_id l = me"
proof -
  let ?m = "db_column contents D col"
  obtain range assets where r: "make_prefix_range me d = Some range"
    and st: "st = \<lparr>st_col = col, st_domain_id = d, st_my_participant_id = me,
      st_owned_queue = (double_queue_new now [] cond)\<lparr>hot_queue := assets\<rparr>,
      st_last_id = (if assets = [] then None else Some (fst (last assets)))\<rparr>"
    and rel: "list_all2 (\<lambda>e (i, v). fst e = make_key d i \<and> uid_participant_id i = me
        \<and> (\<exists>ser. decrypt (sdb_cipher D) (snd e) = Done ser \<and> json_from_slice S ser = Some v))
      (filter (\<lambda>e. fst range \<le> fst e \<and> fst e < snd range) ?m) assets"
    by (rule storage_new_assets [OF assms])
  have inv: "bt_invar ?m"
    using assms(1) by (rule db_column_invar)
  have content: "dq_content (st_owned_queue st) = mset assets"
    by (simp add: st dq_content_def double_queue_new_def cold_queue_new_def)
  show "st_col st = col" "st_domain_id st = d" "st_my_participant_id st = me" "dq_inv (st_owned_queue st)"
    "cq_condition (dq_cold (st_owned_queue st)) = cond"
    using dq_new(1) [of now "[]" cond] by (simp_all add: st dq_inv_def double_queue_new_def cold_queue_new_def)
  show "(i, v) \<in># dq_content (st_owned_queue st) \<longleftrightarrow> uid_participant_id i = me \<and> stored_asset contents S D col d i v"
  proof
    assume "(i, v) \<in># dq_content (st_owned_queue st)"
    then show "uid_participant_id i = me \<and> stored_asset contents S D col d i v"
      using list_all2_set(1) [OF rel, of "(i, v)"] inv
      by (auto simp: content stored_asset_def bt_get_Some_iff)
  next
    assume i: "uid_participant_id i = me \<and> stored_asset contents S D col d i v"
    then obtain c ser where c: "(make_key d i, c) \<in> set ?m" "decrypt (sdb_cipher D) c = Done ser" "json_from_slice S ser = Some v"
      using inv by (auto simp: stored_asset_def bt_get_Some_iff)
    moreover have "fst range \<le> make_key d i \<and> make_key d i < snd range"
      using key_range [of me d "fst range" "snd range" d i] i r by simp
    ultimately show "(i, v) \<in># dq_content (st_owned_queue st)"
      using list_all2_set(2) [OF rel, of "(make_key d i, c)"] by (auto simp: content make_key_inj)
  qed
  have keys: "map fst (filter (\<lambda>e. fst range \<le> fst e \<and> fst e < snd range) ?m) = map (make_key d) (map fst assets)"
    using rel by (induction rule: list_all2_induct) auto
  have "sorted_wrt (<) (map (make_key d) (map fst assets))"
    using bt_invar_filter [OF inv] unfolding bt_invar_def keys [symmetric] .
  then have sorted: "sorted_wrt (<) (map fst assets)"
    by (simp add: sorted_wrt_map make_key_less)
  then show "distinct_ids (dq_content (st_owned_queue st))"
    unfolding content distinct_ids_mset by (simp add: strict_sorted_iff)
  show "\<exists>l. st_last_id st = Some l \<and> i \<le> l" if "(i, v) \<in># dq_content (st_owned_queue st)"
  proof -
    have "(i, v) \<in> set assets"
      using that by (simp add: content)
    moreover from this have "i \<le> last (map fst assets)"
      using sorted by (intro sorted_le_last) (force simp: strict_sorted_iff)+
    ultimately show ?thesis
      by (auto simp: st last_map)
  qed
  show "case st_last_id st of None \<Rightarrow> True | Some l \<Rightarrow> uid_participant_id l = me"
    using list_all2_set(1) [OF rel last_in_set] by (cases "assets = []") (auto simp: st case_prod_beta)
qed


section \<open>Histories of a storage\<close>

text \<open>
  One iteration of a waiting \<open>take_owned\<close>, with the deletion when it ends: the calls of several
  tasks interleave between the iterations.
\<close>

definition storage_take_poll ::
  "alive_probe \<Rightarrow> alive_probe \<Rightarrow> 's secret_db \<Rightarrow> 't asset_storage
    \<Rightarrow> ((unique_id \<times> 't) option \<times> 's secret_db \<times> 't asset_storage) outcome" where
  "storage_take_poll p p' D st =
     obind (unwrap (dq_take_iteration p p' (st_owned_queue st))) (\<lambda>(r, dq).
       let st = st\<lparr>st_owned_queue := dq\<rparr> in
       case r of
         None \<Rightarrow> Done (None, D, st)
       | Some (i, v) \<Rightarrow> obind (storage_delete i D st) (\<lambda>D. Done (Some (i, v), D, st)))"

fun storage_polls ::
  "(alive_probe \<times> alive_probe) list \<Rightarrow> 's secret_db \<Rightarrow> 't asset_storage
    \<Rightarrow> ((unique_id \<times> 't) option \<times> 's secret_db \<times> 't asset_storage) outcome" where
  "storage_polls [] D st = Done (None, D, st)"
| "storage_polls ((p, p') # ps) D st =
     obind (storage_take_poll p p' D st) (\<lambda>(r, D, st).
       case r of None \<Rightarrow> storage_polls ps D st | Some e \<Rightarrow> Done (Some e, D, st))"

lemma storage_polls_loop:
  "storage_polls ps D st =
     obind (unwrap (dq_take_loop ps (st_owned_queue st))) (\<lambda>(r, dq).
       let st = st\<lparr>st_owned_queue := dq\<rparr> in
       case r of
         None \<Rightarrow> Done (None, D, st)
       | Some (i, v) \<Rightarrow> obind (storage_delete i D st) (\<lambda>D. Done (Some (i, v), D, st)))"
proof (induction ps arbitrary: st)
  case (Cons e ps)
  obtain p p' where e: "e = (p, p')"
    by (cases e)
  show ?case
  proof (cases "dq_take_iteration p p' (st_owned_queue st)")
    case None
    then show ?thesis
      by (simp add: e storage_take_poll_def)
  next
    case (Some x)
    obtain r dq where x: "x = (r, dq)"
      by (cases x)
    show ?thesis
    proof (cases r)
      case None
      then show ?thesis
        using Cons.IH [of "st\<lparr>st_owned_queue := dq\<rparr>"] Some x by (simp add: e storage_take_poll_def)
    next
      case r: (Some iv)
      then show ?thesis
        using Some x by (cases iv; cases "storage_delete (fst iv) D (st\<lparr>st_owned_queue := dq\<rparr>)")
          (simp_all add: e storage_take_poll_def)
    qed
  qed
qed simp

lemma storage_take_owned_polls:
  "storage_take_owned p ps D st = storage_polls ps D (st\<lparr>st_owned_queue := dq_refresh p (st_owned_queue st)\<rparr>)"
  by (simp add: storage_polls_loop storage_take_owned_def dq_take_owned_def)

datatype 't storage_event =
    StAddOwned bytes unique_id 't
  | StAddUnowned bytes unique_id 't
  | StTakeStart alive_probe
  | StTakePoll alive_probe alive_probe
  | StTakeUnowned unique_id
  | StMaybeDiscard "nat \<Rightarrow> alive_probe" nat
  | StOther batch
  | StRestart int

text \<open>
  The database and, while the process runs, the storage.  A panic ends the process.  The first
  component of the result are the identifiers of the assets handed out for use.
\<close>

type_synonym ('t, 's) storage_node = "'s secret_db \<times> 't asset_storage option"

fun down_unless_done :: "'s secret_db \<Rightarrow> ('s secret_db \<times> 't asset_storage) outcome \<Rightarrow> ('t, 's) storage_node" where
  "down_unless_done D (Done (D', st)) = (D', Some st)"
| "down_unless_done D _ = (D, None)"

fun storage_step ::
  "'t serde \<Rightarrow> db_col \<Rightarrow> u64 option \<Rightarrow> u32 \<Rightarrow> (u32 list \<Rightarrow> 't \<Rightarrow> bool) \<Rightarrow> 't storage_event
    \<Rightarrow> ('t, 's) storage_node \<Rightarrow> unique_id list \<times> ('t, 's) storage_node" where
  "storage_step S col d me cond (StRestart now) (D, st) =
     (case storage_new S now D col d me cond of Done st \<Rightarrow> ([], D, Some st) | _ \<Rightarrow> ([], D, None))"
| "storage_step S col d me cond (StOther batch) (D, st) =
     (case db_commit D batch of Done D' \<Rightarrow> ([], D', st) | _ \<Rightarrow> ([], D, st))"
| "storage_step S col d me cond _ (D, None) = ([], D, None)"
| "storage_step S col d me cond (StAddOwned nonce i v) (D, Some st) =
     ([], down_unless_done D (storage_add_owned S nonce i v D st))"
| "storage_step S col d me cond (StAddUnowned nonce i v) (D, Some st) =
     ([], down_unless_done D (obind (storage_add_unowned S nonce i v D st) (\<lambda>D. Done (D, st))))"
| "storage_step S col d me cond (StTakeStart p) (D, Some st) =
     ([], D, Some (st\<lparr>st_owned_queue := dq_refresh p (st_owned_queue st)\<rparr>))"
| "storage_step S col d me cond (StTakePoll p p') (D, Some st) =
     (case storage_take_poll p p' D st of
        Done (None, D, st) \<Rightarrow> ([], D, Some st)
      | Done (Some (i, v), D, st) \<Rightarrow> ([i], D, Some st)
      | _ \<Rightarrow> ([], D, None))"
| "storage_step S col d me cond (StTakeUnowned i) (D, Some st) =
     (case storage_take_unowned S i D st of
        (Done v, D) \<Rightarrow> ([i], D, Some st)
      | (Failed, D) \<Rightarrow> ([], D, Some st)
      | (Panicked, D) \<Rightarrow> ([], D, None))"
| "storage_step S col d me cond (StMaybeDiscard p n) (D, Some st) =
     ([], down_unless_done D (storage_maybe_discard_owned p n D st))"

fun storage_run ::
  "'t serde \<Rightarrow> db_col \<Rightarrow> u64 option \<Rightarrow> u32 \<Rightarrow> (u32 list \<Rightarrow> 't \<Rightarrow> bool) \<Rightarrow> 't storage_event list
    \<Rightarrow> ('t, 's) storage_node \<Rightarrow> unique_id list \<times> ('t, 's) storage_node" where
  "storage_run S col d me cond [] n = ([], n)"
| "storage_run S col d me cond (e # es) n =
     (let (used, n) = storage_step S col d me cond e n; (used', n) = storage_run S col d me cond es n
      in (used @ used', n))"

fun event_adds :: "'t storage_event \<Rightarrow> unique_id list" where
  "event_adds (StAddOwned nonce i v) = [i]"
| "event_adds (StAddUnowned nonce i v) = [i]"
| "event_adds _ = []"

text \<open>Writes of the storages of other kinds and domains.\<close>

definition foreign_op :: "db_col \<Rightarrow> u64 option \<Rightarrow> batch_op \<Rightarrow> bool" where
  "foreign_op col d op \<longleftrightarrow>
     (case op of
        PutCf cf k v \<Rightarrow> cf \<noteq> db_col_as_str col \<or> k \<notin> range (make_key d)
      | DeleteCf cf k \<Rightarrow> cf \<noteq> db_col_as_str col \<or> k \<notin> range (make_key d)
      | DeleteRangeCf cf a b \<Rightarrow> cf \<noteq> db_col_as_str col)"

fun event_allowed :: "db_col \<Rightarrow> u64 option \<Rightarrow> u32 \<Rightarrow> 't storage_event \<Rightarrow> bool" where
  "event_allowed col d me (StAddOwned nonce i v) \<longleftrightarrow> uid_participant_id i = me"
| "event_allowed col d me (StAddUnowned nonce i v) \<longleftrightarrow> uid_participant_id i \<noteq> me"
| "event_allowed col d me (StTakeUnowned i) \<longleftrightarrow> uid_participant_id i \<noteq> me"
| "event_allowed col d me (StOther batch) \<longleftrightarrow> list_all (foreign_op col d) batch"
| "event_allowed col d me _ \<longleftrightarrow> True"

text \<open>The owned queue holds assets of the database, each once.\<close>

definition queue_stored :: "('s \<Rightarrow> string \<Rightarrow> column) \<Rightarrow> db_col \<Rightarrow> u64 option \<Rightarrow> u32 \<Rightarrow> ('t, 's) storage_node \<Rightarrow> bool" where
  "queue_stored contents col d me n \<longleftrightarrow>
     (case snd n of
        None \<Rightarrow> True
      | Some st \<Rightarrow> st_col st = col \<and> st_domain_id st = d \<and> dq_inv (st_owned_queue st)
          \<and> distinct_ids (dq_content (st_owned_queue st))
          \<and> (\<forall>e \<in># dq_content (st_owned_queue st). fst e \<in> stored_ids contents (fst n) col d \<and> uid_participant_id (fst e) = me))"

lemma stored_ids_put:
  assumes "db_laws contents D" "put_asset S nonce i v D st = Done D'"
  shows "db_laws contents D'"
    "stored_ids contents D' (st_col st) (st_domain_id st) = insert i (stored_ids contents D (st_col st) (st_domain_id st))"
proof -
  obtain c where c: "db_commit D [PutCf (db_col_as_str (st_col st)) (st_key st i) c] = Done D'"
    using assms(2) by (auto simp: put_asset_def db_put_def db_update_def obind_Done)
  note new = db_commit_column [OF assms(1) c]
  show "db_laws contents D'"
    by (rule new(2))
  show "stored_ids contents D' (st_col st) (st_domain_id st) = insert i (stored_ids contents D (st_col st) (st_domain_id st))"
    unfolding stored_ids_def new(1) by (auto simp: apply_batch_def st_key_def make_key_inj db_column_def)
qed

lemma bt_get_deletes:
  "bt_get (fold apply_op (map (DeleteCf cf) ks) m cf) k = (if k \<in> set ks then None else bt_get (m cf) k)"
  by (induction ks arbitrary: m) auto

lemma stored_ids_deletes:
  assumes "db_laws contents D" "db_commit D (map (DeleteCf (db_col_as_str col)) (map (make_key d) is)) = Done D'"
  shows "db_laws contents D'" "stored_ids contents D' col d = stored_ids contents D col d - set is"
proof -
  note new = db_commit_column [OF assms]
  show "db_laws contents D'"
    by (rule new(2))
  show "stored_ids contents D' col d = stored_ids contents D col d - set is"
    unfolding stored_ids_def new(1)
    by (auto simp: apply_batch_def bt_get_deletes make_key_inj db_column_def dom_def simp del: map_map split: if_splits)
qed

lemma stored_ids_delete:
  assumes "db_laws contents D" "storage_delete i D st = Done D'"
  shows "db_laws contents D'"
    "stored_ids contents D' (st_col st) (st_domain_id st) = stored_ids contents D (st_col st) (st_domain_id st) - {i}"
  using stored_ids_deletes [OF assms(1), of "st_col st" "st_domain_id st" "[i]"] assms(2)
  by (simp_all add: storage_delete_def db_delete_def db_update_def st_key_def)

lemma stored_ids_foreign:
  assumes "db_laws contents D" "db_commit D batch = Done D'" "list_all (foreign_op col d) batch"
  shows "db_laws contents D'" "stored_ids contents D' col d = stored_ids contents D col d"
proof -
  have "bt_get (fold apply_op batch m (db_col_as_str col)) (make_key d i) = bt_get (m (db_col_as_str col)) (make_key d i)" for m i
    using assms(3)
  proof (induction batch arbitrary: m)
    case (Cons op batch)
    then have "bt_get (apply_op op m (db_col_as_str col)) (make_key d i) = bt_get (m (db_col_as_str col)) (make_key d i)"
      by (cases op) (auto simp: foreign_op_def)
    with Cons show ?case
      by simp
  qed simp
  then show "stored_ids contents D' col d = stored_ids contents D col d"
    unfolding stored_ids_def db_commit_column(1) [OF assms(1,2)] apply_batch_def by (simp add: dom_def db_column_def)
  show "db_laws contents D'"
    using assms(1,2) by (rule db_commit_column)
qed


lemma queue_stored_Some:
  "queue_stored contents col d me (D, Some st) \<longleftrightarrow>
     st_col st = col \<and> st_domain_id st = d \<and> dq_inv (st_owned_queue st) \<and> distinct_ids (dq_content (st_owned_queue st))
     \<and> (\<forall>e \<in># dq_content (st_owned_queue st). fst e \<in> stored_ids contents D col d \<and> uid_participant_id (fst e) = me)"
  by (simp add: queue_stored_def)

lemma queue_stored_subset:
  assumes "queue_stored contents col d me (D, Some st)" "dq_inv dq"
    and "A + dq_content dq \<subseteq># dq_content (st_owned_queue st)"
    and "stored_ids contents D col d - fst ` set_mset A \<subseteq> stored_ids contents D' col d"
  shows "queue_stored contents col d me (D', Some (st\<lparr>st_owned_queue := dq\<rparr>))"
proof -
  note st = assms(1) [unfolded queue_stored_Some]
  have both: "distinct_ids (A + dq_content dq)"
    using assms(3) st by (blast intro: distinct_ids_subset)
  have "fst e \<in> stored_ids contents D' col d \<and> uid_participant_id (fst e) = me" if e: "e \<in># dq_content dq" for e
  proof -
    have "e \<in># dq_content (st_owned_queue st)"
      using assms(3) by (rule mset_subset_eqD) (simp add: e)
    moreover have "fst e \<notin> fst ` set_mset A"
      using distinct_ids_add [OF both _ e] by force
    ultimately show ?thesis
      using st assms(4) by blast
  qed
  then show ?thesis
    using st assms(2) distinct_ids_subset [OF mset_subset_eq_add_right both] unfolding queue_stored_Some by simp
qed

lemma queue_stored_restrict:
  assumes "queue_stored contents col d me (D, st)"
    and "\<And>i. i \<in> stored_ids contents D col d \<Longrightarrow> uid_participant_id i = me \<Longrightarrow> i \<in> stored_ids contents D' col d"
  shows "queue_stored contents col d me (D', st)"
  using assms by (auto simp: queue_stored_def split: option.splits)

lemma queue_stored_down [simp]: "queue_stored contents col d me (D, None)"
  by (simp add: queue_stored_def)

definition step_keeps ::
  "('s \<Rightarrow> string \<Rightarrow> column) \<Rightarrow> db_col \<Rightarrow> u64 option \<Rightarrow> u32 \<Rightarrow> unique_id set \<Rightarrow> 's secret_db
    \<Rightarrow> unique_id list \<times> ('t, 's) storage_node \<Rightarrow> bool" where
  "step_keeps contents col d me new D r \<longleftrightarrow>
     (case r of (used, D', st') \<Rightarrow> db_laws contents D' \<and> queue_stored contents col d me (D', st')
        \<and> distinct used \<and> set used \<subseteq> stored_ids contents D col d
        \<and> stored_ids contents D' col d \<subseteq> (stored_ids contents D col d \<union> new) - set used)"

lemma step_keeps_down [simp]: "db_laws contents D \<Longrightarrow> step_keeps contents col d me new D ([], D, None)"
  by (auto simp: step_keeps_def)

lemma storage_take_poll_keeps:
  assumes "db_laws contents D" "queue_stored contents col d me (D, Some st)"
  shows "step_keeps contents col d me {} D (storage_step S col d me cond (StTakePoll p p') (D, Some st))"
proof -
  have inv: "dq_inv (st_owned_queue st)" and st: "st_col st = col" "st_domain_id st = d"
    using assms(2) by (simp_all add: queue_stored_def)
  obtain r dq where it: "dq_take_iteration p p' (st_owned_queue st) = Some (r, dq)" "dq_inv dq"
    and r: "case r of
        Some (i, v) \<Rightarrow> cq_satisfies (dq_cold dq) v \<and> dq_content (st_owned_queue st) = add_mset (i, v) (dq_content dq)
      | None \<Rightarrow> dq_content dq = dq_content (st_owned_queue st)"
    by (rule dq_take_iteration_spec [OF inv, of p p'])
  show ?thesis
  proof (cases r)
    case None
    have "queue_stored contents col d me (D, Some (st\<lparr>st_owned_queue := dq\<rparr>))"
      by (rule queue_stored_subset [OF assms(2) it(2), of "{#}"]) (use None r in simp_all)
    then show ?thesis
      using None it(1) assms(1) by (simp add: storage_take_poll_def step_keeps_def)
  next
    case (Some e)
    obtain i v where e: "e = (i, v)"
      by (cases e)
    have i: "i \<in> stored_ids contents D col d"
      using Some e r assms(2) by (simp add: queue_stored_def)
    show ?thesis
    proof (cases "storage_delete i D (st\<lparr>st_owned_queue := dq\<rparr>)")
      case (Done D')
      note del = stored_ids_delete [OF assms(1) Done, simplified, unfolded st]
      have "queue_stored contents col d me (D', Some (st\<lparr>st_owned_queue := dq\<rparr>))"
        by (rule queue_stored_subset [OF assms(2) it(2), of "{#(i, v)#}"]) (use Some e r del in simp_all)
      then show ?thesis
        using Some e it(1) Done del i by (auto simp: storage_take_poll_def step_keeps_def)
    qed (use Some e it(1) assms(1) in \<open>simp_all add: storage_take_poll_def\<close>)
  qed
qed

lemma storage_take_unowned_keeps:
  assumes "db_laws contents D" "queue_stored contents col d me (D, Some st)" "uid_participant_id i \<noteq> me"
  shows "step_keeps contents col d me {} D (storage_step S col d me cond (StTakeUnowned i) (D, Some st))"
proof -
  have st: "st_col st = col" "st_domain_id st = d"
    using assms(2) by (simp_all add: queue_stored_def)
  show ?thesis
  proof (cases "obind (db_get D (st_col st) (st_key st i)) ok_or_failed")
    case (Done ser)
    then have "db_get D col (make_key d i) = Done (Some ser)"
      by (auto simp: obind_Done st st_key_def)
    then have i: "i \<in> stored_ids contents D col d"
      using db_get_column [OF assms(1)] by (fastforce simp: stored_ids_def split: option.splits)
    show ?thesis
    proof (cases "storage_delete i D st")
      case del: (Done D')
      note new = stored_ids_delete [OF assms(1) del, unfolded st]
      have "queue_stored contents col d me (D', Some st)"
        by (rule queue_stored_restrict [OF assms(2)]) (use assms(3) new in auto)
      then show ?thesis
        using Done del new i
        by (cases "json_from_slice S ser") (auto simp: storage_take_unowned_def step_keeps_def)
    qed (use Done assms(1) in \<open>simp_all add: storage_take_unowned_def\<close>)
  next
    case Failed
    then show ?thesis
      using assms by (simp add: storage_take_unowned_def step_keeps_def)
  next
    case Panicked
    then show ?thesis
      using assms by (simp add: storage_take_unowned_def)
  qed
qed

lemma fold_db_delete:
  "fold (\<lambda>i. db_delete col (key i)) is batch = batch @ map (DeleteCf (db_col_as_str col)) (map key is)"
  by (induction "is" arbitrary: batch) (simp_all add: db_delete_def)

lemma storage_maybe_discard_keeps:
  assumes "db_laws contents D" "queue_stored contents col d me (D, Some st)"
  shows "step_keeps contents col d me {} D (storage_step S col d me cond (StMaybeDiscard p n) (D, Some st))"
proof -
  have inv: "dq_inv (st_owned_queue st)" and st: "st_col st = col" "st_domain_id st = d"
    using assms(2) by (simp_all add: queue_stored_def)
  obtain gone dq where dq: "dq_maybe_discard_owned p n (st_owned_queue st) = Some (map fst gone, dq)" "dq_inv dq"
    "mset gone + dq_content dq \<subseteq># dq_content (st_owned_queue st)"
    by (rule dq_maybe_discard_owned_spec [OF inv, of p n])
  let ?st = "st\<lparr>st_owned_queue := dq\<rparr>"
  show ?thesis
  proof (cases "gone = []")
    case True
    have "queue_stored contents col d me (D, Some ?st)"
      by (rule queue_stored_subset [OF assms(2) dq(2,3)]) (use True in simp)
    then show ?thesis
      using True dq(1) assms(1) by (simp add: storage_maybe_discard_owned_def step_keeps_def)
  next
    case False
    let ?batch = "map (DeleteCf (db_col_as_str col)) (map (make_key d) (map fst gone))"
    have batch: "fold (\<lambda>i. db_delete (st_col st) (st_key ?st i)) (map fst gone) db_update = ?batch"
      by (simp add: fold_db_delete db_update_def st st_key_def)
    show ?thesis
    proof (cases "db_commit D ?batch")
      case (Done D')
      note new = stored_ids_deletes [OF assms(1) Done]
      have "queue_stored contents col d me (D', Some ?st)"
        by (rule queue_stored_subset [OF assms(2) dq(2,3)]) (use new in auto)
      then show ?thesis
        using False dq(1) Done new
        by (auto simp: storage_maybe_discard_owned_def step_keeps_def Let_def batch simp del: map_map)
    qed (use False dq(1) batch assms(1) in \<open>simp_all add: storage_maybe_discard_owned_def Let_def del: map_map\<close>)
  qed
qed

lemma storage_add_keeps:
  assumes "db_laws contents D" "queue_stored contents col d me (D, Some st)"
    and "uid_participant_id i = me \<Longrightarrow> i \<notin> stored_ids contents D col d"
  shows "uid_participant_id i = me \<Longrightarrow>
      step_keeps contents col d me {i} D (storage_step S col d me cond (StAddOwned nonce i v) (D, Some st))"
    and "step_keeps contents col d me {i} D (storage_step S col d me cond (StAddUnowned nonce i v) (D, Some st))"
proof -
  have st: "st_col st = col" "st_domain_id st = d"
    using assms(2) by (simp_all add: queue_stored_def)
  note put = stored_ids_put [OF assms(1), of S nonce i v st, unfolded st]
  show "step_keeps contents col d me {i} D (storage_step S col d me cond (StAddUnowned nonce i v) (D, Some st))"
  proof (cases "put_asset S nonce i v D st")
    case (Done D')
    have "queue_stored contents col d me (D', Some st)"
      by (rule queue_stored_restrict [OF assms(2)]) (use put [OF Done] in auto)
    then show ?thesis
      using Done put by (auto simp: storage_add_unowned_def step_keeps_def)
  qed (use assms(1) in \<open>simp_all add: storage_add_unowned_def\<close>)
  assume me: "uid_participant_id i = me"
  show "step_keeps contents col d me {i} D (storage_step S col d me cond (StAddOwned nonce i v) (D, Some st))"
  proof (cases "put_asset S nonce i v D st")
    case (Done D')
    let ?M = "dq_content (st_owned_queue st)"
    have "i \<notin># image_mset fst ?M"
      using assms(2,3) me by (auto simp: queue_stored_def)
    then have "distinct_ids (add_mset (i, v) ?M)"
      using assms(2) by (auto simp: queue_stored_def distinct_ids_def count_eq_zero_iff not_in_iff)
    then have "queue_stored contents col d me (D', Some (st\<lparr>st_owned_queue := dq_add_owned i v (st_owned_queue st)\<rparr>))"
      using assms(2) put [OF Done] me by (auto simp: queue_stored_def dq_add_owned)
    then show ?thesis
      using Done put by (auto simp: storage_add_owned_def step_keeps_def)
  qed (use assms(1) in \<open>simp_all add: storage_add_owned_def\<close>)
qed


lemma storage_restart_keeps:
  assumes "db_laws contents D"
  shows "step_keeps contents col d me {} D (storage_step S col d me cond (StRestart now) (D, st))"
proof (cases "storage_new S now D col d me cond")
  case (Done st')
  note new = storage_new_spec [OF assms Done]
  have "queue_stored contents col d me (D, Some st')"
    unfolding queue_stored_Some using new(1,2,4,7) new(6) by (auto simp: stored_asset_def stored_ids_def)
  then show ?thesis
    using Done assms by (simp add: step_keeps_def)
qed (use assms in simp_all)

lemma storage_step_keeps:
  assumes "db_laws contents D" "queue_stored contents col d me (D, st)" "event_allowed col d me e"
    and "set (event_adds e) \<inter> stored_ids contents D col d = {}"
  shows "step_keeps contents col d me (set (event_adds e)) D (storage_step S col d me cond e (D, st))"
proof (cases e)
  case (StOther batch)
  show ?thesis
  proof (cases "db_commit D batch")
    case (Done D')
    note new = stored_ids_foreign [OF assms(1) Done assms(3) [unfolded StOther event_allowed.simps]]
    have "queue_stored contents col d me (D', st)"
      by (rule queue_stored_restrict [OF assms(2)]) (simp add: new)
    then show ?thesis
      using Done new by (simp add: StOther step_keeps_def)
  qed (use assms(1,2) in \<open>simp_all add: StOther step_keeps_def\<close>)
next
  case (StRestart now)
  then show ?thesis
    using storage_restart_keeps [OF assms(1)] by simp
next
  case start: (StTakeStart p)
  show ?thesis
  proof (cases st)
    case (Some st')
    have "queue_stored contents col d me (D, Some (st'\<lparr>st_owned_queue := dq_refresh p (st_owned_queue st')\<rparr>))"
      using assms(2) by (simp add: Some queue_stored_Some dq_refresh)
    then show ?thesis
      using assms(1) by (simp add: start Some step_keeps_def)
  qed (use assms(1) start in simp)
next
  case e: (StAddOwned nonce i v)
  show ?thesis
  proof (cases st)
    case (Some st')
    note up = assms(1) assms(2) [unfolded Some]
    show ?thesis
      unfolding e Some event_adds.simps list.set by (rule storage_add_keeps(1) [OF up]) (use assms(3,4) e in simp_all)
  qed (use assms(1) e in simp)
next
  case e: (StAddUnowned nonce i v)
  show ?thesis
  proof (cases st)
    case (Some st')
    note up = assms(1) assms(2) [unfolded Some]
    show ?thesis
      unfolding e Some event_adds.simps list.set by (rule storage_add_keeps(2) [OF up]) (use assms(3,4) e in simp_all)
  qed (use assms(1) e in simp)
next
  case e: (StTakePoll p p')
  show ?thesis
  proof (cases st)
    case (Some st')
    note up = assms(1) assms(2) [unfolded Some]
    show ?thesis
      unfolding e Some event_adds.simps list.set by (rule storage_take_poll_keeps [OF up])
  qed (use assms(1) e in simp)
next
  case e: (StTakeUnowned i)
  show ?thesis
  proof (cases st)
    case (Some st')
    note up = assms(1) assms(2) [unfolded Some]
    show ?thesis
      unfolding e Some event_adds.simps list.set by (rule storage_take_unowned_keeps [OF up]) (use assms(3,4) e in simp_all)
  qed (use assms(1) e in simp)
next
  case e: (StMaybeDiscard p n)
  show ?thesis
  proof (cases st)
    case (Some st')
    note up = assms(1) assms(2) [unfolded Some]
    show ?thesis
      unfolding e Some event_adds.simps list.set by (rule storage_maybe_discard_keeps [OF up])
  qed (use assms(1) e in simp)
qed


text \<open>
  C32: a start of the storage brings back exactly the owned assets that the database holds, each
  once, and continues the identifiers after the last of them, so that a new identifier is never
  one of a stored asset.
\<close>

theorem restart_restores_owned_assets:
  assumes "db_laws contents D" and "storage_new S now D col d me cond = Done st"
  shows "((i, v) \<in># dq_content (st_owned_queue st) \<longleftrightarrow>
      uid_participant_id i = me \<and> stored_asset contents S D col d i v)
    \<and> distinct_ids (dq_content (st_owned_queue st))
    \<and> (storage_reserve t n st = Some (start, st') \<longrightarrow> (i, v) \<in># dq_content (st_owned_queue st) \<longrightarrow> i < start)"
proof -
  note new = storage_new_spec [OF assms]
  have "i < start" if r: "storage_reserve t n st = Some (start, st')" and i: "(i, v) \<in># dq_content (st_owned_queue st)"
  proof -
    obtain l' where g: "generate_and_reserve_id_range t me n (st_last_id st) = Some (start, l')"
      using r by (auto simp: storage_reserve_def new(3))
    obtain l where l: "st_last_id st = Some l" "i \<le> l"
      using new(8) [OF i] by blast
    then show ?thesis
      using reserve_shape(5) [OF g new(9) l(1)] by simp
  qed
  then show ?thesis
    using new(6,7) by blast
qed


section \<open>Samples\<close>

definition byte_serde :: "u8 serde" where
  "byte_serde = \<lparr>json_to_vec = (\<lambda>v. Some [v]), json_from_slice = (\<lambda>bs. case bs of [v] \<Rightarrow> Some v | _ \<Rightarrow> None)\<rparr>"

text \<open>The identifier of participant 1 with counter 3, and one of participant 2.\<close>

abbreviation own_id :: unique_id where
  "own_id \<equiv> 79228162514264337593543950339"

abbreviation peer_id :: unique_id where
  "peer_id \<equiv> 158456325028528675187087900672"

abbreviation sample_run :: "u8 storage_event list \<Rightarrow> unique_id list \<times> (u8, string \<Rightarrow> column) storage_node" where
  "sample_run events \<equiv> storage_run byte_serde DbPresignature (Some 0) 1 (\<lambda>_ _. True) events (sample_db (\<lambda>_. []), None)"

definition sample_history :: "u8 storage_event list" where
  "sample_history = [StRestart 0, StAddOwned sample_nonce own_id 42, StAddUnowned sample_nonce peer_id 43, StRestart 1,
     StTakeUnowned peer_id, StTakeStart (2, [1]), StTakePoll (2, [1]) (2, [1]), StRestart 3,
     StTakeUnowned peer_id, StTakeStart (4, [1]), StTakePoll (4, [1]) (4, [1])]"

lemma sample_db_empty: "stored_ids list_contents (sample_db (\<lambda>_. [])) col d = {}"
  by (simp add: stored_ids_def db_column_def sample_db_def list_contents_def)



text \<open>A database with an asset of this participant and one of another.\<close>

definition sample_stored :: "(string \<Rightarrow> column) secret_db" where
  "sample_stored = sample_db (\<lambda>cf. if cf = ''presignature''
     then [(make_key (Some 0) own_id, sample_nonce @ [42]), (make_key (Some 0) peer_id, sample_nonce @ [43])] else [])"

theorem restart_restores_owned_assets_witness:
  "\<exists>st start st'. storage_new byte_serde 5 sample_stored DbPresignature (Some 0) 1 (\<lambda>_ _. True) = Done st
    \<and> stored_asset list_contents byte_serde sample_stored DbPresignature (Some 0) own_id 42
    \<and> storage_reserve 7 1 st = Some (start, st') \<and> own_id < start"
proof -
  have "case storage_new byte_serde 5 sample_stored DbPresignature (Some 0) 1 (\<lambda>_ _. True) of
      Done st \<Rightarrow> hot_queue (st_owned_queue st) = [(own_id, 42)] \<and> storage_reserve 7 1 st \<noteq> None | _ \<Rightarrow> False"
    by code_simp
  then obtain st start st' where st: "storage_new byte_serde 5 sample_stored DbPresignature (Some 0) 1 (\<lambda>_ _. True) = Done st"
    "(own_id, 42) \<in># dq_content (st_owned_queue st)" "storage_reserve 7 1 st = Some (start, st')"
    by (auto simp: dq_content_def split: outcome.splits)
  moreover have "db_laws list_contents sample_stored"
    unfolding sample_stored_def by (rule sample_db_laws)
  ultimately show ?thesis
    using restart_restores_owned_assets [of list_contents sample_stored byte_serde 5 DbPresignature "Some 0" 1 "\<lambda>_ _. True" st own_id 42]
    by blast
qed

end
