(* ===== verification/Asset_Cleanup.thy ===== *)
theory Asset_Cleanup
  imports Asset_Storage
begin

text \<open>
  The participants configuration of a node (\<open>ParticipantsConfig\<close> of \<open>crates/node/src/config.rs\<close>)
  and the deletion of stale assets when it enters the running state
  (\<open>crates/node/src/assets/cleanup.rs\<close>).
\<close>

section \<open>Participants configuration\<close>

record node_participant_info =
  npi_id :: u32
  npi_address :: string
  npi_port :: nat
  npi_p2p_public_key :: bytes
  npi_near_account_id :: string

record participants_config =
  pc_threshold :: u64
  pc_participants :: "node_participant_info list"

datatype node_status = NodeActive | NodeIdle

datatype participant_status_result = StatusInactive | StatusActive node_status

definition get_info_by_account_id :: "participants_config \<Rightarrow> string \<Rightarrow> node_participant_info option" where
  "get_info_by_account_id c account = find (\<lambda>p. npi_near_account_id p = account) (pc_participants c)"

definition get_info :: "participants_config \<Rightarrow> u32 \<Rightarrow> node_participant_info option" where
  "get_info c i = find (\<lambda>p. npi_id p = i) (pc_participants c)"

definition participant_status :: "participants_config \<Rightarrow> string \<Rightarrow> bytes \<Rightarrow> participant_status_result" where
  "participant_status c account key =
     (case get_info_by_account_id c account of
        Some p \<Rightarrow> StatusActive (if npi_p2p_public_key p = key then NodeActive else NodeIdle)
      | None \<Rightarrow> StatusInactive)"

definition config_participant_id :: "participants_config \<Rightarrow> string \<Rightarrow> u32 option" where
  "config_participant_id c account = map_option npi_id (get_info_by_account_id c account)"

definition get_participant_id_by_node_id :: "participants_config \<Rightarrow> string \<Rightarrow> bytes \<Rightarrow> u32 option" where
  "get_participant_id_by_node_id c account key =
     (case get_info_by_account_id c account of
        Some p \<Rightarrow> if npi_p2p_public_key p = key then Some (npi_id p) else None
      | None \<Rightarrow> None)"

section \<open>Epoch data\<close>

record epoch_data =
  ed_epoch_id :: u64
  ed_participants :: participants_config

definition EPOCH_ID_KEY :: bytes where
  "EPOCH_ID_KEY = [69, 80, 79, 67, 72, 95, 73, 68]"

datatype epoch_data_wrapper = EpochLegacy u64 | EpochCurrent epoch_data

definition u64_from_be_bytes :: "bytes \<Rightarrow> u64" where
  "u64_from_be_bytes bs = of_int (le_value (rev bs))"

definition get_epoch_data :: "epoch_data serde \<Rightarrow> 's secret_db \<Rightarrow> epoch_data_wrapper option outcome" where
  "get_epoch_data E D =
     obind (db_get D DbEpochData EPOCH_ID_KEY) (\<lambda>res.
       case res of
         None \<Rightarrow> Done None
       | Some ser \<Rightarrow>
           (case json_from_slice E ser of
              Some e \<Rightarrow> Done (Some (EpochCurrent e))
            | None \<Rightarrow> if length ser = 8 then Done (Some (EpochLegacy (u64_from_be_bytes ser))) else Failed))"

datatype asset_cleanup = CleanupKeep | CleanupDeleteAll | CleanupKeepOnly "u32 list"

definition persistent_participants :: "epoch_data \<Rightarrow> epoch_data \<Rightarrow> u32 list" where
  "persistent_participants previous current =
     List.map_filter (\<lambda>c.
       case get_info (ed_participants previous) (npi_id c) of
         None \<Rightarrow> Some (npi_id c)
       | Some p \<Rightarrow> if npi_p2p_public_key c = npi_p2p_public_key p then Some (npi_id p) else None)
       (pc_participants (ed_participants current))"

definition cleanup_behavior :: "epoch_data \<Rightarrow> epoch_data \<Rightarrow> asset_cleanup" where
  "cleanup_behavior previous current =
     (if ed_epoch_id previous \<noteq> ed_epoch_id current then CleanupDeleteAll
      else let persistent = persistent_participants previous current in
        if length persistent \<noteq> length (pc_participants (ed_participants current)) then CleanupKeepOnly persistent
        else CleanupKeep)"

definition cleanup_behavior_during_update :: "u64 \<Rightarrow> u64 \<Rightarrow> asset_cleanup" where
  "cleanup_behavior_during_update previous current = (if previous \<noteq> current then CleanupDeleteAll else CleanupKeep)"

text \<open>An error of \<open>delete_all\<close> is ignored.\<close>

definition ignore_failed :: "batch \<Rightarrow> batch outcome \<Rightarrow> batch outcome" where
  "ignore_failed batch r = (case r of Failed \<Rightarrow> Done batch | _ \<Rightarrow> r)"

definition delete_all_assets :: "'s secret_db \<Rightarrow> 's secret_db outcome" where
  "delete_all_assets D =
     obind (ignore_failed db_update (db_delete_all D DbPresignature db_update)) (\<lambda>batch.
     obind (ignore_failed batch (db_delete_all D DbTriple batch)) (\<lambda>batch.
       db_commit D batch))"

text \<open>The result beside the database, since earlier domains stay cleaned when a later one fails.\<close>

fun clean_domains ::
  "'p serde \<Rightarrow> (u32 list \<Rightarrow> 'p \<Rightarrow> bool) \<Rightarrow> u32 list \<Rightarrow> u32 \<Rightarrow> u64 list \<Rightarrow> 's secret_db \<Rightarrow> unit outcome \<times> 's secret_db" where
  "clean_domains P sub persistent me [] D = (Done (), D)"
| "clean_domains P sub persistent me (d # ds) D =
     (case clean_db P sub D DbPresignature persistent me (Some d) of
        Done D' \<Rightarrow> clean_domains P sub persistent me ds D'
      | Failed \<Rightarrow> (Failed, D)
      | Panicked \<Rightarrow> (Panicked, D))"

definition store_epoch_data :: "epoch_data serde \<Rightarrow> bytes \<Rightarrow> epoch_data \<Rightarrow> 's secret_db \<Rightarrow> 's secret_db outcome" where
  "store_epoch_data E nonce current D =
     obind (ok_or_failed (json_to_vec E current)) (\<lambda>ser.
     obind (db_put D nonce DbEpochData EPOCH_ID_KEY ser db_update) (\<lambda>batch. db_commit D batch))"

definition cleanup_for :: "epoch_data \<Rightarrow> epoch_data_wrapper option \<Rightarrow> asset_cleanup" where
  "cleanup_for current previous =
     (case previous of
        None \<Rightarrow> CleanupKeep
      | Some (EpochLegacy i) \<Rightarrow> cleanup_behavior_during_update i (ed_epoch_id current)
      | Some (EpochCurrent p) \<Rightarrow> cleanup_behavior p current)"

definition run_cleanup ::
  "'t serde \<Rightarrow> (u32 list \<Rightarrow> 't \<Rightarrow> bool) \<Rightarrow> 'p serde \<Rightarrow> (u32 list \<Rightarrow> 'p \<Rightarrow> bool) \<Rightarrow> u32 \<Rightarrow> u64 list
    \<Rightarrow> asset_cleanup \<Rightarrow> 's secret_db \<Rightarrow> unit outcome \<times> 's secret_db" where
  "run_cleanup T sub_t P sub_p me ds cleanup D =
     (case cleanup of
        CleanupKeep \<Rightarrow> (Done (), D)
      | CleanupDeleteAll \<Rightarrow>
          (case delete_all_assets D of Done D' \<Rightarrow> (Done (), D') | Failed \<Rightarrow> (Failed, D) | Panicked \<Rightarrow> (Panicked, D))
      | CleanupKeepOnly persistent \<Rightarrow>
          (case clean_db T sub_t D DbTriple persistent me None of
             Done D' \<Rightarrow> clean_domains P sub_p persistent me ds D'
           | Failed \<Rightarrow> (Failed, D)
           | Panicked \<Rightarrow> (Panicked, D)))"

definition delete_stale_triples_and_presignatures ::
  "epoch_data serde \<Rightarrow> 't serde \<Rightarrow> (u32 list \<Rightarrow> 't \<Rightarrow> bool) \<Rightarrow> 'p serde \<Rightarrow> (u32 list \<Rightarrow> 'p \<Rightarrow> bool)
    \<Rightarrow> bytes \<Rightarrow> epoch_data \<Rightarrow> u32 \<Rightarrow> u64 list \<Rightarrow> 's secret_db \<Rightarrow> unit outcome \<times> 's secret_db" where
  "delete_stale_triples_and_presignatures E T sub_t P sub_p nonce current me ds D =
     (case get_epoch_data E D of
        Done previous \<Rightarrow>
          (case run_cleanup T sub_t P sub_p me ds (cleanup_for current previous) D of
             (Done _, D) \<Rightarrow>
               (case store_epoch_data E nonce current D of
                  Done D' \<Rightarrow> (Done (), D') | Failed \<Rightarrow> (Failed, D) | Panicked \<Rightarrow> (Panicked, D))
           | (r, D) \<Rightarrow> (r, D))
      | Failed \<Rightarrow> (Failed, D)
      | Panicked \<Rightarrow> (Panicked, D))"

section \<open>Selective cleaning\<close>

lemma clean_batch_Done:
  assumes "clean_batch S sub ps col items batch = Done batch'"
  obtains kvs where "items = map Done kvs" "\<forall>(k, b) \<in> set kvs. json_from_slice S b \<noteq> None"
    and "batch' = batch @ map (DeleteCf (db_col_as_str col))
      (map fst (filter (\<lambda>(k, b). \<not> sub ps (the (json_from_slice S b))) kvs))"
  using assms
proof (induction S sub ps col items batch arbitrary: thesis rule: clean_batch.induct)
  case (1 S sub ps col batch)
  show ?case
    by (rule "1.prems"(1) [of "[]"]) (use "1.prems"(2) in simp_all)
next
  case (2 S sub ps col item items batch)
  obtain k b v where e: "item = Done (k, b)" "json_from_slice S b = Some v"
    "clean_batch S sub ps col items (if \<not> sub ps v then db_delete col k batch else batch) = Done batch'"
    using "2.prems"(2) by (auto simp: obind_Done)
  obtain kvs where IH: "items = map Done kvs" "\<forall>(k, b) \<in> set kvs. json_from_slice S b \<noteq> None"
    "batch' = (if \<not> sub ps v then db_delete col k batch else batch) @ map (DeleteCf (db_col_as_str col))
      (map fst (filter (\<lambda>(k, b). \<not> sub ps (the (json_from_slice S b))) kvs))"
    by (rule "2.IH" [OF _ e(3)])
  show ?case
    by (rule "2.prems"(1) [of "(k, b) # kvs"]) (use e IH in \<open>simp_all add: db_delete_def\<close>)
qed

lemma clean_db_keys:
  assumes "db_laws contents D" "clean_db S sub D col ps me d = Done D'"
  obtains a b kvs where "make_prefix_range me d = Some (a, b)"
    and "list_all2 (\<lambda>e (k, v). k = fst e \<and> decrypt (sdb_cipher D) (snd e) = Done v)
      (filter (\<lambda>e. a \<le> fst e \<and> fst e < b) (db_column contents D col)) kvs"
    and "\<forall>(k, b) \<in> set kvs. json_from_slice S b \<noteq> None"
    and "db_commit D (map (DeleteCf (db_col_as_str col)) (map fst (filter (\<lambda>(k, b). \<not> sub ps (the (json_from_slice S b))) kvs))) = Done D'"
proof -
  obtain a b batch where r: "make_prefix_range me d = Some (a, b)"
    and batch: "clean_batch S sub ps col (db_iter_range D col a b) db_update = Done batch" "db_commit D batch = Done D'"
    using assms(2) by (auto simp: clean_db_def obind_Done)
  obtain kvs where kvs: "db_iter_range D col a b = map Done kvs" "\<forall>(k, b) \<in> set kvs. json_from_slice S b \<noteq> None"
    "batch = db_update @ map (DeleteCf (db_col_as_str col)) (map fst (filter (\<lambda>(k, b). \<not> sub ps (the (json_from_slice S b))) kvs))"
    by (rule clean_batch_Done [OF batch(1)])
  show ?thesis
    by (rule that [OF r db_iter_range_Done [OF assms(1) kvs(1)] kvs(2)]) (use batch(2) kvs(3) in \<open>simp add: db_update_def\<close>)
qed


lemma bt_get_commit_deletes:
  assumes "db_laws contents D" "db_commit D (map (DeleteCf (db_col_as_str col)) ks) = Done D'"
  shows "bt_get (db_column contents D' col) k = (if k \<in> set ks then None else bt_get (db_column contents D col) k)"
    and "col' \<noteq> col \<Longrightarrow> db_column contents D' col' = db_column contents D col'"
proof -
  have "fold apply_op (map (DeleteCf (db_col_as_str col)) ks) m (db_col_as_str col') = m (db_col_as_str col')" if "col' \<noteq> col" for m
    using that by (induction ks arbitrary: m) simp_all
  then show "col' \<noteq> col \<Longrightarrow> db_column contents D' col' = db_column contents D col'"
    unfolding db_commit_column(1) [OF assms] by (simp add: apply_batch_def db_column_def)
  show "bt_get (db_column contents D' col) k = (if k \<in> set ks then None else bt_get (db_column contents D col) k)"
    unfolding db_commit_column(1) [OF assms] apply_batch_def bt_get_deletes by (simp add: db_column_def)
qed

text \<open>
  C37: cleaning a column deletes exactly the owned assets of the domain with a participant that is not
  kept; the assets of other participants and the other columns stay.
\<close>

theorem clean_db_keeps_persistent:
  assumes "db_laws contents D" and "clean_db S sub D col ps me d = Done D'"
  shows "(stored_asset contents S D' col d i v \<longleftrightarrow>
      stored_asset contents S D col d i v \<and> (uid_participant_id i = me \<longrightarrow> sub ps v))
    \<and> (col' \<noteq> col \<longrightarrow> db_column contents D' col' = db_column contents D col')"
proof -
  obtain a b kvs where r: "make_prefix_range me d = Some (a, b)"
    and rel: "list_all2 (\<lambda>e (k, v). k = fst e \<and> decrypt (sdb_cipher D) (snd e) = Done v)
      (filter (\<lambda>e. a \<le> fst e \<and> fst e < b) (db_column contents D col)) kvs"
    and commit: "db_commit D (map (DeleteCf (db_col_as_str col)) (map fst (filter (\<lambda>(k, b). \<not> sub ps (the (json_from_slice S b))) kvs))) = Done D'"
    by (rule clean_db_keys [OF assms])
  let ?K = "map fst (filter (\<lambda>(k, b). \<not> sub ps (the (json_from_slice S b))) kvs)"
  note new = bt_get_commit_deletes [OF assms(1) commit] and cipher = db_commit_column(3) [OF assms(1) commit]
  have inv: "bt_invar (db_column contents D col)"
    using assms(1) by (rule db_column_invar)
  have range: "a \<le> make_key d i \<and> make_key d i < b \<longleftrightarrow> uid_participant_id i = me"
    using key_range [OF r, of d i] by simp
  have K: "make_key d i \<in> set ?K \<longleftrightarrow> uid_participant_id i = me \<and> \<not> sub ps v"
    if stored: "stored_asset contents S D col d i v"
  proof -
    obtain c ser where c: "(make_key d i, c) \<in> set (db_column contents D col)" "decrypt (sdb_cipher D) c = Done ser"
      "json_from_slice S ser = Some v"
      using stored inv by (auto simp: stored_asset_def bt_get_Some_iff)
    have "(make_key d i, x) \<in> set kvs \<longleftrightarrow> uid_participant_id i = me \<and> x = ser" for x
    proof
      assume "(make_key d i, x) \<in> set kvs"
      then obtain c' where "(make_key d i, c') \<in> set (db_column contents D col)" "a \<le> make_key d i" "make_key d i < b"
        "decrypt (sdb_cipher D) c' = Done x"
        using list_all2_set(1) [OF rel, of "(make_key d i, x)"] by auto
      moreover from this have "bt_get (db_column contents D col) (make_key d i) = Some c'"
        by (simp add: bt_get_Some_iff [OF inv])
      moreover have "bt_get (db_column contents D col) (make_key d i) = Some c"
        using c(1) by (simp add: bt_get_Some_iff [OF inv])
      ultimately show "uid_participant_id i = me \<and> x = ser"
        using range c(2) by simp
    next
      assume "uid_participant_id i = me \<and> x = ser"
      then show "(make_key d i, x) \<in> set kvs"
        using list_all2_set(2) [OF rel, of "(make_key d i, c)"] range c by auto
    qed
    moreover have "make_key d i \<in> set ?K \<longleftrightarrow> (\<exists>x. (make_key d i, x) \<in> set kvs \<and> \<not> sub ps (the (json_from_slice S x)))"
      by (force simp: image_iff)
    ultimately show ?thesis
      using c(3) by simp
  qed
  have "stored_asset contents S D' col d i v \<longleftrightarrow> stored_asset contents S D col d i v \<and> make_key d i \<notin> set ?K"
    unfolding stored_asset_def new(1) cipher by (simp del: set_map)
  then show ?thesis
    using K new(2) by (auto simp del: set_map)
qed


section \<open>A new epoch\<close>

lemma delete_all_assets_columns:
  assumes "db_laws contents D" "delete_all_assets D = Done D'"
    and "db_delete_all D DbPresignature db_update \<noteq> Failed" "\<forall>batch. db_delete_all D DbTriple batch \<noteq> Failed"
  shows "db_laws contents D'" "db_column contents D' DbPresignature = []" "db_column contents D' DbTriple = []"
proof -
  obtain b1 b2 where b: "db_delete_all D DbPresignature db_update = Done b1" "db_delete_all D DbTriple b1 = Done b2"
    "db_commit D b2 = Done D'"
    using assms(2-4) by (auto simp: delete_all_assets_def obind_Done ignore_failed_def split: outcome.splits)
  note new = db_commit_column [OF assms(1) b(3)] db_delete_all_batch [OF assms(1) b(2)] db_delete_all_batch [OF assms(1) b(1)]
  show "db_laws contents D'"
    by (rule new(2))
  have ends: "fst (hd m) \<le> fst e" "fst e < fst (last m) \<or> fst e = fst (last m)" if "e \<in> set m" "m = db_column contents D col" for e m col
    using bt_invar_ends [of m e] db_column_invar [OF assms(1), of col] that by (auto simp: le_less)
  note cols = apply_batch_def db_update_def db_column_def bt_remove_def filter_empty_conv
  show "db_column contents D' DbPresignature = []"
    unfolding new(1) new(5,6) using ends [of _ _ DbPresignature] by (auto simp: cols)
  show "db_column contents D' DbTriple = []"
    unfolding new(1) new(5,6) using ends [of _ _ DbTriple] by (auto simp: cols)
qed

lemma store_epoch_data_columns:
  assumes "db_laws contents D" "store_epoch_data E nonce current D = Done D'" "length nonce = NONCE_LEN"
  obtains c ser where "db_laws contents D'" "sdb_cipher D' = sdb_cipher D" "json_to_vec E current = Some ser"
    and "decrypt (sdb_cipher D) c = Done ser"
    and "bt_get (db_column contents D' DbEpochData) EPOCH_ID_KEY = Some c"
    and "\<And>col. col \<noteq> DbEpochData \<Longrightarrow> db_column contents D' col = db_column contents D col"
proof -
  obtain ser c where c: "json_to_vec E current = Some ser" "encrypt (sdb_cipher D) nonce ser = Done c"
    "db_commit D [PutCf (db_col_as_str DbEpochData) EPOCH_ID_KEY c] = Done D'"
    using assms(2) by (auto simp: store_epoch_data_def db_put_def db_update_def obind_Done)
  note new = db_commit_column [OF assms(1) c(3)]
  have "decrypt (sdb_cipher D) c = Done ser"
    using assms(1,3) c(2) by (auto simp: db_laws_def intro: decrypt_encrypt)
  moreover have "bt_get (db_column contents D' DbEpochData) EPOCH_ID_KEY = Some c"
    unfolding new(1) by (simp add: apply_batch_def)
  moreover have "db_column contents D' col = db_column contents D col" if "col \<noteq> DbEpochData" for col
    unfolding new(1) using that by (cases col) (simp_all add: apply_batch_def db_column_def)
  ultimately show ?thesis
    using new(2,3) c(1) that by blast
qed

lemma get_epoch_data_stored:
  assumes "db_laws contents D" "bt_get (db_column contents D DbEpochData) EPOCH_ID_KEY = Some c"
    and "decrypt (sdb_cipher D) c = Done ser" "json_from_slice E ser = Some e" "get_epoch_data E D = Done r"
  shows "r = Some (EpochCurrent e)"
proof -
  obtain x where x: "db_get D DbEpochData EPOCH_ID_KEY = Done x"
    "(case x of None \<Rightarrow> Done None
       | Some ser \<Rightarrow> (case json_from_slice E ser of Some e \<Rightarrow> Done (Some (EpochCurrent e))
          | None \<Rightarrow> if length ser = 8 then Done (Some (EpochLegacy (u64_from_be_bytes ser))) else Failed)) = Done r"
    using assms(5) by (auto simp: get_epoch_data_def obind_Done)
  have "x = Some ser"
    using db_get_column [OF assms(1) x(1)] assms(2,3) by simp
  with x(2) assms(4) show ?thesis
    by simp
qed


section \<open>Assets that do not parse\<close>

lemma clean_db_unparsed:
  assumes "db_laws contents D" "bt_get (db_column contents D col) (make_key d i) = Some c"
    and "uid_participant_id i = me" "decrypt (sdb_cipher D) c = Done ser" "json_from_slice S ser = None"
  shows "clean_db S sub D col ps me d \<noteq> Done D'"
proof
  assume clean: "clean_db S sub D col ps me d = Done D'"
  obtain a b kvs where r: "make_prefix_range me d = Some (a, b)"
    and rel: "list_all2 (\<lambda>e (k, v). k = fst e \<and> decrypt (sdb_cipher D) (snd e) = Done v)
      (filter (\<lambda>e. a \<le> fst e \<and> fst e < b) (db_column contents D col)) kvs"
    and parse: "\<forall>(k, b) \<in> set kvs. json_from_slice S b \<noteq> None"
    by (rule clean_db_keys [OF assms(1) clean])
  have "(make_key d i, c) \<in> set (db_column contents D col)" "a \<le> make_key d i" "make_key d i < b"
    using assms(2,3) db_column_invar [OF assms(1)] key_range [OF r, of d i] by (auto simp: bt_get_Some_iff)
  then have "(make_key d i, ser) \<in> set kvs"
    using list_all2_set(2) [OF rel, of "(make_key d i, c)"] assms(4) by auto
  with parse assms(5) show False
    by auto
qed

lemma clean_db_other:
  assumes "db_laws contents D" "clean_db S sub D col ps me d = Done D'"
    and "col' \<noteq> col \<or> d \<noteq> d' \<and> (d = None \<longleftrightarrow> d' = None)"
  shows "bt_get (db_column contents D' col') (make_key d' i) = bt_get (db_column contents D col') (make_key d' i)"
    and "db_laws contents D'" and "sdb_cipher D' = sdb_cipher D"
proof -
  obtain a b kvs where r: "make_prefix_range me d = Some (a, b)"
    and rel: "list_all2 (\<lambda>e (k, v). k = fst e \<and> decrypt (sdb_cipher D) (snd e) = Done v)
      (filter (\<lambda>e. a \<le> fst e \<and> fst e < b) (db_column contents D col)) kvs"
    and commit: "db_commit D (map (DeleteCf (db_col_as_str col)) (map fst (filter (\<lambda>(k, b). \<not> sub ps (the (json_from_slice S b))) kvs))) = Done D'"
    by (rule clean_db_keys [OF assms(1,2)])
  note new = bt_get_commit_deletes [OF assms(1) commit]
  show "db_laws contents D'" "sdb_cipher D' = sdb_cipher D"
    using db_commit_column [OF assms(1) commit] by simp_all
  show "bt_get (db_column contents D' col') (make_key d' i) = bt_get (db_column contents D col') (make_key d' i)"
  proof (cases "col' = col")
    case True
    then have "\<not> (a \<le> make_key d' i \<and> make_key d' i < b)"
      using assms(3) key_range [OF r, of d' i] by auto
    then have "(make_key d' i, x) \<notin> set kvs" for x
      using list_all2_set(1) [OF rel, of "(make_key d' i, x)"] by auto
    then have "make_key d' i \<notin> set (map fst (filter (\<lambda>(k, b). \<not> sub ps (the (json_from_slice S b))) kvs))"
      by auto
    then show ?thesis
      unfolding True new(1) by (simp only: if_False)
  next
    case False
    then show ?thesis
      using new(2) by simp
  qed
qed

lemma clean_db_other_column:
  assumes "db_laws contents D" "clean_db S sub D col ps me d = Done D'" "col' \<noteq> col"
  shows "db_column contents D' col' = db_column contents D col'"
  by (rule clean_db_keys [OF assms(1,2)]) (rule bt_get_commit_deletes(2) [OF assms(1) _ assms(3)])

lemma clean_domains_other_column:
  assumes "db_laws contents D" "col \<noteq> DbPresignature"
  shows "db_column contents (snd (clean_domains P sub ps me ds D)) col = db_column contents D col"
  using assms(1)
proof (induction ds arbitrary: D)
  case (Cons e ds)
  show ?case
  proof (cases "clean_db P sub D DbPresignature ps me (Some e)")
    case (Done D')
    have "db_laws contents D'"
      by (rule clean_db_other(2) [OF Cons.prems Done, of col None]) (use assms(2) in simp)
    then show ?thesis
      using Cons.IH [of D'] clean_db_other_column [OF Cons.prems Done assms(2)] Done by simp
  qed simp_all
qed simp

lemma clean_domains_unparsed:
  assumes "db_laws contents D" "bt_get (db_column contents D DbPresignature) (make_key (Some d) i) = Some c"
    and "uid_participant_id i = me" "decrypt (sdb_cipher D) c = Done ser" "json_from_slice P ser = None" "d \<in> set ds"
  shows "fst (clean_domains P sub ps me ds D) \<noteq> Done ()"
  using assms
proof (induction ds arbitrary: D)
  case (Cons e ds)
  show ?case
  proof (cases "clean_db P sub D DbPresignature ps me (Some e)")
    case (Done D')
    then have "e \<noteq> d"
      using clean_db_unparsed [OF Cons.prems(1-5)] by auto
    then have diff: "DbPresignature \<noteq> DbPresignature \<or> Some e \<noteq> Some d \<and> (Some e = None \<longleftrightarrow> Some d = None)"
      by simp
    note other = clean_db_other [OF Cons.prems(1) Done diff]
    then show ?thesis
      using Cons.IH [OF other(2)] Cons.prems(2-6) \<open>e \<noteq> d\<close> Done other(1,3) by simp
  qed simp_all
qed simp



section \<open>Samples\<close>

lemma sample_stored_laws: "db_laws list_contents sample_stored"
  unfolding sample_stored_def by (rule sample_db_laws)

lemma sample_column: "db_column list_contents sample_stored DbPresignature =
  [(make_key (Some 0) own_id, sample_nonce @ [42]), (make_key (Some 0) peer_id, sample_nonce @ [43])]"
  by (simp add: db_column_def sample_stored_def sample_db_def list_contents_def bt_invar_def make_key_less)

lemma sample_peer_stored: "stored_asset list_contents byte_serde sample_stored DbPresignature (Some 0) peer_id 43"
  by (simp add: stored_asset_def sample_column bt_get_def make_key_inj)
    (simp add: sample_stored_def sample_db_def reverse_aes_def decrypt_def NONCE_LEN_def byte_serde_def)

theorem clean_db_keeps_persistent_witness:
  "\<exists>D'. clean_db byte_serde (\<lambda>ps v. v \<in> {43}) sample_stored DbPresignature [] 1 (Some 0) = Done D'
    \<and> stored_asset list_contents byte_serde D' DbPresignature (Some 0) peer_id 43
    \<and> \<not> stored_asset list_contents byte_serde D' DbPresignature (Some 0) own_id 42"
proof -
  have "case clean_db byte_serde (\<lambda>ps v. v \<in> {43}) sample_stored DbPresignature [] 1 (Some 0) of Done _ \<Rightarrow> True | _ \<Rightarrow> False"
    by code_simp
  then obtain D' where D': "clean_db byte_serde (\<lambda>ps v. v \<in> {43}) sample_stored DbPresignature [] 1 (Some 0) = Done D'"
    by (auto split: outcome.splits)
  have "uid_participant_id own_id = 1"
    by code_simp
  then show ?thesis
    using D' sample_peer_stored
      clean_db_keeps_persistent [OF sample_stored_laws D', of peer_id 43 DbTriple]
      clean_db_keeps_persistent [OF sample_stored_laws D', of own_id 42 DbTriple]
    by auto
qed

definition sample_config :: "u8 \<Rightarrow> participants_config" where
  "sample_config k = \<lparr>pc_threshold = 1, pc_participants =
     [\<lparr>npi_id = 1, npi_address = ''a'', npi_port = 80, npi_p2p_public_key = [k], npi_near_account_id = ''one''\<rparr>]\<rparr>"

definition sample_epoch :: "u64 \<Rightarrow> u8 \<Rightarrow> epoch_data" where
  "sample_epoch i k = \<lparr>ed_epoch_id = i, ed_participants = sample_config k\<rparr>"

text \<open>A codec of three epochs.\<close>

definition epoch_serde :: "epoch_data serde" where
  "epoch_serde = \<lparr>json_to_vec = (\<lambda>e. if e = sample_epoch 1 1 then Some [1] else if e = sample_epoch 2 1 then Some [2] else None),
     json_from_slice = (\<lambda>bs. if bs = [1] then Some (sample_epoch 1 1) else if bs = [2] then Some (sample_epoch 2 1) else None)\<rparr>"

lemma epoch_serde_laws: "serde_laws epoch_serde"
  by (auto simp: serde_laws_def epoch_serde_def split: if_splits)

definition sample_old_epoch :: "(string \<Rightarrow> column) secret_db" where
  "sample_old_epoch = sample_db ((sdb_state sample_stored)(''epoch_id'' := [(EPOCH_ID_KEY, sample_nonce @ [1])]))"

lemma sample_old_epoch_laws: "db_laws list_contents sample_old_epoch"
  unfolding sample_old_epoch_def by (rule sample_db_laws)

lemma sample_old_epoch_data: "get_epoch_data epoch_serde sample_old_epoch = Done (Some (EpochCurrent (sample_epoch 1 1)))"
  by (simp add: get_epoch_data_def db_get_def sample_old_epoch_def sample_db_def list_rocksdb_def list_contents_def
      bt_invar_def bt_get_def reverse_aes_def decrypt_def NONCE_LEN_def epoch_serde_def)



end
