(* ===== verification/Spec2Isabelle.thy ===== *)
theory Spec2Isabelle
  imports Contract_Properties Asset_Cleanup
begin

text \<open>
  A verification development for the NEAR MPC signer contract (\<open>src/crates/contract\<close>).

  \<open>Prelude\<close>, \<open>Collections\<close>, \<open>Errors\<close> hold the shared vocabulary;
  \<open>Participants\<close> and \<open>Thresholds\<close> the participant set and its threshold.
\<close>

end
